(* ===== verification/Go_Prelude.thy ===== *)
theory Go_Prelude
  imports
    Main
    "HOL-Library.Word"
    "HOL-Library.Sublist"
    "HOL-Library.State_Monad"
    "HOL-Library.Char_ord"
    "HOL-Library.List_Lexorder"
begin

text \<open>
  What the components share: the parts of Go's standard library the sources call
  (package \<open>strings\<close>, \<open>fmt\<close>'s \<open>%d\<close> verb, \<open>path/filepath.Join\<close>, 64-bit durations), as
  executable functions on byte strings, with the lemmas the component proofs rest on, and the
  collections of simplification rules the later theories fill.

  A Go string and a \<open>[]byte\<close> are both a sequence of bytes, and so is a HOL \<^typ>\<open>string\<close>:
  a \<^typ>\<open>char\<close> is one byte. White space and case are therefore treated on the UTF-8
  encoding, as the Go functions treat them.
\<close>

named_theorems run_simps \<open>rules that run the state-passing operations of the model\<close>
named_theorems err_simps \<open>rules that evaluate the error tree (errors.As, errors.Is)\<close>

type_synonym bytes = string
type_synonym uint64 = "64 word"

section \<open>Package strings\<close>

definition HasPrefix :: "string \<Rightarrow> string \<Rightarrow> bool" where
  "HasPrefix s p = prefix p s"

definition TrimPrefix :: "string \<Rightarrow> string \<Rightarrow> string" where
  "TrimPrefix s p = (if HasPrefix s p then drop (length p) s else s)"

text \<open>\<open>strings.Index\<close>: the first position of \<open>p\<close> in \<open>s\<close>; \<open>None\<close> is Go's \<open>-1\<close>.\<close>

fun Index :: "string \<Rightarrow> string \<Rightarrow> nat option" where
  "Index [] p = (if p = [] then Some 0 else None)"
| "Index (c # s) p = (if HasPrefix (c # s) p then Some 0 else map_option Suc (Index s p))"

fun LastIndex :: "string \<Rightarrow> string \<Rightarrow> nat option" where
  "LastIndex [] p = (if p = [] then Some 0 else None)"
| "LastIndex (c # s) p =
     (case LastIndex s p of
        Some i \<Rightarrow> Some (Suc i)
      | None \<Rightarrow> if HasPrefix (c # s) p then Some 0 else None)"

definition Contains :: "string \<Rightarrow> string \<Rightarrow> bool" where
  "Contains s p = (Index s p \<noteq> None)"

definition Cut :: "string \<Rightarrow> string \<Rightarrow> string \<times> string \<times> bool" where
  "Cut s sep =
     (case Index s sep of
        Some i \<Rightarrow> (take i s, drop (i + length sep) s, True)
      | None \<Rightarrow> (s, [], False))"

fun Join :: "string list \<Rightarrow> string \<Rightarrow> string" where
  "Join [] sep = []"
| "Join [x] sep = x"
| "Join (x # y # zs) sep = x @ sep @ Join (y # zs) sep"

text \<open>
  \<open>strings.ToLower\<close>, up to what an ASCII pattern can see of its result: the sources only
  search the lowered text for ASCII phrases. ASCII letters are lowered; the two runes outside
  ASCII whose lower case is an ASCII letter (KELVIN SIGN, LATIN CAPITAL LETTER I WITH DOT
  ABOVE) become that letter; every other rune outside ASCII stays outside ASCII under Go's
  mapping, and is left as it is here.
\<close>

definition ascii_lower :: "char \<Rightarrow> char" where
  "ascii_lower c =
     (if 65 \<le> (of_char c :: nat) \<and> (of_char c :: nat) \<le> 90 then char_of ((of_char c :: nat) + 32) else c)"

definition kelvin_sign :: string where
  "kelvin_sign = [CHR 0xE2, CHR 0x84, CHR 0xAA]"

definition dotted_capital_i :: string where
  "dotted_capital_i = [CHR 0xC4, CHR 0xB0]"

fun ToLower :: "string \<Rightarrow> string" where
  "ToLower [] = []"
| "ToLower (c # s) =
     (if HasPrefix (c # s) kelvin_sign then CHR ''k'' # ToLower (drop 2 s)
      else if HasPrefix (c # s) dotted_capital_i then CHR ''i'' # ToLower (drop 1 s)
      else ascii_lower c # ToLower s)"

text \<open>
  \<open>strings.TrimSpace\<close> removes the runes of \<open>unicode.IsSpace\<close> from both ends. The list gives
  the UTF-8 encoding of each of them: the six ASCII ones, U+0085, U+00A0, U+1680,
  U+2000 to U+200A, U+2028, U+2029, U+202F, U+205F and U+3000.
\<close>

definition space_runes :: "string list" where
  "space_runes =
     [[CHR '' ''], [CHR 0x09], [CHR 0x0A], [CHR 0x0B], [CHR 0x0C], [CHR 0x0D],
      [CHR 0xC2, CHR 0x85], [CHR 0xC2, CHR 0xA0], [CHR 0xE1, CHR 0x9A, CHR 0x80],
      [CHR 0xE2, CHR 0x80, CHR 0x80], [CHR 0xE2, CHR 0x80, CHR 0x81],
      [CHR 0xE2, CHR 0x80, CHR 0x82], [CHR 0xE2, CHR 0x80, CHR 0x83],
      [CHR 0xE2, CHR 0x80, CHR 0x84], [CHR 0xE2, CHR 0x80, CHR 0x85],
      [CHR 0xE2, CHR 0x80, CHR 0x86], [CHR 0xE2, CHR 0x80, CHR 0x87],
      [CHR 0xE2, CHR 0x80, CHR 0x88], [CHR 0xE2, CHR 0x80, CHR 0x89],
      [CHR 0xE2, CHR 0x80, CHR 0x8A], [CHR 0xE2, CHR 0x80, CHR 0xA8],
      [CHR 0xE2, CHR 0x80, CHR 0xA9], [CHR 0xE2, CHR 0x80, CHR 0xAF],
      [CHR 0xE2, CHR 0x81, CHR 0x9F], [CHR 0xE3, CHR 0x80, CHR 0x80]]"

function strip_left :: "string list \<Rightarrow> string \<Rightarrow> string" where
  "strip_left rs s =
     (case find (\<lambda>r. r \<noteq> [] \<and> HasPrefix s r) rs of
        Some r \<Rightarrow> strip_left rs (drop (length r) s)
      | None \<Rightarrow> s)"
  by pat_completeness auto
termination
  by (relation "measure (\<lambda>(rs, s). length s)")
    (auto simp: find_Some_iff HasPrefix_def diff_less_mono2 length_greater_0_conv
      intro!: diff_less dest!: prefix_length_le)

declare strip_left.simps [simp del]

definition strip_right :: "string list \<Rightarrow> string \<Rightarrow> string" where
  "strip_right rs s = rev (strip_left (map rev rs) (rev s))"

definition TrimSpace :: "string \<Rightarrow> string" where
  "TrimSpace s = strip_right space_runes (strip_left space_runes s)"

section \<open>Package fmt and filepath\<close>

text \<open>The verb \<open>%d\<close>.\<close>

definition digit_char :: "nat \<Rightarrow> char" where
  "digit_char d = char_of (48 + d)"

fun show_nat :: "nat \<Rightarrow> string" where
  "show_nat n = (if n < 10 then [digit_char n] else show_nat (n div 10) @ [digit_char (n mod 10)])"

declare show_nat.simps [simp del]

definition show_int :: "int \<Rightarrow> string" where
  "show_int i = (if i < 0 then CHR ''-'' # show_nat (nat (- i)) else show_nat (nat i))"

text \<open>
  \<open>time.Duration.String\<close>: hours, minutes and seconds from one second on, else milli-, micro-
  or nanoseconds; a fraction without trailing zeros. The micro sign has two bytes.
\<close>

definition strip_zeros :: "string \<Rightarrow> string" where
  "strip_zeros s = rev (dropWhile (\<lambda>c. c = CHR ''0'') (rev s))"

definition fmtFrac :: "nat \<Rightarrow> nat \<Rightarrow> string" where
  "fmtFrac v prec =
     (let ds = show_nat (v mod 10 ^ prec);
          fr = strip_zeros (replicate (prec - length ds) CHR ''0'' @ ds)
      in if fr = '''' then '''' else ''.'' @ fr)"

definition Duration_String :: "int \<Rightarrow> string" where
  "Duration_String d =
     (let u = nat \<bar>d\<bar>;
          s = (if u = 0 then ''0s''
               else if u < 10 ^ 3 then show_nat u @ ''ns''
               else if u < 10 ^ 6 then show_nat (u div 10 ^ 3) @ fmtFrac u 3 @ [CHR 0xC2, CHR 0xB5, CHR ''s'']
               else if u < 10 ^ 9 then show_nat (u div 10 ^ 6) @ fmtFrac u 6 @ ''ms''
               else (let sec = u div 10 ^ 9; m = sec div 60; h = m div 60
                     in (if h > 0 then show_nat h @ ''h'' else '''')
                        @ (if m > 0 then show_nat (m mod 60) @ ''m'' else '''')
                        @ show_nat (sec mod 60) @ fmtFrac u 9 @ ''s''))
      in if d < 0 then ''-'' @ s else s)"

text \<open>
  \<open>filepath.Join\<close> of two elements, with the lexical \<open>filepath.Clean\<close>: empty and \<open>.\<close> elements
  vanish, \<open>..\<close> removes the element before it, or stays at the front of a relative path.
\<close>

fun split_path :: "string \<Rightarrow> string list" where
  "split_path [] = [[]]"
| "split_path (c # s) =
     (if c = CHR ''/'' then [] # split_path s
      else (case split_path s of [] \<Rightarrow> [[c]] | x # xs \<Rightarrow> (c # x) # xs))"

fun clean_elems :: "bool \<Rightarrow> string list \<Rightarrow> string list \<Rightarrow> string list" where
  "clean_elems rooted acc [] = rev acc"
| "clean_elems rooted acc (e # es) =
     (if e = [] \<or> e = ''.'' then clean_elems rooted acc es
      else if e = ''..'' then
        (case acc of
           [] \<Rightarrow> clean_elems rooted (if rooted then [] else [e]) es
         | a # as \<Rightarrow> if a = ''..'' then clean_elems rooted (e # acc) es else clean_elems rooted as es)
      else clean_elems rooted (e # acc) es)"

definition Clean :: "string \<Rightarrow> string" where
  "Clean p =
     (let rooted = HasPrefix p ''/''; q = Join (clean_elems rooted [] (split_path p)) ''/''
      in if rooted then CHR ''/'' # q else if q = [] then ''.'' else q)"

definition filepath_Join :: "string \<Rightarrow> string \<Rightarrow> string" where
  "filepath_Join p f =
     (if p \<noteq> [] then Clean (p @ ''/'' @ f) else if f \<noteq> [] then Clean f else [])"

section \<open>Searching in strings\<close>

lemma HasPrefix_simps [simp]:
  "HasPrefix s []"
  "HasPrefix [] (c # p) \<longleftrightarrow> False"
  "HasPrefix (d # s) (c # p) \<longleftrightarrow> c = d \<and> HasPrefix s p"
  by (simp_all add: HasPrefix_def)

lemma HasPrefix_append [simp]: "HasPrefix (p @ s) p"
  by (simp add: HasPrefix_def)

lemma Index_empty [simp]: "Index s [] = Some 0"
  by (cases s) auto

lemma Index_SomeD: "Index s p = Some i \<Longrightarrow> s = take i s @ p @ drop (i + length p) s"
proof (induction s arbitrary: i)
  case (Cons c s)
  show ?case
  proof (cases "HasPrefix (c # s) p")
    case True
    then obtain t where t: "c # s = p @ t" by (auto simp: HasPrefix_def prefix_def)
    from True Cons.prems have "i = 0" by simp
    with t show ?thesis by simp
  next
    case False
    with Cons.prems obtain j where j: "Index s p = Some j" "i = Suc j" by auto
    from Cons.IH [OF j(1)] j(2) show ?thesis by simp
  qed
qed (auto split: if_splits)

text \<open>The first occurrence, when the separator's first byte does not occur before it.\<close>

lemma Index_first:
  assumes "sep \<noteq> []" and "hd sep \<notin> set a"
  shows "Index (a @ sep @ b) sep = Some (length a)"
  using assms(2)
proof (induction a)
  case Nil
  from assms(1) have "HasPrefix (sep @ b) sep" by simp
  with assms(1) show ?case by (cases sep) auto
next
  case (Cons c a)
  with assms(1) have "\<not> HasPrefix (c # a @ sep @ b) sep" by (cases sep) auto
  with Cons show ?case by simp
qed

lemma Index_char: "c \<notin> set a \<Longrightarrow> Index (a @ c # b) [c] = Some (length a)"
  using Index_first [of "[c]" a b] by simp

lemma Index_char_None: "c \<notin> set a \<Longrightarrow> Index a [c] = None"
  by (induction a) auto

lemma Contains_iff_sublist: "Contains s p \<longleftrightarrow> sublist p s"
proof
  assume "Contains s p"
  then obtain i where "Index s p = Some i" by (auto simp: Contains_def)
  from Index_SomeD [OF this] show "sublist p s" by (metis sublist_appendI)
next
  have *: "\<exists>i. Index (a @ p @ b) p = Some i" for a b
    by (induction a) (cases p; auto)+
  assume "sublist p s"
  then obtain a b where "s = a @ p @ b" by (auto simp: sublist_def)
  with * [of a b] show "Contains s p" by (auto simp: Contains_def)
qed

lemma Cut_first:
  assumes "sep \<noteq> []" and "hd sep \<notin> set a"
  shows "Cut (a @ sep @ b) sep = (a, b, True)"
  using Index_first [OF assms, of b] by (simp add: Cut_def)

lemma Cut_join: "Cut s sep = (a, b, True) \<Longrightarrow> s = a @ sep @ b"
  by (auto simp: Cut_def split: option.splits dest: Index_SomeD)

lemma Index_char_first: "Index s [c] = Some i \<Longrightarrow> c \<notin> set (take i s)"
  by (induction s arbitrary: i) (auto split: if_splits)

lemma Cut_char_head: "Cut s [c] = (a, b, True) \<Longrightarrow> c \<notin> set a"
  by (auto simp: Cut_def split: option.splits dest: Index_char_first)

lemma LastIndex_char: "c \<notin> set b \<Longrightarrow> LastIndex (a @ c # b) [c] = Some (length a)"
proof (induction a)
  case Nil
  then have "LastIndex b [c] = None" by (induction b) auto
  then show ?case by simp
qed simp

lemma LastIndex_char_None: "c \<notin> set b \<Longrightarrow> LastIndex b [c] = None"
  by (induction b) auto

section \<open>Trimming a class of runes\<close>

text \<open>
  The contract that makes trimming well behaved: the encodings are non-empty, none is a prefix
  of another, and no encoding starts with a byte that another has in its middle. UTF-8 has the
  last two by design.
\<close>

locale prefix_code =
  fixes runes :: "string list"
  assumes nonempty: "r \<in> set runes \<Longrightarrow> r \<noteq> []"
    and prefix_free: "r \<in> set runes \<Longrightarrow> q \<in> set runes \<Longrightarrow> prefix r q \<Longrightarrow> r = q"
begin

lemma strip_left_step: "r \<in> set runes \<Longrightarrow> strip_left runes (r @ s) = strip_left runes s"
proof -
  assume r: "r \<in> set runes"
  then have "find (\<lambda>q. q \<noteq> [] \<and> HasPrefix (r @ s) q) runes \<noteq> None"
    using nonempty by (auto simp: find_None_iff)
  then obtain q where q: "find (\<lambda>q. q \<noteq> [] \<and> HasPrefix (r @ s) q) runes = Some q" by blast
  then have "q \<in> set runes" "prefix q (r @ s)" by (auto simp: find_Some_iff HasPrefix_def)
  then have "q = r" using r prefix_free by (metis prefix_same_cases prefixI)
  with q show ?thesis by (simp add: strip_left.simps [of runes "r @ s"])
qed

lemma strip_left_stop: "(\<And>r. r \<in> set runes \<Longrightarrow> \<not> prefix r s) \<Longrightarrow> strip_left runes s = s"
  using strip_left.simps [of runes s]
  by (auto simp: HasPrefix_def find_None_iff split: option.splits) (auto simp: find_Some_iff)

lemma strip_induct [case_names stop strip]:
  assumes stop: "\<And>s. (\<And>r. r \<in> set runes \<Longrightarrow> \<not> prefix r s) \<Longrightarrow> P s"
    and strip: "\<And>r s. r \<in> set runes \<Longrightarrow> P s \<Longrightarrow> P (r @ s)"
  shows "P s"
proof (induction s rule: length_induct)
  case (1 s)
  show ?case
  proof (cases "\<exists>r \<in> set runes. prefix r s")
    case True
    then obtain r t where r: "r \<in> set runes" "s = r @ t" by (auto simp: prefix_def)
    with nonempty have "length t < length s" by simp
    with 1 r strip show ?thesis by blast
  next
    case False
    then show ?thesis using stop by blast
  qed
qed

lemma strip_left_stops: "r \<in> set runes \<Longrightarrow> \<not> prefix r (strip_left runes s)"
  by (induction s rule: strip_induct) (simp_all add: strip_left_stop strip_left_step)

lemma strip_left_idem: "strip_left runes (strip_left runes s) = strip_left runes s"
  by (rule strip_left_stop) (rule strip_left_stops)

lemma strip_left_suffix: "suffix (strip_left runes s) s"
  by (induction s rule: strip_induct) (simp_all add: strip_left_stop strip_left_step suffix_appendI)

lemma strip_left_barrier:
  "(\<And>r. r \<in> set runes \<Longrightarrow> c \<notin> set r) \<Longrightarrow> strip_left runes (c # s) = c # s"
proof (rule strip_left_stop)
  fix r assume "\<And>r. r \<in> set runes \<Longrightarrow> c \<notin> set r" and "r \<in> set runes"
  with nonempty [of r] show "\<not> prefix r (c # s)" by (cases r) fastforce+
qed

lemma strip_left_append_barrier:
  assumes "\<And>r. r \<in> set runes \<Longrightarrow> c \<notin> set r"
  shows "strip_left runes (b @ c # a) = strip_left runes b @ c # a"
proof (induction b rule: strip_induct)
  case (stop s)
  have "\<not> prefix r (s @ c # a)" if "r \<in> set runes" for r
    using stop [OF that] assms [OF that] by (auto simp: prefix_append prefix_Cons)
  with stop show ?case by (simp add: strip_left_stop)
qed (simp add: strip_left_step)

end

locale rune_class = prefix_code +
  assumes heads: "r \<in> set runes \<Longrightarrow> q \<in> set runes \<Longrightarrow> hd r \<notin> set (tl q)"
begin

lemma suffix_free: "r \<in> set runes \<Longrightarrow> q \<in> set runes \<Longrightarrow> suffix r q \<Longrightarrow> r = q"
proof (rule ccontr)
  assume r: "r \<in> set runes" and q: "q \<in> set runes" and "suffix r q" and "r \<noteq> q"
  then obtain z where z: "q = z @ r" "z \<noteq> []" by (auto simp: suffix_def)
  with nonempty [OF r] have "hd r \<in> set (tl q)" by (cases z) auto
  with heads [OF r q] show False by simp
qed

end

sublocale rune_class \<subseteq> rear: prefix_code "map rev runes"
  by unfold_locales
    (auto simp: suffix_to_prefix [symmetric] dest: nonempty intro: suffix_free)

context rune_class
begin

lemma strip_right_step: "r \<in> set runes \<Longrightarrow> strip_right runes (s @ r) = strip_right runes s"
  using rear.strip_left_step [of "rev r" "rev s"] by (simp add: strip_right_def)

lemma strip_right_stop: "(\<And>r. r \<in> set runes \<Longrightarrow> \<not> suffix r s) \<Longrightarrow> strip_right runes s = s"
  using rear.strip_left_stop [of "rev s"] by (force simp: strip_right_def suffix_to_prefix)

lemma strip_right_stops: "r \<in> set runes \<Longrightarrow> \<not> suffix r (strip_right runes s)"
  using rear.strip_left_stops [of "rev r" "rev s"] by (auto simp: strip_right_def suffix_to_prefix)

lemma strip_right_prefix: "prefix (strip_right runes s) s"
  using rear.strip_left_suffix [of "rev s"] by (simp add: strip_right_def suffix_to_prefix)

lemma strip_right_barrier:
  "(\<And>r. r \<in> set runes \<Longrightarrow> c \<notin> set r) \<Longrightarrow> strip_right runes (a @ c # b) = a @ c # strip_right runes b"
  using rear.strip_left_append_barrier [of c "rev b" "rev a"] by (force simp: strip_right_def)

lemma strip_right_induct [case_names stop strip]:
  assumes stop: "\<And>s. (\<And>r. r \<in> set runes \<Longrightarrow> \<not> suffix r s) \<Longrightarrow> P s"
    and strip: "\<And>r s. r \<in> set runes \<Longrightarrow> P s \<Longrightarrow> P (s @ r)"
  shows "P s"
proof -
  have "P (rev t)" for t
  proof (induction t rule: rear.strip_induct)
    case (stop t)
    show ?case
      by (rule assms(1)) (use stop in \<open>force simp: suffix_to_prefix\<close>)
  next
    case (strip r t)
    then show ?case using assms(2) by auto
  qed
  from this [of "rev s"] show ?thesis by simp
qed

text \<open>A rune at the right end cannot complete a rune at the left end.\<close>

lemma no_straddle:
  assumes "z \<noteq> []" and e: "e \<in> set runes" and z: "\<And>r. r \<in> set runes \<Longrightarrow> \<not> prefix r z"
    and r: "r \<in> set runes"
  shows "\<not> prefix r (z @ e)"
proof
  assume "prefix r (z @ e)"
  with z [OF r] obtain e' where e': "r = z @ e'" "prefix e' e" by (auto simp: prefix_append)
  with z [OF r] nonempty [OF e] have "e' \<noteq> []" by auto
  with e' have "hd e' = hd e" by (auto simp: prefix_def)
  with e' \<open>e' \<noteq> []\<close> assms(1) have "hd e \<in> set (tl r)" by (cases z) (auto simp flip: \<open>hd e' = hd e\<close>)
  with heads [OF e r] show False by simp
qed

lemma trim_snoc:
  assumes e: "e \<in> set runes"
  shows "strip_right runes (strip_left runes (y @ e)) = strip_right runes (strip_left runes y)"
proof (induction y rule: strip_induct)
  case (stop y)
  show ?case
  proof (cases "y = []")
    case True
    with e strip_left_step [OF e, of "[]"] show ?thesis by simp
  next
    case False
    with stop e have "strip_left runes (y @ e) = y @ e"
      by (intro strip_left_stop no_straddle)
    with stop e show ?thesis by (simp add: strip_left_stop strip_right_step)
  qed
qed (simp add: strip_left_step)

lemma trim_strip_right:
  "strip_right runes (strip_left runes (strip_right runes s)) = strip_right runes (strip_left runes s)"
  by (induction s rule: strip_right_induct) (simp_all add: strip_right_stop strip_right_step trim_snoc)

end

text \<open>Go's white space satisfies the contract, so \<open>TrimSpace\<close> has these laws.\<close>

lemma space_runes_code:
  "\<forall>r \<in> set space_runes. r \<noteq> [] \<and> (\<forall>q \<in> set space_runes. (prefix r q \<longrightarrow> r = q) \<and> hd r \<notin> set (tl q))"
  by code_simp

interpretation space: rune_class space_runes
  using space_runes_code by unfold_locales blast+

text \<open>A byte that occurs in no encoding of a space: every printable ASCII byte, for one.\<close>

definition no_space_byte :: "char \<Rightarrow> bool" where
  "no_space_byte c = list_all (\<lambda>r. c \<notin> set r) space_runes"

lemma no_space_byteD: "no_space_byte c \<Longrightarrow> r \<in> set space_runes \<Longrightarrow> c \<notin> set r"
  by (auto simp: no_space_byte_def list_all_iff)

lemma TrimSpace_space: "TrimSpace (CHR '' '' # s) = TrimSpace s"
  using space.strip_left_step [of "'' ''" s] by (simp add: TrimSpace_def space_runes_def)

lemma TrimSpace_strip_right: "TrimSpace (strip_right space_runes s) = TrimSpace s"
  by (simp add: TrimSpace_def space.trim_strip_right)

lemma TrimSpace_idem [simp]: "TrimSpace (TrimSpace s) = TrimSpace s"
  using TrimSpace_strip_right [of "strip_left space_runes s"]
  by (simp add: TrimSpace_def space.strip_left_idem)

lemma TrimSpace_barriers:
  "no_space_byte c \<Longrightarrow> no_space_byte d \<Longrightarrow> TrimSpace (c # a @ d # b) = c # a @ d # strip_right space_runes b"
  using space.strip_left_barrier [of c "a @ d # b"] space.strip_right_barrier [of d "c # a" b]
  by (simp add: TrimSpace_def no_space_byteD)

end
