(* ===== verification/Ccerr.thy ===== *)
theory Ccerr
  imports Go_Prelude
begin

text \<open>
  Package \<open>ccerr\<close> (\<open>src/ccerr/ccerr.go\<close>): the coded errors a chaincode returns, their wire
  format and the parser the client uses. \<open>Code\<close> is a Go string type, so a code is a string
  and \<open>known\<close> the set of the six codes with a meaning. \<open>fmt.Sprintf\<close> on the caller's format
  and arguments is an argument of \<open>New_ccerr\<close>; everything else is translated. The main facts
  are the round trip of \<open>Parse\<close> with \<open>Error_ccerr\<close>, with and without the prefix a Gateway
  adds, and that \<open>Parse\<close> accepts nothing but messages with a known code.
\<close>

type_synonym Code = string

definition InvalidArgument :: Code where "InvalidArgument = ''INVALID_ARGUMENT''"
definition NotFound :: Code where "NotFound = ''NOT_FOUND''"
definition AlreadyExists :: Code where "AlreadyExists = ''ALREADY_EXISTS''"
definition Conflict :: Code where "Conflict = ''CONFLICT''"
definition Unauthorized :: Code where "Unauthorized = ''UNAUTHORIZED''"
definition FailedPrecondition :: Code where "FailedPrecondition = ''FAILED_PRECONDITION''"

lemmas Code_defs = InvalidArgument_def NotFound_def AlreadyExists_def Conflict_def
  Unauthorized_def FailedPrecondition_def

definition known :: "Code list" where
  "known = [InvalidArgument, NotFound, AlreadyExists, Conflict, Unauthorized, FailedPrecondition]"

record ccError =
  ccCode :: Code
  ccMessage :: string

definition Error_ccerr :: "ccError \<Rightarrow> string" where
  "Error_ccerr e = ccCode e @ '': '' @ ccMessage e"

definition New_ccerr :: "(string \<Rightarrow> 'a list \<Rightarrow> string) \<Rightarrow> Code \<Rightarrow> string \<Rightarrow> 'a list \<Rightarrow> ccError" where
  "New_ccerr Sprintf code format args = \<lparr>ccCode = code, ccMessage = Sprintf format args\<rparr>"

definition chaincode_response :: string where
  "chaincode_response = ''chaincode response ''"

definition Parse :: "string \<Rightarrow> Code \<times> string \<times> bool" where
  "Parse message =
     (let m = TrimSpace message;
          m = (if HasPrefix m chaincode_response
               then (case Index m '', '' of Some i \<Rightarrow> drop (i + 2) m | None \<Rightarrow> m)
               else m);
          (head, rest, found) = Cut m '':''
      in if \<not> found then ('''', message, False)
         else (let c = TrimSpace head
               in if c \<notin> set known then ('''', message, False)
                  else (c, TrimSpace rest, True)))"

section \<open>The codes on the wire\<close>

lemma known_cases:
  assumes "c \<in> set known"
  obtains "c = InvalidArgument" | "c = NotFound" | "c = AlreadyExists" | "c = Conflict"
    | "c = Unauthorized" | "c = FailedPrecondition"
  using assms by (auto simp: known_def)

text \<open>What the proofs need of a known code, checked by evaluation.\<close>

lemma known_shape:
  "\<forall>c \<in> set known. c \<noteq> [] \<and> no_space_byte (hd c) \<and> CHR '':'' \<notin> set c \<and> hd c \<noteq> CHR ''c'' \<and> TrimSpace c = c"
  by code_simp

lemma no_space_byte_colon: "no_space_byte (CHR '':'')"
  by code_simp

lemma Cut_rendered:
  assumes "c \<in> set known"
  shows "Cut (c @ CHR '':'' # rest) '':'' = (c, rest, True)"
  using Cut_first [of "'':''" c rest] known_shape assms by simp

lemma not_response: "c \<in> set known \<Longrightarrow> \<not> HasPrefix (c @ s) chaincode_response"
  using known_shape by (cases c) (auto simp: chaincode_response_def)

text \<open>Trimming a rendered error only trims the end of its message.\<close>

lemma TrimSpace_rendered:
  assumes c: "c \<in> set known"
  shows "TrimSpace (c @ CHR '':'' # s) = c @ CHR '':'' # strip_right space_runes s"
proof -
  from known_shape c obtain d ds where "c = d # ds" "no_space_byte d" by (cases c) auto
  then show ?thesis using TrimSpace_barriers [OF _ no_space_byte_colon, of d ds s] by simp
qed

text \<open>The part of a message that \<open>Parse\<close> looks for a code in.\<close>

definition parse_body :: "string \<Rightarrow> string" where
  "parse_body message =
     (let m = TrimSpace message
      in if HasPrefix m chaincode_response
         then (case Index m '', '' of Some i \<Rightarrow> drop (i + 2) m | None \<Rightarrow> m) else m)"

lemma Parse_body:
  "Parse message =
     (case Cut (parse_body message) '':'' of (head, rest, found) \<Rightarrow>
        if found \<and> TrimSpace head \<in> set known then (TrimSpace head, TrimSpace rest, True)
        else ('''', message, False))"
  by (auto simp: Parse_def parse_body_def Let_def split: prod.splits)

lemma Parse_of_body:
  assumes "c \<in> set known" and "parse_body m = c @ CHR '':'' # strip_right space_runes s"
  shows "Parse m = (c, TrimSpace s, True)"
  using assms known_shape by (simp add: Parse_body Cut_rendered TrimSpace_strip_right)

lemma parse_body_coded:
  "c \<in> set known \<Longrightarrow> parse_body (c @ CHR '':'' # s) = c @ CHR '':'' # strip_right space_runes s"
  by (simp add: parse_body_def TrimSpace_rendered not_response)

text \<open>The Gateway's \<open>chaincode response NNN, \<close> prefix is skipped up to its first comma.\<close>

lemma no_space_byte_c: "no_space_byte (CHR ''c'')"
  by code_simp

lemma Index_response:
  assumes "CHR '','' \<notin> set status"
  shows "Index (chaincode_response @ status @ '', '' @ t) '', '' = Some (length chaincode_response + length status)"
proof -
  from assms have "hd '', '' \<notin> set (chaincode_response @ status)" by (simp add: chaincode_response_def)
  from Index_first [OF _ this, of t] show ?thesis by simp
qed

lemma parse_body_response:
  assumes st: "CHR '','' \<notin> set status"
  shows "parse_body (chaincode_response @ status @ '', '' @ c @ CHR '':'' # s)
       = c @ CHR '':'' # strip_right space_runes s"
proof -
  let ?t = "c @ CHR '':'' # strip_right space_runes s"
  have trim: "TrimSpace (chaincode_response @ status @ '', '' @ c @ CHR '':'' # s)
      = chaincode_response @ status @ '', '' @ ?t"
    using TrimSpace_barriers [OF no_space_byte_c no_space_byte_colon,
        of "tl chaincode_response @ status @ '', '' @ c" s]
    by (simp add: chaincode_response_def)
  show ?thesis
    unfolding parse_body_def trim Let_def Index_response [OF st] by simp
qed

lemma drop_suffix: "suffix (drop n m) m"
  by (metis append_take_drop_id suffix_def)

lemma TrimSpace_sublist: "sublist (TrimSpace m) m"
proof -
  have "sublist (TrimSpace m) (strip_left space_runes m)"
    by (simp add: TrimSpace_def space.strip_right_prefix)
  moreover have "sublist (strip_left space_runes m) m"
    by (simp add: space.strip_left_suffix)
  ultimately show ?thesis by (rule sublist_order.order_trans)
qed

lemma parse_body_sublist: "sublist (parse_body message) message"
proof -
  have "suffix (parse_body message) (TrimSpace message)"
    by (auto simp: parse_body_def Let_def drop_suffix split: option.splits)
  with TrimSpace_sublist [of message] show ?thesis
    by (meson sublist_order.order_trans suffix_imp_sublist)
qed

section \<open>Properties\<close>

text \<open>
  C28: the wire format is read back. For each of the six codes, and any message, parsing what
  \<open>Error\<close> renders gives the code and the message without the white space around it.
\<close>

theorem Parse_Error_roundtrip:
  assumes "ccCode e \<in> set known"
  shows "Parse (Error_ccerr e) = (ccCode e, TrimSpace (ccMessage e), True)"
  using Parse_of_body [OF assms parse_body_coded [OF assms, of "'' '' @ ccMessage e"]]
  by (simp add: Error_ccerr_def TrimSpace_space)

theorem Parse_Error_roundtrip_witness:
  "Parse (Error_ccerr \<lparr>ccCode = NotFound, ccMessage = ''CH-1 is gone''\<rparr>) = (NotFound, ''CH-1 is gone'', True)"
proof -
  let ?e = "\<lparr>ccCode = NotFound, ccMessage = ''CH-1 is gone''\<rparr>"
  have "ccCode ?e \<in> set known" by (simp add: known_def)
  from Parse_Error_roundtrip [OF this] have "Parse (Error_ccerr ?e) = (NotFound, TrimSpace ''CH-1 is gone'', True)"
    by simp
  moreover have "TrimSpace ''CH-1 is gone'' = ''CH-1 is gone''" by code_simp
  ultimately show ?thesis by simp
qed

text \<open>
  The prefix \<open>chaincode response NNN, \<close> that a Gateway puts before a chaincode message
  does not hide the code, whatever status text stands in it, as long as that text has no comma.
\<close>

theorem Parse_response_roundtrip:
  assumes "ccCode e \<in> set known" and "CHR '','' \<notin> set status"
  shows "Parse (chaincode_response @ status @ '', '' @ Error_ccerr e)
       = (ccCode e, TrimSpace (ccMessage e), True)"
  using Parse_of_body [OF assms(1) parse_body_response [OF assms(2), of "ccCode e" "'' '' @ ccMessage e"]]
  by (simp add: Error_ccerr_def TrimSpace_space)

theorem Parse_response_roundtrip_witness:
  "Parse ''chaincode response 409, ALREADY_EXISTS: CH-1'' = (AlreadyExists, ''CH-1'', True)"
proof -
  let ?e = "\<lparr>ccCode = AlreadyExists, ccMessage = ''CH-1''\<rparr>"
  have "ccCode ?e \<in> set known" by (simp add: known_def)
  from Parse_response_roundtrip [OF this, of "''409''"]
  have "Parse (chaincode_response @ ''409'' @ '', '' @ Error_ccerr ?e) = (AlreadyExists, TrimSpace ''CH-1'', True)"
    by simp
  moreover have "TrimSpace ''CH-1'' = ''CH-1''" by code_simp
  ultimately show ?thesis
    by (simp add: chaincode_response_def Error_ccerr_def AlreadyExists_def)
qed

text \<open>
  \<open>Parse\<close> accepts only messages that hold a known code before a colon: what it accepts is
  a part of the message with a known code, up to white space, before its first colon, and the
  text it returns is trimmed; what it does not accept it returns unchanged with the empty code.
\<close>

theorem Parse_sound:
  "case Parse message of (code, text, ok) \<Rightarrow>
     (if ok then code \<in> set known \<and> TrimSpace text = text \<and>
        (\<exists>head rest. sublist (head @ '':'' @ rest) message \<and>
           CHR '':'' \<notin> set head \<and> TrimSpace head = code \<and> TrimSpace rest = text)
      else code = '''' \<and> text = message)"
proof (cases "Cut (parse_body message) '':''")
  case (fields head rest found)
  show ?thesis
  proof (cases "found \<and> TrimSpace head \<in> set known")
    case True
    with fields have "parse_body message = head @ '':'' @ rest" by (auto dest: Cut_join)
    with parse_body_sublist [of message] have "sublist (head @ '':'' @ rest) message" by simp
    moreover from True fields have "CHR '':'' \<notin> set head" by (auto dest: Cut_char_head)
    ultimately show ?thesis using True fields by (auto simp: Parse_body)
  next
    case False
    with fields show ?thesis by (auto simp: Parse_body)
  qed
qed

end
