(* ===== verification/Errors.thy ===== *)
theory Errors
  imports Ccerr
begin

text \<open>
  The typed error model of \<open>src/errors.go\<close>: the kinds of errors, the structure \<open>Error\<close>, the
  tree of wrapped errors that \<open>errors.As\<close> and \<open>errors.Is\<close> search, the predicates callers use,
  and \<open>classify\<close>, which turns an error of the Gateway client into an \<open>Error\<close> for the phase
  of a call it occurred in.

  Not under \<open>src/\<close>, and arguments here (record \<open>lib\<close>): \<open>status.Convert\<close> of gRPC and the name
  table of \<open>peer.TxValidationCode\<close>.
\<close>

section \<open>Data\<close>

datatype Kind =
  KindInvalidArgument | KindNotFound | KindAlreadyExists | KindConflict | KindUnauthorized
| KindFailedPrecondition | KindChaincode
| KindEndorsement | KindSubmit | KindCommitFailed | KindOutcomeUnknown | KindTimeout
| KindUnavailable | KindCanceled | KindConfig | KindInternal
| KindNone \<comment> \<open>the zero value, the empty string\<close>

fun Kind_string :: "Kind \<Rightarrow> string" where
  "Kind_string KindInvalidArgument = ''invalid_argument''"
| "Kind_string KindNotFound = ''not_found''"
| "Kind_string KindAlreadyExists = ''already_exists''"
| "Kind_string KindConflict = ''conflict''"
| "Kind_string KindUnauthorized = ''unauthorized''"
| "Kind_string KindFailedPrecondition = ''failed_precondition''"
| "Kind_string KindChaincode = ''chaincode''"
| "Kind_string KindEndorsement = ''endorsement''"
| "Kind_string KindSubmit = ''submit''"
| "Kind_string KindCommitFailed = ''commit_failed''"
| "Kind_string KindOutcomeUnknown = ''outcome_unknown''"
| "Kind_string KindTimeout = ''timeout''"
| "Kind_string KindUnavailable = ''unavailable''"
| "Kind_string KindCanceled = ''canceled''"
| "Kind_string KindConfig = ''config''"
| "Kind_string KindInternal = ''internal''"
| "Kind_string KindNone = ''''"

datatype ErrorSource = SourceSDK | SourceChaincode | SourceNetwork

text \<open>gRPC status codes; \<open>codes_Other\<close> stands for the numbers without a name.\<close>

datatype codes =
  codes_OK | codes_Canceled | codes_Unknown | codes_InvalidArgument | codes_DeadlineExceeded
| codes_NotFound | codes_AlreadyExists | codes_PermissionDenied | codes_ResourceExhausted
| codes_FailedPrecondition | codes_Aborted | codes_OutOfRange | codes_Unimplemented
| codes_Internal | codes_Unavailable | codes_DataLoss | codes_Unauthenticated
| codes_Other "32 word"

text \<open>\<open>peer.TxValidationCode\<close> is an int32; the sources name three of its values.\<close>

type_synonym TxValidationCode = "32 word"

definition TxValidationCode_VALID :: TxValidationCode where "TxValidationCode_VALID = 0"
definition TxValidationCode_MVCC_READ_CONFLICT :: TxValidationCode where
  "TxValidationCode_MVCC_READ_CONFLICT = 11"
definition TxValidationCode_PHANTOM_READ_CONFLICT :: TxValidationCode where
  "TxValidationCode_PHANTOM_READ_CONFLICT = 12"

lemmas TxValidationCode_defs = TxValidationCode_VALID_def TxValidationCode_MVCC_READ_CONFLICT_def
  TxValidationCode_PHANTOM_READ_CONFLICT_def

record ErrorDetail =
  dAddress :: string
  dMSPID :: string
  dMessage :: string

text \<open>A gRPC status; each detail is a \<open>gateway.ErrorDetail\<close> or a value of another type.\<close>

datatype any_detail = GatewayDetail ErrorDetail | OtherDetail

record Status =
  stCode :: codes
  stMessage :: string
  stDetails :: "any_detail list"

text \<open>The structure \<open>Error\<close>; its field \<open>Cause\<close> is the second argument of \<open>SDKError\<close> below.\<close>

record Error =
  eKind :: Kind
  eSource :: ErrorSource
  eCode :: int
  eMessage :: string
  eTxID :: string
  eValidationCode :: TxValidationCode
  eGRPCCode :: codes
  eDetails :: "ErrorDetail list"
  eOutcomeUnknown :: bool

text \<open>
  Go error values by dynamic type, with what they wrap: \<open>*Error\<close> and \<open>handlerError\<close> of this
  package, \<open>*ccerr.Error\<close>, \<open>*client.CommitError\<close> (transaction ID, code, text), the sentinels,
  \<open>errors.New\<close>, \<open>fmt.Errorf\<close> with one \<open>%w\<close>, \<open>errors.Join\<close>, and any other type: the status its
  \<open>GRPCStatus\<close> method returns if it has one, its text and what it unwraps to.
\<close>

datatype err =
  SDKError Error "err option"
| HandlerError err
| CcError ccError
| CommitError string TxValidationCode string
| ContextCanceled
| ContextDeadlineExceeded
| ErrStreamClosed
| ErrorString string
| WrapError string err
| JoinError "err list"
| ForeignError "Status option" string "err list"

record lib =
  status_Convert :: "err \<Rightarrow> Status"
  TxValidationCode_name :: "TxValidationCode \<Rightarrow> string"

section \<open>Error values\<close>

definition Error_Error :: "Error \<Rightarrow> string" where
  "Error_Error e =
     ''fabricsdk: '' @ Kind_string (eKind e)
     @ (if eTxID e \<noteq> '''' then '' (tx '' @ eTxID e @ '')'' else '''')
     @ (if eMessage e \<noteq> '''' then '': '' @ eMessage e else '''')"

definition ErrStreamClosed_text :: string where
  "ErrStreamClosed_text = ''event stream closed by the gateway''"

text \<open>The method \<open>Error\<close> of an error value.\<close>

fun err_text :: "err \<Rightarrow> string" where
  "err_text (SDKError e c) = Error_Error e"
| "err_text (HandlerError e) = err_text e"
| "err_text (CcError e) = Error_ccerr e"
| "err_text (CommitError t v m) = m"
| "err_text ContextCanceled = ''context canceled''"
| "err_text ContextDeadlineExceeded = ''context deadline exceeded''"
| "err_text ErrStreamClosed = ErrStreamClosed_text"
| "err_text (ErrorString m) = m"
| "err_text (WrapError m e) = m"
| "err_text (JoinError es) = Join (map err_text es) [CHR 0x0A]"
| "err_text (ForeignError st m es) = m"

text \<open>
  An error and everything it wraps, in the order \<open>errors.As\<close> and \<open>errors.Is\<close> visit it.
  \<open>handlerError\<close> has no method \<open>Unwrap\<close>.
\<close>

fun err_tree :: "err \<Rightarrow> err list" where
  "err_tree (SDKError e c) = SDKError e c # (case c of None \<Rightarrow> [] | Some x \<Rightarrow> err_tree x)"
| "err_tree (WrapError m e) = WrapError m e # err_tree e"
| "err_tree (JoinError es) = JoinError es # concat (map err_tree es)"
| "err_tree (ForeignError st m es) = ForeignError st m es # concat (map err_tree es)"
| "err_tree e = [e]"

text \<open>\<open>errors.As\<close> into a type given by its partial view, and \<open>errors.Is\<close>; \<open>None\<close> is nil.\<close>

fun first_view :: "('a \<Rightarrow> 'b option) \<Rightarrow> 'a list \<Rightarrow> 'b option" where
  "first_view v [] = None"
| "first_view v (x # xs) = (case v x of None \<Rightarrow> first_view v xs | Some y \<Rightarrow> Some y)"

definition errors_As :: "(err \<Rightarrow> 'b option) \<Rightarrow> err option \<Rightarrow> 'b option" where
  "errors_As v e = (case e of None \<Rightarrow> None | Some x \<Rightarrow> first_view v (err_tree x))"

definition errors_Is :: "err option \<Rightarrow> err \<Rightarrow> bool" where
  "errors_Is e target = (case e of None \<Rightarrow> False | Some x \<Rightarrow> target \<in> set (err_tree x))"

fun as_SDKError :: "err \<Rightarrow> (Error \<times> err option) option" where
  "as_SDKError (SDKError e c) = Some (e, c)"
| "as_SDKError _ = None"

fun as_CommitError :: "err \<Rightarrow> (string \<times> TxValidationCode) option" where
  "as_CommitError (CommitError t v m) = Some (t, v)"
| "as_CommitError _ = None"

fun as_ccError :: "err \<Rightarrow> ccError option" where
  "as_ccError (CcError e) = Some e"
| "as_ccError _ = None"

fun as_HandlerError :: "err \<Rightarrow> err option" where
  "as_HandlerError (HandlerError e) = Some e"
| "as_HandlerError _ = None"

definition Is_ccerr :: "err option \<Rightarrow> Code \<Rightarrow> bool" where
  "Is_ccerr e code = (case errors_As as_ccError e of None \<Rightarrow> False | Some c \<Rightarrow> ccCode c = code)"

section \<open>What callers ask of an error\<close>

definition Retryable :: "Error \<Rightarrow> bool" where
  "Retryable e =
     (if eOutcomeUnknown e then False
      else eKind e \<in> {KindConflict, KindUnavailable, KindTimeout, KindEndorsement, KindSubmit})"

definition asError :: "err option \<Rightarrow> (Error \<times> err option) option" where
  "asError e = errors_As as_SDKError e"

definition KindOf :: "err option \<Rightarrow> Kind" where
  "KindOf e = (case asError e of Some (x, _) \<Rightarrow> eKind x | None \<Rightarrow> KindNone)"

definition TxIDOf :: "err option \<Rightarrow> string" where
  "TxIDOf e = (case asError e of Some (x, _) \<Rightarrow> eTxID x | None \<Rightarrow> '''')"

definition isKind :: "err option \<Rightarrow> Kind \<Rightarrow> bool" where
  "isKind e k = (KindOf e = k)"

definition IsNotFound :: "err option \<Rightarrow> bool" where "IsNotFound e = isKind e KindNotFound"
definition IsAlreadyExists :: "err option \<Rightarrow> bool" where "IsAlreadyExists e = isKind e KindAlreadyExists"
definition IsConflict :: "err option \<Rightarrow> bool" where "IsConflict e = isKind e KindConflict"
definition IsUnauthorized :: "err option \<Rightarrow> bool" where "IsUnauthorized e = isKind e KindUnauthorized"
definition IsInvalidArgument :: "err option \<Rightarrow> bool" where "IsInvalidArgument e = isKind e KindInvalidArgument"
definition IsTimeout :: "err option \<Rightarrow> bool" where "IsTimeout e = isKind e KindTimeout"

definition IsOutcomeUnknown :: "err option \<Rightarrow> bool" where
  "IsOutcomeUnknown e = (case asError e of Some (x, _) \<Rightarrow> eOutcomeUnknown x | None \<Rightarrow> False)"

definition IsRetryable :: "err option \<Rightarrow> bool" where
  "IsRetryable e = (case asError e of Some (x, _) \<Rightarrow> Retryable x | None \<Rightarrow> False)"

definition IsChaincode :: "err option \<Rightarrow> bool" where
  "IsChaincode e = (case asError e of Some (x, _) \<Rightarrow> eSource x = SourceChaincode | None \<Rightarrow> False)"

lemmas predicate_defs = IsNotFound_def IsAlreadyExists_def IsConflict_def IsUnauthorized_def
  IsInvalidArgument_def IsTimeout_def isKind_def

section \<open>Classification\<close>

datatype phase = phaseEvaluate | phaseEndorse | phaseSubmit | phaseCommitStatus

fun kindCode :: "Kind \<Rightarrow> int" where
  "kindCode KindInvalidArgument = 400"
| "kindCode KindNotFound = 404"
| "kindCode KindAlreadyExists = 409"
| "kindCode KindConflict = 409"
| "kindCode KindUnauthorized = 403"
| "kindCode KindFailedPrecondition = 422"
| "kindCode KindChaincode = 400"
| "kindCode KindEndorsement = 502"
| "kindCode KindSubmit = 502"
| "kindCode KindCommitFailed = 500"
| "kindCode KindOutcomeUnknown = 504"
| "kindCode KindTimeout = 504"
| "kindCode KindUnavailable = 503"
| "kindCode KindCanceled = 499"
| "kindCode KindConfig = 500"
| "kindCode KindInternal = 500"
| "kindCode KindNone = 0"

definition ccKind :: "Code \<Rightarrow> Kind" where
  "ccKind c =
     (if c = InvalidArgument then KindInvalidArgument
      else if c = NotFound then KindNotFound
      else if c = AlreadyExists then KindAlreadyExists
      else if c = Conflict then KindConflict
      else if c = Unauthorized then KindUnauthorized
      else if c = FailedPrecondition then KindFailedPrecondition
      else KindNone)"

definition peerSidePhrases :: "string list" where
  "peerSidePhrases =
     [''make sure the chaincode'', ''error in simulation'', ''could not launch chaincode'',
      ''failed to execute transaction'', ''transaction returned with failure'',
      ''channel '' @ [CHR 0x27], ''has not been initialized'', ''does not require initialization'',
      ''is already initialized'', ''access denied'', ''chaincode definition'']"

definition legacyKind :: "string \<Rightarrow> Kind" where
  "legacyKind msg =
     (let m = ToLower msg
      in if list_ex (\<lambda>p. Contains m p) peerSidePhrases then KindNone
         else if Contains m ''version conflict'' then KindConflict
         else if Contains m ''already exists'' then KindAlreadyExists
         else if Contains m ''not found'' \<or> Contains m ''does not exist'' then KindNotFound
         else if Contains m ''unauthorized'' \<or> Contains m ''forbidden'' \<or> Contains m ''permission denied''
           then KindUnauthorized
         else KindNone)"

definition newError :: "Kind \<Rightarrow> ErrorSource \<Rightarrow> string \<Rightarrow> Error" where
  "newError kind source msg =
     \<lparr>eKind = kind, eSource = source, eCode = kindCode kind, eMessage = msg, eTxID = '''',
      eValidationCode = 0, eGRPCCode = codes_OK, eDetails = [], eOutcomeUnknown = False\<rparr>"

fun gatewayDetails_loop :: "any_detail list \<Rightarrow> ErrorDetail list" where
  "gatewayDetails_loop [] = []"
| "gatewayDetails_loop (GatewayDetail gd # ds) = gd # gatewayDetails_loop ds"
| "gatewayDetails_loop (OtherDetail # ds) = gatewayDetails_loop ds"

definition gatewayDetails :: "Status \<Rightarrow> ErrorDetail list" where
  "gatewayDetails st = gatewayDetails_loop (stDetails st)"

definition status_New :: "codes \<Rightarrow> string \<Rightarrow> Status" where
  "status_New c m = \<lparr>stCode = c, stMessage = m, stDetails = []\<rparr>"

fun kindFromCode :: "codes \<Rightarrow> phase \<Rightarrow> Kind" where
  "kindFromCode codes_InvalidArgument ph = KindInvalidArgument"
| "kindFromCode codes_PermissionDenied ph = KindUnauthorized"
| "kindFromCode codes_Unauthenticated ph = KindUnauthorized"
| "kindFromCode codes_NotFound ph = KindNotFound"
| "kindFromCode codes_DeadlineExceeded ph = KindTimeout"
| "kindFromCode codes_Canceled ph = KindCanceled"
| "kindFromCode codes_Unavailable ph = KindUnavailable"
| "kindFromCode codes_FailedPrecondition ph = KindFailedPrecondition"
| "kindFromCode codes_Aborted ph =
     (if ph = phaseEndorse \<or> ph = phaseEvaluate then KindEndorsement else KindInternal)"
| "kindFromCode codes_Unknown ph =
     (if ph = phaseEndorse \<or> ph = phaseEvaluate then KindEndorsement else KindInternal)"
| "kindFromCode _ ph = KindInternal"

definition evaluate_prefix :: string where
  "evaluate_prefix = ''evaluate call to endorser returned error: ''"

definition candidates :: "Status \<Rightarrow> ErrorDetail list \<Rightarrow> string list" where
  "candidates st details =
     map dMessage details
     @ (if stMessage st \<noteq> '''' then [TrimPrefix (stMessage st) evaluate_prefix] else [])"

text \<open>The three loops of \<open>chaincodeError\<close>, in order.\<close>

fun parse_candidates :: "string list \<Rightarrow> Error option" where
  "parse_candidates [] = None"
| "parse_candidates (m # ms) =
     (case Parse m of (code, text, ok) \<Rightarrow>
        if ok then Some (newError (ccKind code) SourceChaincode text) else parse_candidates ms)"

fun response_candidates :: "bool \<Rightarrow> string list \<Rightarrow> Error option" where
  "response_candidates strict [] = None"
| "response_candidates strict (m # ms) =
     (if HasPrefix m chaincode_response
      then (case Cut m '', '' of (_, text, _) \<Rightarrow>
              if \<not> strict \<and> legacyKind text \<noteq> KindNone
              then Some (newError (legacyKind text) SourceChaincode text)
              else Some (newError KindChaincode SourceChaincode text))
      else response_candidates strict ms)"

fun legacy_details :: "ErrorDetail list \<Rightarrow> Error option" where
  "legacy_details [] = None"
| "legacy_details (d # ds) =
     (if legacyKind (dMessage d) \<noteq> KindNone
      then Some (newError (legacyKind (dMessage d)) SourceChaincode (dMessage d))
      else legacy_details ds)"

definition chaincodeError :: "Status \<Rightarrow> ErrorDetail list \<Rightarrow> bool \<Rightarrow> Error option" where
  "chaincodeError st details strict =
     (if stCode st \<noteq> codes_Aborted \<and> stCode st \<noteq> codes_Unknown then None
      else (let cs = candidates st details
            in case parse_candidates cs of
                 Some e \<Rightarrow> Some e
               | None \<Rightarrow>
                   (case response_candidates strict cs of
                      Some e \<Rightarrow> Some e
                    | None \<Rightarrow> if strict \<or> details = [] then None else legacy_details details)))"

definition commitFailure :: "lib \<Rightarrow> string \<Rightarrow> TxValidationCode \<Rightarrow> err option \<Rightarrow> err" where
  "commitFailure L txID vc cause =
     (let name = TxValidationCode_name L vc;
          e = (if vc = TxValidationCode_MVCC_READ_CONFLICT \<or> vc = TxValidationCode_PHANTOM_READ_CONFLICT
               then newError KindConflict SourceNetwork
                      (''transaction invalidated at commit by '' @ name @ ''; re-read and retry'')
               else newError KindCommitFailed SourceNetwork
                      (''transaction committed as invalid: '' @ name @ '' ('' @ show_int (sint vc) @ '')''))
      in SDKError (e\<lparr>eTxID := txID, eValidationCode := vc\<rparr>) cause)"

text \<open>The status \<open>classify\<close> works on: context errors raised before any RPC get their code.\<close>

definition status_of :: "lib \<Rightarrow> err \<Rightarrow> Status" where
  "status_of L err =
     (let st = status_Convert L err
      in if errors_Is (Some err) ContextCanceled \<and> stCode st = codes_Unknown
         then status_New codes_Canceled (err_text err)
         else if errors_Is (Some err) ContextDeadlineExceeded \<and> stCode st = codes_Unknown
         then status_New codes_DeadlineExceeded (err_text err)
         else st)"

definition network_error :: "Status \<Rightarrow> phase \<Rightarrow> Error" where
  "network_error st ph =
     (case ph of
        phaseCommitStatus \<Rightarrow>
          (newError KindOutcomeUnknown SourceNetwork (''could not confirm commit status: '' @ stMessage st))
            \<lparr>eOutcomeUnknown := True\<rparr>
      | phaseSubmit \<Rightarrow>
          (if stCode st \<in> {codes_InvalidArgument, codes_FailedPrecondition, codes_Aborted}
           then newError KindSubmit SourceNetwork (stMessage st)
           else (newError KindOutcomeUnknown SourceNetwork
                   (''submit to orderer did not complete: '' @ stMessage st))\<lparr>eOutcomeUnknown := True\<rparr>)
      | _ \<Rightarrow> newError (kindFromCode (stCode st) ph) SourceNetwork (stMessage st))"

definition classify :: "lib \<Rightarrow> err option \<Rightarrow> string \<Rightarrow> phase \<Rightarrow> bool \<Rightarrow> err option" where
  "classify L err txID ph strict =
     (case err of
        None \<Rightarrow> None
      | Some er \<Rightarrow>
          (case asError err of
             Some (e, c) \<Rightarrow> Some (SDKError e c)
           | None \<Rightarrow>
               (case errors_As as_CommitError err of
                  Some (t, v) \<Rightarrow> Some (commitFailure L t v (Some er))
                | None \<Rightarrow>
                    (let st = status_of L er;
                         details = gatewayDetails st;
                         e = (case (if ph = phaseEvaluate \<or> ph = phaseEndorse
                                    then chaincodeError st details strict else None) of
                                Some e \<Rightarrow> e
                              | None \<Rightarrow> network_error st ph)
                     in Some (SDKError (e\<lparr>eTxID := txID, eGRPCCode := stCode st, eDetails := details\<rparr>)
                                (Some er))))))"

section \<open>The error tree\<close>

lemma first_view_None: "first_view v xs = None \<longleftrightarrow> (\<forall>x \<in> set xs. v x = None)"
  by (induction xs) (auto split: option.splits)

lemma asError_simps [simp, err_simps]:
  "asError None = None"
  "asError (Some (SDKError e c)) = Some (e, c)"
  "asError (Some (WrapError m x)) = asError (Some x)"
  "asError (Some (ErrorString m)) = None"
  "asError (Some (HandlerError x)) = None"
  "asError (Some ContextCanceled) = None"
  "asError (Some ContextDeadlineExceeded) = None"
  "asError (Some ErrStreamClosed) = None"
  "asError (Some (CommitError t v m)) = None"
  "asError (Some (ForeignError st m [])) = None"
  by (simp_all add: asError_def errors_As_def)

text \<open>
  An error of the Gateway client that carries neither an \<open>*Error\<close> nor a \<open>*client.CommitError\<close>.
\<close>

definition opaque :: "err \<Rightarrow> bool" where
  "opaque x = (asError (Some x) = None \<and> errors_As as_CommitError (Some x) = None)"

lemma opaque_ForeignError [simp]: "opaque (ForeignError st m [])"
  by (simp add: opaque_def errors_As_def)

lemma opaque_no_SDKError: "opaque x \<Longrightarrow> SDKError e c \<notin> set (err_tree x)"
  by (auto simp: opaque_def asError_def errors_As_def first_view_None)

lemma IsOutcomeUnknown_simp [simp, err_simps]: "IsOutcomeUnknown (Some (SDKError e c)) = eOutcomeUnknown e"
  by (simp add: IsOutcomeUnknown_def)

lemma IsRetryable_simp [simp, err_simps]: "IsRetryable (Some (SDKError e c)) = Retryable e"
  by (simp add: IsRetryable_def)

lemma KindOf_simp [simp, err_simps]: "KindOf (Some (SDKError e c)) = eKind e"
  by (simp add: KindOf_def)

lemma TxIDOf_simp [simp, err_simps]: "TxIDOf (Some (SDKError e c)) = eTxID e"
  by (simp add: TxIDOf_def)

lemma IsChaincode_simp [simp, err_simps]: "IsChaincode (Some (SDKError e c)) = (eSource e = SourceChaincode)"
  by (simp add: IsChaincode_def)

lemma newError_simps [simp, err_simps]:
  "eKind (newError k s m) = k" "eSource (newError k s m) = s" "eCode (newError k s m) = kindCode k"
  "eMessage (newError k s m) = m" "eTxID (newError k s m) = ''''"
  "eOutcomeUnknown (newError k s m) = False" "eDetails (newError k s m) = []"
  "eValidationCode (newError k s m) = 0" "eGRPCCode (newError k s m) = codes_OK"
  by (simp_all add: newError_def)

section \<open>Phases in the order of a call\<close>

fun phase_num :: "phase \<Rightarrow> nat" where
  "phase_num phaseEvaluate = 0"
| "phase_num phaseEndorse = 1"
| "phase_num phaseSubmit = 2"
| "phase_num phaseCommitStatus = 3"

lemma phase_num_inj: "phase_num p = phase_num q \<Longrightarrow> p = q"
  by (cases p; cases q) auto

instantiation phase :: linorder
begin

definition less_eq_phase :: "phase \<Rightarrow> phase \<Rightarrow> bool" where
  "less_eq_phase p q = (phase_num p \<le> phase_num q)"

definition less_phase :: "phase \<Rightarrow> phase \<Rightarrow> bool" where
  "less_phase p q = (phase_num p < phase_num q)"

instance
  by standard (auto simp: less_eq_phase_def less_phase_def intro: phase_num_inj)

end

lemma phase_before_submit: "ph < phaseSubmit \<longleftrightarrow> ph = phaseEvaluate \<or> ph = phaseEndorse"
  by (cases ph) (auto simp: less_phase_def)

section \<open>What classify builds\<close>

definition rejected_before_ordering :: "codes \<Rightarrow> bool" where
  "rejected_before_ordering c = (c \<in> {codes_InvalidArgument, codes_FailedPrecondition, codes_Aborted})"

definition classified :: "lib \<Rightarrow> err \<Rightarrow> phase \<Rightarrow> bool \<Rightarrow> Error" where
  "classified L er ph strict =
     (let st = status_of L er
      in case (if ph < phaseSubmit then chaincodeError st (gatewayDetails st) strict else None) of
           Some e \<Rightarrow> e | None \<Rightarrow> network_error st ph)"

lemma classify_opaque:
  "opaque er \<Longrightarrow> classify L (Some er) txID ph strict =
     Some (SDKError ((classified L er ph strict)\<lparr>eTxID := txID, eGRPCCode := stCode (status_of L er),
        eDetails := gatewayDetails (status_of L er)\<rparr>) (Some er))"
  by (simp add: classify_def opaque_def classified_def Let_def phase_before_submit disj_commute)

lemma classify_typed: "asError (Some er) = Some (e, c) \<Longrightarrow> classify L (Some er) t ph s = Some (SDKError e c)"
  by (simp add: classify_def)

lemma classify_commit:
  "asError (Some er) = None \<Longrightarrow> errors_As as_CommitError (Some er) = Some (t', v) \<Longrightarrow>
   classify L (Some er) t ph s = Some (commitFailure L t' v (Some er))"
  by (simp add: classify_def)

lemma classify_None [simp]: "classify L None t ph s = None"
  by (simp add: classify_def)

lemma commitFailure_SDKError: "\<exists>e. commitFailure L t v c = SDKError e c"
  by (simp add: commitFailure_def Let_def)

lemma classify_is_typed: "\<exists>e c. classify L (Some er) t ph s = Some (SDKError e c)"
proof (cases "asError (Some er)")
  case None
  show ?thesis
  proof (cases "errors_As as_CommitError (Some er)")
    case None
    with \<open>asError (Some er) = None\<close> have "opaque er" by (simp add: opaque_def)
    then show ?thesis by (simp add: classify_opaque)
  next
    case (Some tv)
    with \<open>asError (Some er) = None\<close> show ?thesis
      using commitFailure_SDKError by (cases tv) (fastforce simp: classify_commit)
  qed
qed (auto simp: classify_typed)

text \<open>What the three searches for a chaincode message can return.\<close>

lemma parse_candidates_SomeD:
  "parse_candidates ms = Some e \<Longrightarrow>
   \<exists>m \<in> set ms. \<exists>code text. Parse m = (code, text, True) \<and> e = newError (ccKind code) SourceChaincode text"
  by (induction ms) (auto split: if_splits prod.splits)

lemma response_candidates_SomeD:
  "response_candidates strict ms = Some e \<Longrightarrow>
   \<exists>m \<in> set ms. HasPrefix m chaincode_response \<and>
     (\<exists>k text. e = newError k SourceChaincode text \<and>
        (k = KindChaincode \<or> \<not> strict \<and> k = legacyKind text \<and> k \<noteq> KindNone))"
  by (induction ms) (auto split: if_splits prod.splits)

lemma legacy_details_SomeD:
  "legacy_details ds = Some e \<Longrightarrow>
   \<exists>d \<in> set ds. e = newError (legacyKind (dMessage d)) SourceChaincode (dMessage d) \<and>
     legacyKind (dMessage d) \<noteq> KindNone"
  by (induction ds) (auto split: if_splits)

lemma chaincodeError_SomeD:
  assumes "chaincodeError st details strict = Some e"
  shows "stCode st \<in> {codes_Aborted, codes_Unknown} \<and>
    (\<exists>k text. e = newError k SourceChaincode text)"
  using assms
  by (auto simp: chaincodeError_def Let_def split: if_splits option.splits
      dest!: parse_candidates_SomeD response_candidates_SomeD legacy_details_SomeD)

lemma network_error_fields:
  "eSource (network_error st ph) = SourceNetwork"
  "eCode (network_error st ph) = kindCode (eKind (network_error st ph))"
  "eOutcomeUnknown (network_error st ph) \<longleftrightarrow>
     ph = phaseCommitStatus \<or> ph = phaseSubmit \<and> \<not> rejected_before_ordering (stCode st)"
  by (auto simp: network_error_def rejected_before_ordering_def split: phase.splits)

lemma classified_cases:
  obtains (chaincode) k msg where "ph < phaseSubmit" "stCode (status_of L er) \<in> {codes_Aborted, codes_Unknown}"
      "classified L er ph strict = newError k SourceChaincode msg"
  | (network) "classified L er ph strict = network_error (status_of L er) ph"
  by (cases "if ph < phaseSubmit then chaincodeError (status_of L er) (gatewayDetails (status_of L er)) strict else None")
    (auto simp: classified_def Let_def split: if_splits dest!: chaincodeError_SomeD)

lemma classified_outcome:
  "eOutcomeUnknown (classified L er ph strict) \<longleftrightarrow>
     ph = phaseCommitStatus \<or> ph = phaseSubmit \<and> \<not> rejected_before_ordering (stCode (status_of L er))"
  by (cases rule: classified_cases [of ph L er strict])
    (auto simp: network_error_fields phase_before_submit)

section \<open>The contract of a classifier\<close>

text \<open>
  What the calls that classify an error rely on: a nil error stays nil, anything else becomes
  an \<open>*Error\<close>, an \<open>*Error\<close> already there is kept, and for an error of the Gateway client the
  result carries the transaction ID and says when the outcome is open.
\<close>

locale phase_classifier =
  fixes cl :: "err option \<Rightarrow> string \<Rightarrow> phase \<Rightarrow> bool \<Rightarrow> err option"
  assumes nil: "cl None t ph s = None"
    and typed: "\<exists>e c. cl (Some er) t ph s = Some (SDKError e c)"
    and keeps: "asError (Some er) = Some (e, c) \<Longrightarrow> cl (Some er) t ph s = Some (SDKError e c)"
    and txid: "opaque er \<Longrightarrow> TxIDOf (cl (Some er) t ph s) = t"
    and open_at_commit: "opaque er \<Longrightarrow> IsOutcomeUnknown (cl (Some er) t phaseCommitStatus s)"
    and closed_before_submit: "opaque er \<Longrightarrow> ph < phaseSubmit \<Longrightarrow> \<not> IsOutcomeUnknown (cl (Some er) t ph s)"
begin

lemma nil_iff: "cl e t ph s = None \<longleftrightarrow> e = None"
  using nil typed by (cases e) (auto, metis option.distinct(1))

lemma idem: "cl (cl e t ph s) t' ph' s' = cl e t ph s"
proof (cases e)
  case (Some er)
  from typed [of er t ph s] obtain x c where x: "cl (Some er) t ph s = Some (SDKError x c)" by blast
  with Some keeps [of "SDKError x c" x c] show ?thesis by simp
qed (simp add: nil)

lemma has_kind: "e \<noteq> None \<Longrightarrow> asError (cl e t ph s) \<noteq> None"
  using typed by (cases e) (auto, metis asError_simps(2) option.distinct(1))

lemma retry_or_reconcile: "IsRetryable (cl e t ph s) \<Longrightarrow> \<not> IsOutcomeUnknown (cl e t ph s)"
  by (auto simp: IsRetryable_def IsOutcomeUnknown_def Retryable_def split: option.splits prod.splits if_splits)

lemma no_retry_after_submit: "opaque er \<Longrightarrow> \<not> IsRetryable (cl (Some er) t phaseCommitStatus s)"
  using retry_or_reconcile open_at_commit by blast

end

interpretation cls: phase_classifier "classify L" for L
proof unfold_locales
  show "\<exists>e c. classify L (Some er) t ph s = Some (SDKError e c)" for er t ph s
    by (rule classify_is_typed)
qed (auto simp: classify_typed classify_opaque classified_outcome phase_before_submit)

text \<open>
  Documented behaviour of \<open>status.Convert\<close>, for concrete inputs: the status of the value itself
  if it has one, else that of the first value it wraps that has one, with the text of the whole
  error, else \<open>Unknown\<close> with that text.
\<close>

fun own_status :: "err \<Rightarrow> Status option" where
  "own_status (ForeignError st m es) = st"
| "own_status _ = None"

definition documented_Convert :: "err \<Rightarrow> Status" where
  "documented_Convert x =
     (case own_status x of
        Some st \<Rightarrow> st
      | None \<Rightarrow> (case first_view own_status (err_tree x) of
                   Some st \<Rightarrow> st\<lparr>stMessage := err_text x\<rparr>
                 | None \<Rightarrow> status_New codes_Unknown (err_text x)))"

definition documented_lib :: lib where
  "documented_lib = \<lparr>status_Convert = documented_Convert, TxValidationCode_name = (\<lambda>v. ''CODE'')\<rparr>"

definition gateway_error :: "codes \<Rightarrow> string \<Rightarrow> string list \<Rightarrow> err" where
  "gateway_error c m ds =
     ForeignError (Some \<lparr>stCode = c, stMessage = m,
       stDetails = map (\<lambda>d. GatewayDetail \<lparr>dAddress = ''peer0:7051'', dMSPID = ''Org1MSP'', dMessage = d\<rparr>) ds\<rparr>) m []"

lemma gateway_error_opaque [simp]: "opaque (gateway_error c m ds)"
  by (simp add: gateway_error_def)

lemma gatewayDetails_map [simp]: "gatewayDetails_loop (map (\<lambda>d. GatewayDetail (f d)) ds) = map f ds"
  by (induction ds) auto

lemma status_of_gateway_error [simp]:
  "stCode (status_of documented_lib (gateway_error c m ds)) = c"
  "stMessage (status_of documented_lib (gateway_error c m ds)) = m"
  "gatewayDetails (status_of documented_lib (gateway_error c m ds)) =
     map (\<lambda>d. \<lparr>dAddress = ''peer0:7051'', dMSPID = ''Org1MSP'', dMessage = d\<rparr>) ds"
  by (simp_all add: status_of_def documented_lib_def gateway_error_def documented_Convert_def
      errors_Is_def gatewayDetails_def Let_def)

section \<open>Properties\<close>

text \<open>
  C4: an error of the Gateway client is reported with an open outcome exactly when the
  transaction may have been ordered: always while the commit status is awaited, and while the
  transaction is sent to the orderer unless the status is one of the three definite rejections.
  Such an error carries the transaction ID of the call.
\<close>

theorem outcome_unknown_iff:
  assumes "opaque er"
  shows "(IsOutcomeUnknown (classify L (Some er) txID ph strict) \<longleftrightarrow>
      ph = phaseCommitStatus \<or>
      ph = phaseSubmit \<and> stCode (status_of L er) \<notin> {codes_InvalidArgument, codes_FailedPrecondition, codes_Aborted}) \<and>
    TxIDOf (classify L (Some er) txID ph strict) = txID"
  using assms by (auto simp: classify_opaque classified_outcome rejected_before_ordering_def)

theorem outcome_unknown_iff_witness:
  "IsOutcomeUnknown (classify documented_lib (Some (gateway_error codes_Unavailable ''no orderers'' [])) ''tx7'' phaseSubmit False)
   \<and> \<not> IsOutcomeUnknown (classify documented_lib (Some (gateway_error codes_Aborted ''BAD_REQUEST'' [])) ''tx7'' phaseSubmit False)
   \<and> TxIDOf (classify documented_lib (Some (gateway_error codes_Unavailable ''no orderers'' [])) ''tx7'' phaseSubmit False) = ''tx7''"
  using outcome_unknown_iff [OF gateway_error_opaque] by simp

text \<open>
  Retrying is safe. If an error that \<open>classify\<close> returns is retryable, its outcome is not
  open; and for an error of the Gateway client it then occurred before the orderer, or the
  orderer definitely rejected the transaction.
\<close>

theorem retryable_is_safe:
  assumes "IsRetryable (classify L (Some er) txID ph strict)"
  shows "\<not> IsOutcomeUnknown (classify L (Some er) txID ph strict) \<and>
    (opaque er \<longrightarrow> ph < phaseSubmit \<or>
       ph = phaseSubmit \<and> stCode (status_of L er) \<in> {codes_InvalidArgument, codes_FailedPrecondition, codes_Aborted})"
proof -
  from assms have *: "\<not> IsOutcomeUnknown (classify L (Some er) txID ph strict)"
    by (rule cls.retry_or_reconcile)
  moreover have "ph < phaseSubmit \<or> ph = phaseSubmit \<and> rejected_before_ordering (stCode (status_of L er))" if "opaque er"
    using * that by (cases ph) (auto simp: classify_opaque classified_outcome less_phase_def)
  ultimately show ?thesis by (simp add: rejected_before_ordering_def)
qed

theorem retryable_is_safe_witness:
  "\<not> IsOutcomeUnknown (classify documented_lib (Some (gateway_error codes_Aborted ''BAD_REQUEST'' [])) ''tx7'' phaseSubmit False)"
proof -
  have "IsRetryable (classify documented_lib (Some (gateway_error codes_Aborted ''BAD_REQUEST'' [])) ''tx7'' phaseSubmit False)"
    by (simp add: classify_opaque classified_def Let_def network_error_def Retryable_def less_phase_def)
  from retryable_is_safe [OF this] show ?thesis by blast
qed

lemma parse_candidates_hit:
  assumes "\<And>m. m \<in> set ms \<Longrightarrow> \<not> snd (snd (Parse m))" and "Parse m = (c, t, True)"
  shows "parse_candidates (ms @ m # rest) = Some (newError (ccKind c) SourceChaincode t)"
  using assms(1)
proof (induction ms)
  case (Cons x ms)
  obtain a b k where p: "Parse x = (a, b, k)" by (cases "Parse x")
  moreover have "\<not> snd (snd (Parse x))" using Cons.prems by simp
  ultimately show ?case using Cons by simp
qed (simp add: assms(2))

lemma chaincodeError_hit:
  assumes "stCode st \<in> {codes_Aborted, codes_Unknown}" and "details = ds @ d # ds'"
    and "\<And>x. x \<in> set ds \<Longrightarrow> \<not> snd (snd (Parse (dMessage x)))" and "Parse (dMessage d) = (c, t, True)"
  shows "chaincodeError st details strict = Some (newError (ccKind c) SourceChaincode t)"
proof -
  let ?rest = "map dMessage ds' @ (if stMessage st \<noteq> '''' then [TrimPrefix (stMessage st) evaluate_prefix] else [])"
  have cs: "candidates st details = map dMessage ds @ dMessage d # ?rest"
    by (simp add: assms(2) candidates_def)
  have "parse_candidates (candidates st details) = Some (newError (ccKind c) SourceChaincode t)"
    unfolding cs by (rule parse_candidates_hit) (use assms(3,4) in auto)
  with assms(1) show ?thesis by (auto simp: chaincodeError_def Let_def)
qed

text \<open>
  A \<open>ccerr\<close> error as the Gateway reports it: rendered in a detail of an aborted or unknown status,
  alone or behind \<open>chaincode response\<close> and a status, with no code in the details before it.
\<close>

definition reports_ccerr :: "lib \<Rightarrow> err \<Rightarrow> ccError \<Rightarrow> bool" where
  "reports_ccerr L er e =
     (stCode (status_of L er) \<in> {codes_Aborted, codes_Unknown} \<and> ccCode e \<in> set known \<and>
      (\<exists>ds d ds'. gatewayDetails (status_of L er) = ds @ d # ds' \<and>
         (\<forall>x \<in> set ds. \<not> snd (snd (Parse (dMessage x)))) \<and>
         (dMessage d = Error_ccerr e \<or>
          (\<exists>status. CHR '','' \<notin> set status \<and> dMessage d = chaincode_response @ status @ '', '' @ Error_ccerr e))))"

lemma classified_ccerr:
  assumes "reports_ccerr L er e" and "ph < phaseSubmit"
  shows "classified L er ph strict = newError (ccKind (ccCode e)) SourceChaincode (TrimSpace (ccMessage e))"
proof -
  from assms(1) obtain ds d ds' where
    st: "stCode (status_of L er) \<in> {codes_Aborted, codes_Unknown}" and known: "ccCode e \<in> set known"
    and ds: "gatewayDetails (status_of L er) = ds @ d # ds'" "\<And>x. x \<in> set ds \<Longrightarrow> \<not> snd (snd (Parse (dMessage x)))"
    and d: "dMessage d = Error_ccerr e \<or>
      (\<exists>status. CHR '','' \<notin> set status \<and> dMessage d = chaincode_response @ status @ '', '' @ Error_ccerr e)"
    unfolding reports_ccerr_def by blast
  from d have parse: "Parse (dMessage d) = (ccCode e, TrimSpace (ccMessage e), True)"
    using Parse_of_body [OF known] parse_body_coded [OF known, of "'' '' @ ccMessage e"]
      parse_body_response [of _ "ccCode e" "'' '' @ ccMessage e"]
    by (auto simp: Error_ccerr_def TrimSpace_space)
  show ?thesis
    using chaincodeError_hit [OF st ds(1) _ parse] assms(2) ds(2) by (simp add: classified_def Let_def)
qed

text \<open>
  A chaincode that returns a \<open>ccerr\<close> error is understood by the client. When the Gateway
  reports a rendered \<open>ccerr\<close> error in a detail of an aborted or unknown status, in the evaluate
  or endorse phase, and no earlier detail has a code, the result has the kind of that code, its
  message without surrounding white space, and source chaincode, in strict mode or not.
\<close>

theorem ccerr_end_to_end:
  assumes "opaque er" and "ph < phaseSubmit" and "reports_ccerr L er e"
  shows "\<exists>x. classify L (Some er) txID ph strict = Some (SDKError x (Some er)) \<and>
     eKind x = ccKind (ccCode e) \<and> eMessage x = TrimSpace (ccMessage e) \<and>
     eSource x = SourceChaincode \<and> eTxID x = txID \<and> \<not> eOutcomeUnknown x"
  using assms classified_ccerr [OF assms(3,2)] by (simp add: classify_opaque)

lemma example_reports_ccerr:
  "reports_ccerr documented_lib (gateway_error codes_Aborted ''failed to endorse'' [''connection refused'', ''CONFLICT: version 3 != 4''])
     \<lparr>ccCode = Conflict, ccMessage = ''version 3 != 4''\<rparr>"
proof -
  let ?d = "\<lambda>m. \<lparr>dAddress = ''peer0:7051'', dMSPID = ''Org1MSP'', dMessage = m\<rparr>"
  have "\<not> snd (snd (Parse ''connection refused''))" by code_simp
  moreover have "dMessage (?d ''CONFLICT: version 3 != 4'') = Error_ccerr \<lparr>ccCode = Conflict, ccMessage = ''version 3 != 4''\<rparr>"
    by (simp add: Error_ccerr_def Conflict_def)
  ultimately show ?thesis
    unfolding reports_ccerr_def
    by (intro conjI exI [of _ "[?d ''connection refused'']"] exI [of _ "?d ''CONFLICT: version 3 != 4''"] exI [of _ "[]"])
      (simp_all add: known_def)
qed

theorem ccerr_end_to_end_witness:
  "\<exists>x. classify documented_lib (Some (gateway_error codes_Aborted ''failed to endorse'' [''connection refused'', ''CONFLICT: version 3 != 4'']))
         ''tx7'' phaseEndorse True = Some (SDKError x (Some (gateway_error codes_Aborted ''failed to endorse'' [''connection refused'', ''CONFLICT: version 3 != 4'']))) \<and>
     eKind x = KindConflict \<and> eMessage x = ''version 3 != 4'' \<and> eSource x = SourceChaincode \<and> eTxID x = ''tx7'' \<and> \<not> eOutcomeUnknown x"
proof -
  have trim: "TrimSpace ''version 3 != 4'' = ''version 3 != 4''" by code_simp
  have kind: "ccKind Conflict = KindConflict" by code_simp
  show ?thesis
    using ccerr_end_to_end [OF gateway_error_opaque _ example_reports_ccerr, of phaseEndorse "''tx7''" True]
    by (simp add: less_phase_def trim kind)
qed

lemma strict_chaincodeError:
  assumes "chaincodeError st details True = Some e"
  shows "\<exists>m \<in> set (candidates st details). snd (snd (Parse m)) \<or> HasPrefix m chaincode_response"
proof -
  let ?cs = "candidates st details"
  from assms have "parse_candidates ?cs = Some e \<or> response_candidates True ?cs = Some e"
    by (auto simp: chaincodeError_def Let_def split: if_splits option.splits)
  then show ?thesis
    by (auto dest!: parse_candidates_SomeD response_candidates_SomeD) force
qed

text \<open>
  C29: an error of the Gateway client is attributed to chaincode only in the evaluate and
  endorse phases and only for an aborted or unknown status, and its outcome is then never open.
  In strict mode some message of the status then starts with a \<open>ccerr\<close> code or with
  \<open>chaincode response\<close>: no keyword decides.
\<close>

theorem chaincode_attribution:
  assumes "opaque er" and "IsChaincode (classify L (Some er) txID ph strict)"
  shows "ph < phaseSubmit \<and> stCode (status_of L er) \<in> {codes_Aborted, codes_Unknown} \<and>
    \<not> IsOutcomeUnknown (classify L (Some er) txID ph strict) \<and>
    (strict \<longrightarrow> (\<exists>m \<in> set (candidates (status_of L er) (gatewayDetails (status_of L er))).
        snd (snd (Parse m)) \<or> HasPrefix m chaincode_response))"
proof -
  let ?st = "status_of L er"
  from assms have src: "eSource (classified L er ph strict) = SourceChaincode"
    by (simp add: classify_opaque)
  then obtain e where ph: "ph < phaseSubmit" and e: "chaincodeError ?st (gatewayDetails ?st) strict = Some e"
    by (auto simp: classified_def Let_def network_error_fields split: if_splits option.splits)
  moreover have "\<not> IsOutcomeUnknown (classify L (Some er) txID ph strict)"
    using assms(1) ph by (rule cls.closed_before_submit)
  ultimately show ?thesis
    using chaincodeError_SomeD [OF e] strict_chaincodeError [of ?st "gatewayDetails ?st" e] by auto
qed

theorem chaincode_attribution_witness:
  "IsChaincode (classify documented_lib (Some (gateway_error codes_Aborted ''m'' [''NOT_FOUND: a''])) ''t'' phaseEvaluate True)
   \<and> \<not> IsOutcomeUnknown (classify documented_lib (Some (gateway_error codes_Aborted ''m'' [''NOT_FOUND: a''])) ''t'' phaseEvaluate True)"
proof -
  let ?er = "gateway_error codes_Aborted ''m'' [''NOT_FOUND: a'']"
  have p: "Parse ''NOT_FOUND: a'' = (NotFound, ''a'', True)" by code_simp
  have "IsChaincode (classify documented_lib (Some ?er) ''t'' phaseEvaluate True)"
    by (simp add: classify_opaque classified_def Let_def less_phase_def chaincodeError_def candidates_def p)
  with chaincode_attribution [OF gateway_error_opaque this] show ?thesis by blast
qed

text \<open>
  The keyword fallback never classifies peer-side wording. If any of the listed phrases
  occurs in the lowered message, \<open>legacyKind\<close> returns no kind; and the kinds it does return
  need one of their keywords in the lowered message.
\<close>

theorem legacyKind_spec:
  "(p \<in> set peerSidePhrases \<and> sublist p (ToLower msg) \<longrightarrow> legacyKind msg = KindNone) \<and>
   legacyKind msg \<in> {KindNone, KindConflict, KindAlreadyExists, KindNotFound, KindUnauthorized} \<and>
   (legacyKind msg = KindNotFound \<longrightarrow>
      sublist ''not found'' (ToLower msg) \<or> sublist ''does not exist'' (ToLower msg)) \<and>
   (legacyKind msg = KindConflict \<longrightarrow> sublist ''version conflict'' (ToLower msg)) \<and>
   (legacyKind msg = KindAlreadyExists \<longrightarrow> sublist ''already exists'' (ToLower msg))"
proof -
  have "legacyKind msg = KindNone" if "p \<in> set peerSidePhrases" "sublist p (ToLower msg)"
    using that by (auto simp: legacyKind_def Let_def list_ex_iff Contains_iff_sublist)
  moreover have "legacyKind msg \<in> {KindNone, KindConflict, KindAlreadyExists, KindNotFound, KindUnauthorized}"
    by (simp add: legacyKind_def Let_def)
  moreover have "sublist ''not found'' (ToLower msg) \<or> sublist ''does not exist'' (ToLower msg)"
    if "legacyKind msg = KindNotFound"
    using that by (auto simp: legacyKind_def Let_def Contains_iff_sublist split: if_splits)
  moreover have "sublist ''version conflict'' (ToLower msg)" if "legacyKind msg = KindConflict"
    using that by (auto simp: legacyKind_def Let_def Contains_iff_sublist split: if_splits)
  moreover have "sublist ''already exists'' (ToLower msg)" if "legacyKind msg = KindAlreadyExists"
    using that by (auto simp: legacyKind_def Let_def Contains_iff_sublist split: if_splits)
  ultimately show ?thesis by blast
qed

theorem legacyKind_spec_witness:
  "legacyKind ''Make sure the chaincode basic is defined: chaincode basic not found'' = KindNone"
proof -
  have "''make sure the chaincode'' \<in> set peerSidePhrases" by code_simp
  moreover have "sublist ''make sure the chaincode'' (ToLower ''Make sure the chaincode basic is defined: chaincode basic not found'')"
    unfolding Contains_iff_sublist [symmetric] by code_simp
  ultimately show ?thesis
    using legacyKind_spec [of "''make sure the chaincode''" "''Make sure the chaincode basic is defined: chaincode basic not found''"]
    by blast
qed

lemma ccKind_known: "c \<in> set known \<Longrightarrow> ccKind c \<noteq> KindNone"
  by (erule known_cases) (simp_all add: ccKind_def)

lemma Parse_known: "Parse m = (c, t, True) \<Longrightarrow> c \<in> set known"
  by (auto simp: Parse_body split: prod.splits if_splits)

lemma kindFromCode_proper: "kindFromCode c ph \<noteq> KindNone"
  by (cases c) auto

lemma chaincodeError_proper:
  assumes "chaincodeError st details strict = Some e"
  shows "eKind e \<noteq> KindNone \<and> eCode e = kindCode (eKind e)"
proof -
  let ?cs = "candidates st details"
  from assms consider "parse_candidates ?cs = Some e" | "response_candidates strict ?cs = Some e"
    | "legacy_details details = Some e"
    by (auto simp: chaincodeError_def Let_def split: if_splits option.splits)
  then show ?thesis
  proof cases
    case 1
    then show ?thesis by (auto dest!: parse_candidates_SomeD simp: ccKind_known Parse_known)
  next
    case 2
    then show ?thesis by (auto dest!: response_candidates_SomeD)
  next
    case 3
    then show ?thesis by (auto dest!: legacy_details_SomeD)
  qed
qed

lemma network_error_proper: "eKind (network_error st ph) \<noteq> KindNone"
  by (cases ph) (auto simp: network_error_def kindFromCode_proper)

lemma classified_proper:
  "eKind (classified L er ph strict) \<noteq> KindNone \<and>
   eCode (classified L er ph strict) = kindCode (eKind (classified L er ph strict))"
  using chaincodeError_proper network_error_proper network_error_fields(2)
  by (auto simp: classified_def Let_def split: option.splits if_splits)

text \<open>
  C39: a classified error is complete. Whatever the error of the Gateway client, the phase and
  the mode, the result has one of the sixteen kinds, the HTTP-style code of that kind, the gRPC
  code and details of the status, and the original error as its cause.
\<close>

theorem classify_complete:
  assumes "opaque er"
  shows "\<exists>x. classify L (Some er) txID ph strict = Some (SDKError x (Some er)) \<and>
     eKind x \<noteq> KindNone \<and> eCode x = kindCode (eKind x) \<and> eTxID x = txID \<and>
     eGRPCCode x = stCode (status_of L er) \<and> eDetails x = gatewayDetails (status_of L er)"
  using assms classified_proper [of L er ph strict] by (simp add: classify_opaque)

theorem classify_complete_witness:
  "\<exists>x. classify documented_lib (Some (gateway_error codes_Unavailable ''no peers'' [])) ''t'' phaseEndorse False
       = Some (SDKError x (Some (gateway_error codes_Unavailable ''no peers'' []))) \<and> eKind x \<noteq> KindNone \<and> eTxID x = ''t''"
  using classify_complete [OF gateway_error_opaque, of documented_lib codes_Unavailable "''no peers''" "[]" "''t''" phaseEndorse False]
  by blast

lemma asError_wrapped: "asError (Some (foldr WrapError ms x)) = asError (Some x)"
  by (induction ms) simp_all

text \<open>
  Wrapping never hides a classification. Whatever text is wrapped around an error with
  \<open>fmt.Errorf\<close>, however often, every predicate answers as for the error itself, and classifying
  a classified error again, wrapped or not and in any phase, gives the same error.
\<close>

theorem wrapping_transparent:
  "KindOf (Some (foldr WrapError ms x)) = KindOf (Some x) \<and>
   TxIDOf (Some (foldr WrapError ms x)) = TxIDOf (Some x) \<and>
   IsRetryable (Some (foldr WrapError ms x)) = IsRetryable (Some x) \<and>
   IsOutcomeUnknown (Some (foldr WrapError ms x)) = IsOutcomeUnknown (Some x) \<and>
   IsChaincode (Some (foldr WrapError ms x)) = IsChaincode (Some x) \<and>
   (\<forall>y. classify L (Some x) t ph s = Some y \<longrightarrow>
      classify L (Some (foldr WrapError ms y)) t' ph' s' = Some y)"
proof -
  have "classify L (Some (foldr WrapError ms y)) t' ph' s' = Some y" if "classify L (Some x) t ph s = Some y" for y
  proof -
    from that cls.typed [of L x t ph s] obtain e c where y: "y = SDKError e c" by auto
    then have "asError (Some (foldr WrapError ms y)) = Some (e, c)" by (simp add: asError_wrapped)
    then show ?thesis unfolding y by (rule cls.keeps)
  qed
  then show ?thesis
    by (simp add: KindOf_def TxIDOf_def IsRetryable_def IsOutcomeUnknown_def IsChaincode_def asError_wrapped)
qed

theorem wrapping_transparent_witness:
  "KindOf (Some (foldr WrapError [''handler: x''] (SDKError (newError KindConfig SourceSDK ''x'') None))) = KindConfig"
  using wrapping_transparent [of "[''handler: x'']" "SDKError (newError KindConfig SourceSDK ''x'') None"] by simp

text \<open>
  A deadline or cancellation that ends a call before any reply is reported as such before
  the orderer, where both stay separate from the chaincode's own errors.
\<close>

theorem context_errors:
  assumes "opaque er" and "ph < phaseSubmit" and "stCode (status_Convert L er) = codes_Unknown"
  shows "(errors_Is (Some er) ContextCanceled \<longrightarrow> KindOf (classify L (Some er) t ph s) = KindCanceled) \<and>
     (errors_Is (Some er) ContextDeadlineExceeded \<and> \<not> errors_Is (Some er) ContextCanceled \<longrightarrow>
        IsTimeout (classify L (Some er) t ph s) \<and> IsRetryable (classify L (Some er) t ph s))"
  using assms
  by (auto simp: classify_opaque classified_def Let_def status_of_def chaincodeError_def status_New_def
      network_error_def phase_before_submit predicate_defs Retryable_def)

theorem context_errors_witness:
  "IsTimeout (classify documented_lib (Some (WrapError ''rpc: deadline'' ContextDeadlineExceeded)) ''t'' phaseEvaluate False)"
proof -
  let ?er = "WrapError ''rpc: deadline'' ContextDeadlineExceeded"
  have "opaque ?er" by (simp add: opaque_def errors_As_def)
  moreover have "stCode (status_Convert documented_lib ?er) = codes_Unknown"
    by (simp add: documented_lib_def documented_Convert_def status_New_def)
  ultimately show ?thesis
    using context_errors [of ?er phaseEvaluate documented_lib "''t''" False]
    by (simp add: less_phase_def errors_Is_def)
qed

text \<open>
  A transaction committed as invalid is a definite failure. The error carries the
  transaction ID and the validation code, its outcome is not open, and it is retryable exactly
  for the two read conflicts, where it is a conflict; every other code is a commit failure.
\<close>

theorem commitFailure_spec:
  "\<exists>e. commitFailure L t v c = SDKError e c \<and> eTxID e = t \<and> eValidationCode e = v \<and>
     \<not> eOutcomeUnknown e \<and>
     (Retryable e \<longleftrightarrow> v \<in> {TxValidationCode_MVCC_READ_CONFLICT, TxValidationCode_PHANTOM_READ_CONFLICT}) \<and>
     eKind e = (if Retryable e then KindConflict else KindCommitFailed) \<and>
     eCode e = (if Retryable e then 409 else 500)"
  by (auto simp: commitFailure_def Let_def Retryable_def)

text \<open>
  A gRPC \<open>NotFound\<close> of the network is reported by \<open>IsNotFound\<close> although no chaincode answered.
\<close>

lemma IsNotFound_from_network:
  "IsNotFound (classify documented_lib (Some (gateway_error codes_NotFound ''channel unknown'' [])) ''t'' phaseEvaluate False) \<and>
   \<not> IsChaincode (classify documented_lib (Some (gateway_error codes_NotFound ''channel unknown'' [])) ''t'' phaseEvaluate False)"
  by (simp add: classify_opaque classified_def Let_def less_phase_def chaincodeError_def network_error_def predicate_defs)

section \<open>Chaincode errors in a single pass\<close>

text \<open>
  A reference for \<open>chaincodeError\<close>: each message is read once, by the strongest evidence it offers
  that chaincode wrote it, and the first of the strongest readings wins. A \<open>ccerr\<close> code is the
  strongest evidence (0), then the prefix of a chaincode response (1), then, for a detail and
  unless strict, one of the keywords (2).
\<close>

definition reading :: "bool \<Rightarrow> bool \<times> string \<Rightarrow> (nat \<times> Error) option" where
  "reading strict dm =
     (case dm of (is_detail, m) \<Rightarrow>
        (case Parse m of (code, text, ok) \<Rightarrow>
           if ok then Some (0, newError (ccKind code) SourceChaincode text)
           else if HasPrefix m chaincode_response
           then (let text = fst (snd (Cut m '', ''));
                     k = (if strict then KindNone else legacyKind text)
                 in Some (1, newError (if k = KindNone then KindChaincode else k) SourceChaincode text))
           else if is_detail \<and> \<not> strict \<and> legacyKind m \<noteq> KindNone
           then Some (2, newError (legacyKind m) SourceChaincode m)
           else None))"

fun stronger :: "(nat \<times> Error) option \<Rightarrow> (nat \<times> Error) option \<Rightarrow> (nat \<times> Error) option" where
  "stronger None b = b"
| "stronger a None = a"
| "stronger (Some (i, x)) (Some (j, y)) = (if j < i then Some (j, y) else Some (i, x))"

definition messages :: "Status \<Rightarrow> ErrorDetail list \<Rightarrow> (bool \<times> string) list" where
  "messages st details =
     map (\<lambda>d. (True, dMessage d)) details
     @ (if stMessage st \<noteq> '''' then [(False, TrimPrefix (stMessage st) evaluate_prefix)] else [])"

definition strongest_reading :: "Status \<Rightarrow> ErrorDetail list \<Rightarrow> bool \<Rightarrow> Error option" where
  "strongest_reading st details strict =
     (if stCode st \<in> {codes_Aborted, codes_Unknown}
      then map_option snd (foldl stronger None (map (reading strict) (messages st details)))
      else None)"

text \<open>The first reading of a given strength.\<close>

fun first_of :: "nat \<Rightarrow> (nat \<times> Error) option list \<Rightarrow> Error option" where
  "first_of n [] = None"
| "first_of n (None # rs) = first_of n rs"
| "first_of n (Some (i, e) # rs) = (if i = n then Some e else first_of n rs)"

definition or_else :: "'a option \<Rightarrow> 'a option \<Rightarrow> 'a option" where
  "or_else a b = (case a of None \<Rightarrow> b | Some x \<Rightarrow> Some x)"

lemma or_else_simps [simp]: "or_else None b = b" "or_else (Some x) b = Some x" "or_else a None = a"
  by (simp_all add: or_else_def split: option.splits)

lemma foldl_stronger:
  assumes "\<forall>r \<in> set rs. \<forall>i e. r = Some (i, e) \<longrightarrow> i \<le> 2"
  shows "foldl stronger (Some (0, x)) rs = Some (0, x)"
    "map_option snd (foldl stronger (Some (1, x)) rs) = or_else (first_of 0 rs) (Some x)"
    "map_option snd (foldl stronger (Some (2, x)) rs) = or_else (first_of 0 rs) (or_else (first_of 1 rs) (Some x))"
    "map_option snd (foldl stronger None rs) = or_else (first_of 0 rs) (or_else (first_of 1 rs) (first_of 2 rs))"
proof -
  have zero: "foldl stronger (Some (0, x)) rs = Some (0, x)" for x rs
  proof (induction rs)
    case (Cons r rs)
    then show ?case by (cases r) auto
  qed simp
  have one: "map_option snd (foldl stronger (Some (1, x)) rs) = or_else (first_of 0 rs) (Some x)" for x rs
  proof (induction rs)
    case (Cons r rs)
    then show ?case by (cases r) (auto simp: zero)
  qed simp
  have two: "map_option snd (foldl stronger (Some (2, x)) rs) = or_else (first_of 0 rs) (or_else (first_of 1 rs) (Some x))" for x rs
  proof (induction rs)
    case (Cons r rs)
    show ?case
    proof (cases r)
      case (Some ie)
      then obtain i e where r: "r = Some (i, e)" by (cases ie) auto
      consider "i = 0" | "i = 1" | "2 \<le> i" by linarith
      then show ?thesis by cases (use Cons zero one in \<open>simp_all add: r\<close>)
    qed (use Cons in simp)
  qed simp
  show "foldl stronger (Some (0, x)) rs = Some (0, x)" by (rule zero)
  show "map_option snd (foldl stronger (Some (1, x)) rs) = or_else (first_of 0 rs) (Some x)" by (rule one)
  show "map_option snd (foldl stronger (Some (2, x)) rs) = or_else (first_of 0 rs) (or_else (first_of 1 rs) (Some x))" by (rule two)
  show "map_option snd (foldl stronger None rs) = or_else (first_of 0 rs) (or_else (first_of 1 rs) (first_of 2 rs))"
    using assms
  proof (induction rs)
    case (Cons r rs)
    show ?case
    proof (cases r)
      case (Some ie)
      then obtain i e where r: "r = Some (i, e)" by (cases ie) auto
      with Cons.prems have "i \<le> 2" by auto
      then consider "i = 0" | "i = 1" | "i = 2" by linarith
      then show ?thesis by cases (use zero one two in \<open>simp_all add: r\<close>)
    qed (use Cons in simp)
  qed simp
qed

lemma first_parse: "first_of 0 (map (reading strict) ms) = parse_candidates (map snd ms)"
  by (induction ms) (auto simp: reading_def Let_def split: prod.splits)

lemma first_response:
  "parse_candidates (map snd ms) = None \<Longrightarrow> first_of 1 (map (reading strict) ms) = response_candidates strict (map snd ms)"
  by (induction ms) (auto simp: reading_def Let_def split: prod.splits if_splits)

lemma first_keyword:
  "parse_candidates (map snd ms) = None \<Longrightarrow> response_candidates strict (map snd ms) = None \<Longrightarrow>
     first_of 2 (map (reading strict) ms) =
       (if strict then None else legacy_details (map (\<lambda>m. \<lparr>dAddress = [], dMSPID = [], dMessage = m\<rparr>) (map snd (filter fst ms))))"
  by (induction ms) (auto simp: reading_def Let_def split: prod.splits if_splits)

lemma legacy_details_messages:
  "legacy_details (map (\<lambda>m. \<lparr>dAddress = [], dMSPID = [], dMessage = m\<rparr>) (map dMessage ds)) = legacy_details ds"
  by (induction ds) auto

lemma messages_simps: "map snd (messages st details) = candidates st details" "map snd (filter fst (messages st details)) = map dMessage details"
  by (simp_all add: messages_def candidates_def comp_def)

text \<open>
  C20: \<open>chaincodeError\<close>, which goes over the messages of an error up to three times and returns from the
  first loop that finds something, agrees with the single pass that reads each message once and
  keeps the first of the strongest readings: a code anywhere beats a response prefix anywhere,
  which beats a keyword in any detail, and among equals the first message wins.
\<close>

theorem chaincodeError_single_pass: "chaincodeError st details strict = strongest_reading st details strict"
proof (cases "stCode st \<in> {codes_Aborted, codes_Unknown}")
  case True
  let ?ms = "messages st details"
  let ?rs = "map (reading strict) ?ms"
  have "\<forall>r \<in> set ?rs. \<forall>i e. r = Some (i, e) \<longrightarrow> i \<le> 2"
    by (auto simp: reading_def Let_def split: prod.splits if_splits)
  from foldl_stronger(4) [OF this] True have pass: "strongest_reading st details strict = or_else (first_of 0 ?rs) (or_else (first_of 1 ?rs) (first_of 2 ?rs))"
    by (simp add: strongest_reading_def)
  show ?thesis
  proof (cases "parse_candidates (candidates st details)")
    case (Some e)
    with True pass show ?thesis by (auto simp: chaincodeError_def Let_def first_parse messages_simps)
  next
    case None
    show ?thesis
    proof (cases "response_candidates strict (candidates st details)")
      case (Some e)
      with True None pass show ?thesis
        using first_response [of ?ms strict] by (auto simp: chaincodeError_def Let_def first_parse messages_simps)
    next
      case no_response: None
      with True None pass show ?thesis
        using first_response [of ?ms strict] first_keyword [of ?ms strict]
        by (auto simp: chaincodeError_def Let_def first_parse messages_simps legacy_details_messages simp del: map_map)
    qed
  qed
qed (auto simp: chaincodeError_def strongest_reading_def)

text \<open>
  A message that consists of nothing but \<open>chaincode basic not found\<close> has none of the peer's phrases,
  so the fallback takes it for a missing record of the chaincode.
\<close>

lemma peer_message_misread:
  "legacyKind ''chaincode basic not found'' = KindNotFound"
  "map_option (\<lambda>e. (eKind e, eSource e)) (chaincodeError (status_New codes_Aborted '''')
     [\<lparr>dAddress = '''', dMSPID = '''', dMessage = ''chaincode basic not found''\<rparr>] False) = Some (KindNotFound, SourceChaincode)"
  by code_simp+

end
