(* ===== verification/Observe.thy ===== *)
theory Observe
  imports Errors
begin

text \<open>
  The optional hooks of \<open>src/observe.go\<close>: loggers, observers and the record an observer gets
  for each finished operation. A logger or observer supplied by the application is a number;
  what the hooks of this package do with a call is translated: the no-op ones drop it, the slog
  adapter and \<open>ObserverFunc\<close> pass it on unchanged.
\<close>

section \<open>Loggers\<close>

datatype logval = LStr string | LNum uint64

datatype level = LevelInfo | LevelError

text \<open>One structured line as a backend receives it.\<close>

record logline =
  llLevel :: level
  llMsg :: string
  llKeys :: "(string \<times> logval) list"

datatype Logger = noopLogger | slogLogger nat | OtherLogger nat

definition NewSlogLogger :: "nat option \<Rightarrow> Logger" where
  "NewSlogLogger l = (case l of None \<Rightarrow> noopLogger | Some b \<Rightarrow> slogLogger b)"

text \<open>What a call reaches: the backend of the logger and the line, or nothing.\<close>

fun Logger_emit :: "Logger \<Rightarrow> level \<Rightarrow> string \<Rightarrow> (string \<times> logval) list \<Rightarrow> (nat \<times> logline) list" where
  "Logger_emit noopLogger lv msg kv = []"
| "Logger_emit (slogLogger b) lv msg kv = [(b, \<lparr>llLevel = lv, llMsg = msg, llKeys = kv\<rparr>)]"
| "Logger_emit (OtherLogger b) lv msg kv = [(b, \<lparr>llLevel = lv, llMsg = msg, llKeys = kv\<rparr>)]"

section \<open>Observers\<close>

definition OpEvaluate :: string where "OpEvaluate = ''evaluate''"
definition OpEndorse :: string where "OpEndorse = ''endorse''"
definition OpSubmit :: string where "OpSubmit = ''submit''"
definition OpCommit :: string where "OpCommit = ''commit''"
definition OpTxStatus :: string where "OpTxStatus = ''tx_status''"

record CallInfo =
  ciOperation :: string
  ciChannel :: string
  ciChaincode :: string
  ciContract :: string
  ciFunction :: string
  ciMSPID :: string
  ciTxID :: string
  ciDuration :: int
  ciErr :: "err option"

datatype Observer = noopObserver | ObserverFunc nat | OtherObserver nat

fun ObserveCall :: "Observer \<Rightarrow> CallInfo \<Rightarrow> (nat \<times> CallInfo) list" where
  "ObserveCall noopObserver info = []"
| "ObserveCall (ObserverFunc f) info = [(f, info)]"
| "ObserveCall (OtherObserver f) info = [(f, info)]"

end
