(* ===== verification/World.thy ===== *)
theory World
  imports Observe
begin

text \<open>
  The state the operations of the package run on, and the code outside \<open>src/\<close> they call.

  \<^item> Contexts: Go's \<open>context\<close> package, as far as deadlines and the caller's context go.
  \<^item> \<open>api\<close>: the functions of the Fabric Gateway client, gRPC, protobuf, the cryptographic
    libraries and the operating system that the sources call, as one record of functions over
    a state \<open>'w\<close> of the outside world. Definitions take it as an argument and nothing is
    assumed of it but what a theorem states as a hypothesis.
  \<^item> \<open>world\<close>: the outside state, a trace of what the package did to it, and the fields of its
    own objects that change: the closed flag of a client, the \<open>sync.Once\<close> of a client or
    pending transaction, the field \<open>close\<close> of an identity, and of an event stream whether its
    context was cancelled and its field \<open>err\<close>, each by object address.
\<close>

section \<open>Contexts\<close>

text \<open>
  A context given by the caller has a number and perhaps a deadline; the others are derived as
  \<open>context.WithCancel\<close> and \<open>context.WithDeadline\<close> do. Times are nanoseconds.
\<close>

datatype Ctx =
  Background
| CallerCtx nat "int option"
| WithCancel Ctx
| WithDeadline Ctx int

fun Deadline :: "Ctx \<Rightarrow> int option" where
  "Deadline Background = None"
| "Deadline (CallerCtx n d) = d"
| "Deadline (WithCancel c) = Deadline c"
| "Deadline (WithDeadline c d) = Some (case Deadline c of None \<Rightarrow> d | Some d' \<Rightarrow> min d d')"

text \<open>The caller's context that a context derives from: its cancellation is inherited.\<close>

fun ctx_caller :: "Ctx \<Rightarrow> nat option" where
  "ctx_caller Background = None"
| "ctx_caller (CallerCtx n d) = Some n"
| "ctx_caller (WithCancel c) = ctx_caller c"
| "ctx_caller (WithDeadline c d) = ctx_caller c"

definition WithTimeout :: "Ctx \<Rightarrow> int \<Rightarrow> int \<Rightarrow> Ctx" where
  "WithTimeout c now d = WithDeadline c (now + d)"

section \<open>Values that cross the boundary\<close>

text \<open>
  An identity by reference: \<open>iAddr\<close> is the address of the structure, which pointer comparison
  sees; the other fields never change after construction. The field \<open>close\<close> changes and is
  kept in the world.
\<close>

record Identity =
  iAddr :: nat
  iX509 :: nat
  iCert :: nat
  iSign :: nat

datatype ConnectOption =
  WithSign nat | WithHashSHA256 | WithClientConnection nat
| WithEvaluateTimeout int | WithEndorseTimeout int | WithSubmitTimeout int
| WithCommitStatusTimeout int | WithTLSClientCertificateHash bytes

datatype ProposalOption =
  WithBytesArguments "bytes list" | WithTransient "(string \<times> bytes) list"
| WithEndorsingOrganizations "string list" | WithArguments "string list"

datatype DialOption = WithTransportCredentials nat | WithKeepaliveParams nat | UserDialOption nat

text \<open>A contract of the Gateway client: Gateway, channel, chaincode, and the name if one is given.\<close>

record ContractRef =
  crGateway :: nat
  crChannel :: string
  crChaincode :: string
  crName :: "string option"

record CommitStatus =
  csCode :: TxValidationCode
  csSuccessful :: bool
  csBlockNumber :: uint64

record TLSConfig =
  tlsRootCAs :: bytes
  tlsServerName :: string
  tlsMinVersion :: nat
  tlsCertificate :: "nat option"

text \<open>An event as the package delivers it, and a block by reference.\<close>

record ChaincodeEvent =
  evBlockNumber :: uint64
  evTxID :: string
  evChaincodeName :: string
  evEventName :: string
  evPayload :: bytes

record DirEntry =
  deName :: string
  deIsRegular :: bool

section \<open>The code outside the repository\<close>

record 'w api =
  apiLib :: lib
  time_Now :: "'w \<Rightarrow> int \<times> 'w"
  os_Stat :: "string \<Rightarrow> 'w \<Rightarrow> err + bool" \<comment> \<open>whether it is a directory\<close>
  os_ReadFile :: "string \<Rightarrow> 'w \<Rightarrow> err + bytes"
  os_ReadDir :: "string \<Rightarrow> 'w \<Rightarrow> err + DirEntry list"
  NewX509Identity :: "string \<Rightarrow> nat \<Rightarrow> err + nat"
  X509Identity_MspID :: "nat \<Rightarrow> string"
  CertificateFromPEM :: "bytes \<Rightarrow> err + nat"
  PrivateKeyFromPEM :: "bytes \<Rightarrow> err + nat"
  NewPrivateKeySign :: "nat \<Rightarrow> err + nat"
  Signer_Public :: "nat \<Rightarrow> nat option" \<comment> \<open>the key as a crypto.Signer, and its public key\<close>
  Certificate_PublicKey :: "nat \<Rightarrow> nat"
  PublicKey_Equal :: "nat \<Rightarrow> (nat \<Rightarrow> bool) option" \<comment> \<open>its method Equal, if it has one\<close>
  PublicKey_ECDH :: "nat \<Rightarrow> (err + bytes) option" \<comment> \<open>None: not an ECDSA key\<close>
  sha256_Sum :: "bytes \<Rightarrow> bytes"
  NewHSMSigner :: "nat \<Rightarrow> string \<Rightarrow> string \<Rightarrow> string \<Rightarrow> 'w \<Rightarrow> (err + nat \<times> nat) \<times> 'w"
  call_close :: "nat \<Rightarrow> 'w \<Rightarrow> err option \<times> 'w" \<comment> \<open>a function value of type func() error\<close>
  AppendCertsFromPEM :: "bytes \<Rightarrow> bool"
  LoadX509KeyPair :: "string \<Rightarrow> string \<Rightarrow> 'w \<Rightarrow> err + nat \<times> bytes"
  NewTLS :: "TLSConfig \<Rightarrow> nat"
  grpc_NewClient :: "string \<Rightarrow> DialOption list \<Rightarrow> 'w \<Rightarrow> (err + nat) \<times> 'w"
  Conn_Close :: "nat \<Rightarrow> 'w \<Rightarrow> err option \<times> 'w"
  client_Connect :: "nat \<Rightarrow> ConnectOption list \<Rightarrow> 'w \<Rightarrow> (err + nat) \<times> 'w"
  Gateway_Close :: "nat \<Rightarrow> 'w \<Rightarrow> err option \<times> 'w"
  NewProposal :: "ContractRef \<Rightarrow> string \<Rightarrow> ProposalOption list \<Rightarrow> 'w \<Rightarrow> (err + nat) \<times> 'w"
  Proposal_TransactionID :: "nat \<Rightarrow> string"
  Proposal_Evaluate :: "nat \<Rightarrow> Ctx \<Rightarrow> 'w \<Rightarrow> (err + bytes) \<times> 'w"
  Proposal_Endorse :: "nat \<Rightarrow> Ctx \<Rightarrow> 'w \<Rightarrow> (err + nat) \<times> 'w"
  Transaction_Result :: "nat \<Rightarrow> bytes"
  Transaction_Submit :: "nat \<Rightarrow> Ctx \<Rightarrow> 'w \<Rightarrow> (err + nat) \<times> 'w"
  Commit_Status :: "nat \<Rightarrow> Ctx \<Rightarrow> 'w \<Rightarrow> (err + CommitStatus) \<times> 'w"
  Unmarshal_ProcessedTransaction :: "bytes \<Rightarrow> err + TxValidationCode"
  Unmarshal_BlockchainInfo :: "bytes \<Rightarrow> err + uint64"

section \<open>The world\<close>

datatype effect =
  EConnOpen nat | EConnClose nat
| EGatewayOpen nat | EGatewayClose nat
| ESignerOpen nat | ESignerClose nat
| EProposal ContractRef string "ProposalOption list"
| EEvaluate nat Ctx | EEndorse nat Ctx | ESubmit nat Ctx | ECommitStatus nat Ctx
| ELog nat logline
| EObserve nat CallInfo
| EStreamOpen nat | EStreamStop nat
| EHandle ChaincodeEvent | ECheckpointTx uint64 string
| EHandleBlock nat | ECheckpointBlock uint64 | ECheckpointerClose nat
| ESleep int
| EPanic \<comment> \<open>a method call on a nil interface; nothing after it happens in the program\<close>

record 'w world =
  ext :: 'w
  trace :: "effect list"
  fresh :: nat
  closed :: "nat \<Rightarrow> bool"
  once :: "nat \<Rightarrow> bool"
  idClose :: "nat \<Rightarrow> nat option"
  stopped :: "nat \<Rightarrow> bool"
  streamErr :: "nat \<Rightarrow> err option"

type_synonym ('w, 'a) op = "('w world, 'a) state"

definition emit :: "effect \<Rightarrow> ('w, unit) op" where
  "emit e = State (\<lambda>w. ((), w\<lparr>trace := trace w @ [e]\<rparr>))"

definition emits :: "effect list \<Rightarrow> ('w, unit) op" where
  "emits es = State (\<lambda>w. ((), w\<lparr>trace := trace w @ es\<rparr>))"

text \<open>A call that may change the outside world, and one that only reads it.\<close>

definition outside :: "('w \<Rightarrow> 'a \<times> 'w) \<Rightarrow> ('w, 'a) op" where
  "outside f = State (\<lambda>w. case f (ext w) of (a, x) \<Rightarrow> (a, w\<lparr>ext := x\<rparr>))"

definition inspect :: "('w \<Rightarrow> 'a) \<Rightarrow> ('w, 'a) op" where
  "inspect f = State (\<lambda>w. (f (ext w), w))"

definition alloc :: "('w, nat) op" where
  "alloc = State (\<lambda>w. (fresh w, w\<lparr>fresh := Suc (fresh w)\<rparr>))"

definition peek :: "('w world \<Rightarrow> 'a) \<Rightarrow> ('w, 'a) op" where
  "peek f = State (\<lambda>w. (f w, w))"

definition poke :: "('w world \<Rightarrow> 'w world) \<Rightarrow> ('w, unit) op" where
  "poke f = State (\<lambda>w. ((), f w))"

lemma run_emit [simp, run_simps]: "run_state (emit e) w = ((), w\<lparr>trace := trace w @ [e]\<rparr>)"
  by (simp add: emit_def)

lemma run_emits [simp, run_simps]: "run_state (emits es) w = ((), w\<lparr>trace := trace w @ es\<rparr>)"
  by (simp add: emits_def)

lemma run_outside [simp, run_simps]:
  "run_state (outside f) w = (fst (f (ext w)), w\<lparr>ext := snd (f (ext w))\<rparr>)"
  by (simp add: outside_def split_beta)

lemma run_inspect [simp, run_simps]: "run_state (inspect f) w = (f (ext w), w)"
  by (simp add: inspect_def)

lemma run_alloc [simp, run_simps]: "run_state alloc w = (fresh w, w\<lparr>fresh := Suc (fresh w)\<rparr>)"
  by (simp add: alloc_def)

lemma run_peek [simp, run_simps]: "run_state (peek f) w = (f w, w)"
  by (simp add: peek_def)

lemma run_poke [simp, run_simps]: "run_state (poke f) w = ((), f w)"
  by (simp add: poke_def)

text \<open>
  \<open>sync.Once.Do\<close> on the flag at an address: the body runs the first time only. The flag is set
  before the body runs; with one goroutine, as here, the order cannot be seen.
\<close>

definition once_Do :: "nat \<Rightarrow> ('w, 'a) op \<Rightarrow> 'a \<Rightarrow> ('w, 'a) op" where
  "once_Do a body dflt =
     do { done \<leftarrow> peek (\<lambda>w. once w a);
          if done then State_Monad.return dflt
          else do { poke (\<lambda>w. w\<lparr>once := (once w)(a := True)\<rparr>); body } }"

section \<open>Operations that take effect once\<close>

text \<open>
  The contract of an operation that may be called again: after it has run, it is quiet, and
  while it is quiet it returns a fixed result and does nothing. Closing an identity, closing a
  client and releasing a pending transaction promise it.
\<close>

locale once_only =
  fixes act :: "('w, 'a) op" and quiet :: "'w world \<Rightarrow> bool" and idle :: 'a
  assumes becomes_quiet: "quiet (snd (run_state act w))"
    and quiet_idle: "quiet w \<Longrightarrow> run_state act w = (idle, w)"
begin

lemma again: "run_state act (snd (run_state act w)) = (idle, snd (run_state act w))"
  by (rule quiet_idle) (rule becomes_quiet)

lemma repeated: "((\<lambda>w. snd (run_state act w)) ^^ Suc n) w = snd (run_state act w)"
  by (induction n) (simp_all add: again)

end

section \<open>A concrete outside world\<close>

text \<open>
  For concrete runs: a clock that ticks at each reading and a Gateway, file system and key
  store that answer every call. Gateways and proposals are numbered by the clock.
\<close>

definition calm_api_over :: "('w \<Rightarrow> nat \<times> 'w) \<Rightarrow> 'w api" where
  "calm_api_over tick =
     \<lparr>apiLib = documented_lib,
      time_Now = (\<lambda>x. map_prod int id (tick x)),
      os_Stat = (\<lambda>p x. Inr (p = ''keystore'')),
      os_ReadFile = (\<lambda>p x. Inr p),
      os_ReadDir = (\<lambda>p x. Inr [\<lparr>deName = ''.DS_Store'', deIsRegular = True\<rparr>, \<lparr>deName = ''abc_sk'', deIsRegular = True\<rparr>]),
      NewX509Identity = (\<lambda>m c. Inr c),
      X509Identity_MspID = (\<lambda>i. if i = 0 then ''Org1MSP'' else ''PoliceMSP''),
      CertificateFromPEM = (\<lambda>b. Inr 0),
      PrivateKeyFromPEM = (\<lambda>b. Inr 0),
      NewPrivateKeySign = (\<lambda>k. Inr k),
      Signer_Public = (\<lambda>k. Some k),
      Certificate_PublicKey = (\<lambda>c. c),
      PublicKey_Equal = (\<lambda>p. Some (\<lambda>q. q = p)),
      PublicKey_ECDH = (\<lambda>p. Some (Inr [])),
      sha256_Sum = (\<lambda>b. b),
      NewHSMSigner = (\<lambda>f l p i x. (Inr (0, 0), x)),
      call_close = (\<lambda>c x. (None, x)),
      AppendCertsFromPEM = (\<lambda>b. True),
      LoadX509KeyPair = (\<lambda>c k x. Inr (0, [])),
      NewTLS = (\<lambda>t. 0),
      grpc_NewClient = (\<lambda>t opts x. (Inr 0, x)),
      Conn_Close = (\<lambda>c x. (None, x)),
      client_Connect = (\<lambda>i opts x. map_prod Inr id (tick x)),
      Gateway_Close = (\<lambda>g x. (None, x)),
      NewProposal = (\<lambda>c fn opts x. map_prod Inr id (tick x)),
      Proposal_TransactionID = (\<lambda>p. ''tx''),
      Proposal_Evaluate = (\<lambda>p ctx x. (Inr ''result'', x)),
      Proposal_Endorse = (\<lambda>p ctx x. (Inr p, x)),
      Transaction_Result = (\<lambda>t. ''result''),
      Transaction_Submit = (\<lambda>t ctx x. (Inr t, x)),
      Commit_Status = (\<lambda>c ctx x. (Inr \<lparr>csCode = 0, csSuccessful = True, csBlockNumber = 42\<rparr>, x)),
      Unmarshal_ProcessedTransaction = (\<lambda>b. Inr 0),
      Unmarshal_BlockchainInfo = (\<lambda>b. Inr 1234)\<rparr>"

definition calm_api :: "nat api" where
  "calm_api = calm_api_over (\<lambda>x. (x, Suc x))"

lemmas calm_defs = calm_api_def calm_api_over_def

definition calm_world :: "nat world" where
  "calm_world = \<lparr>ext = 100, trace = [], fresh = 0, closed = (\<lambda>_. False), once = (\<lambda>_. False), idClose = (\<lambda>_. None),
     stopped = (\<lambda>_. False), streamErr = (\<lambda>_. None)\<rparr>"

end
