(* ===== verification/Config.thy ===== *)
theory Config
  imports World
begin

text \<open>
  The configuration of \<open>src/config.go\<close>: defaults, validation, the gRPC target and the TLS server
  name derived from the endpoint, and the error every bad configuration is reported with.
  Durations are 64-bit nanosecond counts, here \<^typ>\<open>int\<close>; the key-value hooks are pointers or
  interfaces, \<open>None\<close> when nil.
\<close>

type_synonym Duration = int

definition Second :: Duration where "Second = 1000000000"

definition DefaultEvaluateTimeout :: Duration where "DefaultEvaluateTimeout = 5 * Second"
definition DefaultEndorseTimeout :: Duration where "DefaultEndorseTimeout = 15 * Second"
definition DefaultSubmitTimeout :: Duration where "DefaultSubmitTimeout = 5 * Second"
definition DefaultCommitStatusTimeout :: Duration where "DefaultCommitStatusTimeout = 60 * Second"

lemmas Default_defs = DefaultEvaluateTimeout_def DefaultEndorseTimeout_def DefaultSubmitTimeout_def
  DefaultCommitStatusTimeout_def Second_def

record Config =
  PeerEndpoint :: string
  PeerHostOverride :: string
  TLSCertPath :: string
  ClientTLSCertPath :: string
  ClientTLSKeyPath :: string
  KeepAlive :: "nat option"
  DialOptions :: "nat list"
  cfgIdentity :: "Identity option"
  cfgMSPID :: string
  CertPath :: string
  KeyPath :: string
  ChannelName :: string
  ChaincodeName :: string
  ContractName :: string
  EvaluateTimeout :: Duration
  EndorseTimeout :: Duration
  SubmitTimeout :: Duration
  CommitStatusTimeout :: Duration
  StrictErrorCodes :: bool
  cfgLogger :: "Logger option"
  cfgObserver :: "Observer option"

definition withDefaults :: "Config \<Rightarrow> Config" where
  "withDefaults c =
     (let c = (if EvaluateTimeout c = 0 then c\<lparr>EvaluateTimeout := DefaultEvaluateTimeout\<rparr> else c);
          c = (if EndorseTimeout c = 0 then c\<lparr>EndorseTimeout := DefaultEndorseTimeout\<rparr> else c);
          c = (if SubmitTimeout c = 0 then c\<lparr>SubmitTimeout := DefaultSubmitTimeout\<rparr> else c);
          c = (if CommitStatusTimeout c = 0 then c\<lparr>CommitStatusTimeout := DefaultCommitStatusTimeout\<rparr> else c);
          c = (if cfgLogger c = None then c\<lparr>cfgLogger := Some noopLogger\<rparr> else c);
          c = (if cfgObserver c = None then c\<lparr>cfgObserver := Some noopObserver\<rparr> else c)
      in c)"

definition configError :: "err \<Rightarrow> err" where
  "configError e =
     SDKError \<lparr>eKind = KindConfig, eSource = SourceSDK, eCode = 500,
       eMessage = ''invalid configuration: '' @ err_text e, eTxID = '''', eValidationCode = 0,
       eGRPCCode = codes_OK, eDetails = [], eOutcomeUnknown = False\<rparr> (Some e)"

definition require :: "bool \<Rightarrow> string \<Rightarrow> string list" where
  "require bad problem = (if bad then [problem] else [])"

definition blank :: "string \<Rightarrow> bool" where
  "blank s = (TrimSpace s = '''')"

text \<open>The problems in the order the code appends them.\<close>

definition problems :: "Config \<Rightarrow> bool \<Rightarrow> string list" where
  "problems c ownConn =
     (if ownConn
      then require (blank (PeerEndpoint c)) ''PeerEndpoint is required''
         @ require (blank (TLSCertPath c)) ''TLSCertPath is required''
         @ require ((ClientTLSCertPath c = '''') \<noteq> (ClientTLSKeyPath c = ''''))
             ''ClientTLSCertPath and ClientTLSKeyPath must be set together''
      else [])
     @ (if cfgIdentity c = None
        then require (blank (cfgMSPID c)) ''MSPID is required when Identity is nil''
           @ require (blank (CertPath c)) ''CertPath is required when Identity is nil''
           @ require (blank (KeyPath c)) ''KeyPath is required when Identity is nil''
        else [])
     @ require (blank (ChannelName c)) ''ChannelName is required''
     @ require (blank (ChaincodeName c)) ''ChaincodeName is required''
     @ require (list_ex (\<lambda>d. d < 0) [EvaluateTimeout c, EndorseTimeout c, SubmitTimeout c, CommitStatusTimeout c])
         ''timeouts must not be negative''"

definition validate :: "Config \<Rightarrow> bool \<Rightarrow> err option" where
  "validate c ownConn =
     (if problems c ownConn \<noteq> []
      then Some (configError (ErrorString (Join (problems c ownConn) ''; '')))
      else None)"

definition grpcTarget :: "string \<Rightarrow> string" where
  "grpcTarget endpoint =
     (if Contains endpoint ''://'' \<or> HasPrefix endpoint ''dns:'' \<or>
         HasPrefix endpoint ''passthrough:'' \<or> HasPrefix endpoint ''unix:''
      then endpoint else ''dns:///'' @ endpoint)"

definition serverNameFor :: "Config \<Rightarrow> string" where
  "serverNameFor cfg =
     (if PeerHostOverride cfg \<noteq> '''' then PeerHostOverride cfg
      else (let host = PeerEndpoint cfg;
                host = (case LastIndex host ''/'' of Some i \<Rightarrow> drop (i + 1) host | None \<Rightarrow> host);
                host = (case LastIndex host '':'' of Some i \<Rightarrow> take i host | None \<Rightarrow> host)
            in host))"

section \<open>Lemmas\<close>

lemma configError_fields [simp]:
  "asError (Some (configError e)) \<noteq> None"
  "KindOf (Some (configError e)) = KindConfig"
  "IsRetryable (Some (configError e)) = False"
  "IsOutcomeUnknown (Some (configError e)) = False"
  by (simp_all add: configError_def Retryable_def)

lemma withDefaults_fields [simp]:
  "EvaluateTimeout (withDefaults c) = (if EvaluateTimeout c = 0 then DefaultEvaluateTimeout else EvaluateTimeout c)"
  "EndorseTimeout (withDefaults c) = (if EndorseTimeout c = 0 then DefaultEndorseTimeout else EndorseTimeout c)"
  "SubmitTimeout (withDefaults c) = (if SubmitTimeout c = 0 then DefaultSubmitTimeout else SubmitTimeout c)"
  "CommitStatusTimeout (withDefaults c) =
     (if CommitStatusTimeout c = 0 then DefaultCommitStatusTimeout else CommitStatusTimeout c)"
  "cfgLogger (withDefaults c) = (case cfgLogger c of None \<Rightarrow> Some noopLogger | Some l \<Rightarrow> Some l)"
  "cfgObserver (withDefaults c) = (case cfgObserver c of None \<Rightarrow> Some noopObserver | Some l \<Rightarrow> Some l)"
  "cfgIdentity (withDefaults c) = cfgIdentity c"
  "ChannelName (withDefaults c) = ChannelName c"
  "ChaincodeName (withDefaults c) = ChaincodeName c"
  "ContractName (withDefaults c) = ContractName c"
  "StrictErrorCodes (withDefaults c) = StrictErrorCodes c"
  "PeerEndpoint (withDefaults c) = PeerEndpoint c"
  by (auto simp: withDefaults_def Let_def split: option.splits)

text \<open>A configuration a client can run on: positive timeouts and hooks that are not nil.\<close>

definition usable :: "Config \<Rightarrow> bool" where
  "usable c =
     (0 < EvaluateTimeout c \<and> 0 < EndorseTimeout c \<and> 0 < SubmitTimeout c \<and> 0 < CommitStatusTimeout c \<and>
      cfgLogger c \<noteq> None \<and> cfgObserver c \<noteq> None)"

lemma require_Nil [simp]: "require b p = [] \<longleftrightarrow> \<not> b"
  by (simp add: require_def)

lemma validate_timeouts:
  "validate c own = None \<Longrightarrow> 0 \<le> EvaluateTimeout c \<and> 0 \<le> EndorseTimeout c \<and> 0 \<le> SubmitTimeout c \<and> 0 \<le> CommitStatusTimeout c"
  by (auto simp: validate_def problems_def split: if_splits)

lemma validated_usable: "validate c own = None \<Longrightarrow> usable (withDefaults c)"
  using validate_timeouts [of c own] by (auto simp: usable_def Default_defs split: option.splits)

lemma withDefaults_fixed: "usable c \<Longrightarrow> withDefaults c = c"
  by (auto simp: withDefaults_def usable_def)

lemma problems_Nil:
  "problems c own = [] \<longleftrightarrow>
      (own \<longrightarrow> \<not> blank (PeerEndpoint c) \<and> \<not> blank (TLSCertPath c) \<and>
         (ClientTLSCertPath c = [] \<longleftrightarrow> ClientTLSKeyPath c = [])) \<and>
      (cfgIdentity c = None \<longrightarrow> \<not> blank (cfgMSPID c) \<and> \<not> blank (CertPath c) \<and> \<not> blank (KeyPath c)) \<and>
      \<not> blank (ChannelName c) \<and> \<not> blank (ChaincodeName c) \<and>
      0 \<le> EvaluateTimeout c \<and> 0 \<le> EndorseTimeout c \<and> 0 \<le> SubmitTimeout c \<and> 0 \<le> CommitStatusTimeout c"
  by (cases own; cases "cfgIdentity c") (simp_all add: problems_def not_less conj_assoc)

lemma configError_mentions: "sublist (err_text e) (err_text (configError e))"
proof -
  have "\<exists>a. err_text (configError e) = a @ err_text e"
    by (simp add: configError_def Error_Error_def)
  then show ?thesis by (auto simp: suffix_imp_sublist suffix_appendI)
qed

lemma Join_sublist: "x \<in> set xs \<Longrightarrow> sublist x (Join xs sep)"
proof (induction xs sep rule: Join.induct)
  case (3 a b cs sep)
  show ?case
  proof (cases "x = a")
    case False
    with 3 have "sublist x (Join (b # cs) sep)" by simp
    moreover have "sublist (Join (b # cs) sep) (Join (a # b # cs) sep)"
      by (simp add: suffix_imp_sublist suffix_appendI)
    ultimately show ?thesis by (rule sublist_order.order_trans)
  qed simp
qed auto

section \<open>Properties\<close>

text \<open>
  A validated configuration with its defaults is one a client can run on: every phase has
  a positive timeout and logger and observer are set. Explicit timeouts are kept, and applying
  the defaults again changes nothing.
\<close>

theorem withDefaults_usable:
  assumes "validate c own = None"
  shows "usable (withDefaults c) \<and> withDefaults (withDefaults c) = withDefaults c \<and>
    (EvaluateTimeout c \<noteq> 0 \<longrightarrow> EvaluateTimeout (withDefaults c) = EvaluateTimeout c) \<and>
    (EndorseTimeout c \<noteq> 0 \<longrightarrow> EndorseTimeout (withDefaults c) = EndorseTimeout c) \<and>
    (SubmitTimeout c \<noteq> 0 \<longrightarrow> SubmitTimeout (withDefaults c) = SubmitTimeout c) \<and>
    (CommitStatusTimeout c \<noteq> 0 \<longrightarrow> CommitStatusTimeout (withDefaults c) = CommitStatusTimeout c)"
proof -
  have "withDefaults (withDefaults c) = withDefaults c"
    by (rule withDefaults_fixed [OF validated_usable [OF assms]])
  with validated_usable [OF assms] show ?thesis by simp
qed

definition example_config :: Config where
  "example_config =
     \<lparr>PeerEndpoint = ''peer0.org1.example.com:7051'', PeerHostOverride = '''', TLSCertPath = ''ca.crt'',
      ClientTLSCertPath = '''', ClientTLSKeyPath = '''', KeepAlive = None, DialOptions = [],
      cfgIdentity = None, cfgMSPID = ''Org1MSP'', CertPath = ''signcerts'', KeyPath = ''keystore'',
      ChannelName = ''mychannel'', ChaincodeName = ''basic'', ContractName = '''',
      EvaluateTimeout = 0, EndorseTimeout = 7, SubmitTimeout = 0, CommitStatusTimeout = 0,
      StrictErrorCodes = False, cfgLogger = None, cfgObserver = None\<rparr>"

lemma example_not_blank:
  "\<not> blank ''peer0.org1.example.com:7051''" "\<not> blank ''ca.crt''" "\<not> blank ''Org1MSP''"
  "\<not> blank ''signcerts''" "\<not> blank ''keystore''" "\<not> blank ''mychannel''" "\<not> blank ''basic''"
  by code_simp+

lemma example_config_valid: "validate example_config own = None"
  by (simp add: validate_def problems_def example_config_def example_not_blank)

theorem withDefaults_usable_witness:
  "usable (withDefaults example_config) \<and> EndorseTimeout (withDefaults example_config) = 7"
  using withDefaults_usable [OF example_config_valid [of True]] by (simp add: example_config_def)

text \<open>
  C38: validation finds every problem. It succeeds exactly when the required fields are not
  blank, mutual TLS is configured completely or not at all, and no timeout is negative;
  otherwise it returns a configuration error whose message names each problem found.
\<close>

theorem validate_spec:
  "(validate c own = None \<longleftrightarrow>
      (own \<longrightarrow> \<not> blank (PeerEndpoint c) \<and> \<not> blank (TLSCertPath c) \<and>
         (ClientTLSCertPath c = '''' \<longleftrightarrow> ClientTLSKeyPath c = '''')) \<and>
      (cfgIdentity c = None \<longrightarrow> \<not> blank (cfgMSPID c) \<and> \<not> blank (CertPath c) \<and> \<not> blank (KeyPath c)) \<and>
      \<not> blank (ChannelName c) \<and> \<not> blank (ChaincodeName c) \<and>
      0 \<le> EvaluateTimeout c \<and> 0 \<le> EndorseTimeout c \<and> 0 \<le> SubmitTimeout c \<and> 0 \<le> CommitStatusTimeout c) \<and>
   (\<forall>e. validate c own = Some e \<longrightarrow> KindOf (Some e) = KindConfig \<and>
      (\<forall>p \<in> set (problems c own). sublist p (err_text e)))"
proof -
  have "sublist p (err_text e)" if "validate c own = Some e" "p \<in> set (problems c own)" for e p
  proof -
    let ?e = "ErrorString (Join (problems c own) ''; '')"
    have "sublist p (err_text ?e)" using Join_sublist [OF that(2)] by simp
    then have "sublist p (err_text (configError ?e))"
      using configError_mentions by (rule sublist_order.order_trans)
    moreover have "e = configError ?e" using that(1) by (simp add: validate_def split: if_splits)
    ultimately show ?thesis by simp
  qed
  moreover have "KindOf (Some e) = KindConfig" if "validate c own = Some e" for e
    using that by (auto simp: validate_def split: if_splits)
  moreover have "validate c own = None \<longleftrightarrow> problems c own = []"
    by (simp add: validate_def)
  ultimately show ?thesis by (simp only: problems_Nil) blast
qed

theorem validate_spec_witness:
  "validate (example_config\<lparr>ClientTLSCertPath := ''client.crt''\<rparr>) True \<noteq> None
   \<and> validate (example_config\<lparr>ClientTLSCertPath := ''client.crt''\<rparr>) False = None"
  using validate_spec [of "example_config\<lparr>ClientTLSCertPath := ''client.crt''\<rparr>" True]
    example_config_valid [of False]
  by (auto simp: example_config_def validate_def problems_def)

text \<open>
  The gRPC target always names a resolver, and naming it again changes nothing; an
  endpoint without one is kept whole behind \<open>dns:///\<close>.
\<close>

theorem grpcTarget_spec:
  "grpcTarget (grpcTarget e) = grpcTarget e \<and>
   (grpcTarget e = e \<or> grpcTarget e = ''dns:///'' @ e) \<and>
   (Contains (grpcTarget e) ''://'' \<or> HasPrefix (grpcTarget e) ''dns:'' \<or>
    HasPrefix (grpcTarget e) ''passthrough:'' \<or> HasPrefix (grpcTarget e) ''unix:'')"
  by (simp add: grpcTarget_def)

lemma serverNameFor_host_port:
  assumes "CHR ''/'' \<notin> set host" "CHR ''/'' \<notin> set port" "CHR '':'' \<notin> set port"
    and "scheme = '''' \<or> last scheme = CHR ''/''"
    and "PeerHostOverride cfg = ''''" and "PeerEndpoint cfg = scheme @ host @ '':'' @ port"
  shows "serverNameFor cfg = host"
proof -
  have colon: "LastIndex (host @ '':'' @ port) '':'' = Some (length host)"
    using LastIndex_char [of "CHR '':''" port host] assms(3) by simp
  show ?thesis
  proof (cases "scheme = ''''")
    case True
    have "LastIndex (host @ '':'' @ port) ''/'' = None"
      by (rule LastIndex_char_None) (use assms in auto)
    with True colon assms(5,6) show ?thesis by (simp add: serverNameFor_def Let_def)
  next
    case False
    with assms(4) obtain s where s: "scheme = s @ [CHR ''/'']" by (metis append_butlast_last_id)
    have "LastIndex (s @ CHR ''/'' # host @ '':'' @ port) ''/'' = Some (length s)"
      by (rule LastIndex_char) (use assms in auto)
    with s colon assms(5,6) show ?thesis by (simp add: serverNameFor_def Let_def)
  qed
qed

text \<open>
  The TLS server name. An override wins; otherwise, for an endpoint \<open>host:port\<close>, bare or
  behind a scheme that ends in a slash, it is the host.
\<close>

theorem serverNameFor_spec:
  "(PeerHostOverride cfg \<noteq> '''' \<longrightarrow> serverNameFor cfg = PeerHostOverride cfg) \<and>
   (PeerHostOverride cfg = '''' \<and> PeerEndpoint cfg = scheme @ host @ '':'' @ port \<and>
    (scheme = '''' \<or> last scheme = CHR ''/'') \<and> CHR ''/'' \<notin> set (host @ port) \<and> CHR '':'' \<notin> set port
    \<longrightarrow> serverNameFor cfg = host)"
  using serverNameFor_host_port [of host port scheme cfg] by (auto simp: serverNameFor_def)

theorem serverNameFor_spec_witness:
  "serverNameFor (example_config\<lparr>PeerEndpoint := ''dns:///peer0:7051''\<rparr>) = ''peer0''"
  using serverNameFor_spec [of "example_config\<lparr>PeerEndpoint := ''dns:///peer0:7051''\<rparr>" "''dns:///''" "''peer0''" "''7051''"]
  by (simp add: example_config_def)

text \<open>
  A scheme without a slash, which \<open>grpcTarget\<close> accepts as it is, ends up in the server name:
  for \<open>dns:peer0:7051\<close> the client would verify the name \<open>dns:peer0\<close>.
\<close>

lemma serverNameFor_dns_scheme:
  "grpcTarget ''dns:peer0:7051'' = ''dns:peer0:7051'' \<and>
   serverNameFor (example_config\<lparr>PeerEndpoint := ''dns:peer0:7051''\<rparr>) = ''dns:peer0''"
  by code_simp

end
