(* ===== verification/Identity.thy ===== *)
theory Identity
  imports Config
begin

text \<open>
  Identities (\<open>src/identity.go\<close>, \<open>src/identity_hsm.go\<close>): building them from a certificate and a
  signing function, from PEM bytes, from files or MSP directories, or from an HSM, and closing
  them. The X.509 and key functions, the HSM signer factory and the file system are the
  functions of \<open>api\<close>; the decisions on their results are translated.
\<close>

definition errorf :: "string \<Rightarrow> err \<Rightarrow> err" where
  "errorf p e = WrapError (p @ err_text e) e"

definition NewIdentity :: "'w api \<Rightarrow> string \<Rightarrow> nat option \<Rightarrow> nat option \<Rightarrow> ('w, err + Identity) op" where
  "NewIdentity api mspID cert sign =
     (if TrimSpace mspID = '''' then State_Monad.return (Inl (configError (ErrorString ''identity: MSP ID is empty'')))
      else case cert of
        None \<Rightarrow> State_Monad.return (Inl (configError (ErrorString ''identity: certificate is nil'')))
      | Some c \<Rightarrow>
          (case sign of
             None \<Rightarrow> State_Monad.return (Inl (configError (ErrorString ''identity: sign function is nil'')))
           | Some s \<Rightarrow>
               (case NewX509Identity api mspID c of
                  Inl e \<Rightarrow> State_Monad.return (Inl (configError (errorf ''identity: '' e)))
                | Inr x \<Rightarrow>
                    do { a \<leftarrow> alloc;
                         poke (\<lambda>w. w\<lparr>idClose := (idClose w)(a := None)\<rparr>);
                         State_Monad.return (Inr \<lparr>iAddr = a, iX509 = x, iCert = c, iSign = s\<rparr>) })))"

definition checkKeyMatchesCert :: "'w api \<Rightarrow> nat \<Rightarrow> nat \<Rightarrow> err option" where
  "checkKeyMatchesCert api key cert =
     (case Signer_Public api key of
        None \<Rightarrow> Some (ErrorString ''identity: private key type cannot sign'')
      | Some p \<Rightarrow>
          (case PublicKey_Equal api (Certificate_PublicKey api cert) of
             None \<Rightarrow> Some (ErrorString ''identity: private key does not match the certificate'')
           | Some eq \<Rightarrow> if \<not> eq p then Some (ErrorString ''identity: private key does not match the certificate'')
                        else None))"

definition IdentityFromPEM :: "'w api \<Rightarrow> string \<Rightarrow> bytes \<Rightarrow> bytes \<Rightarrow> ('w, err + Identity) op" where
  "IdentityFromPEM api mspID certPEM keyPEM =
     (case CertificateFromPEM api certPEM of
        Inl e \<Rightarrow> State_Monad.return (Inl (configError (errorf ''identity: parse certificate: '' e)))
      | Inr cert \<Rightarrow>
          (case PrivateKeyFromPEM api keyPEM of
             Inl e \<Rightarrow> State_Monad.return (Inl (configError (errorf ''identity: parse private key: '' e)))
           | Inr key \<Rightarrow>
               (case checkKeyMatchesCert api key cert of
                  Some e \<Rightarrow> State_Monad.return (Inl (configError e))
                | None \<Rightarrow>
                    (case NewPrivateKeySign api key of
                       Inl e \<Rightarrow> State_Monad.return (Inl (configError (errorf ''identity: create signer: '' e)))
                     | Inr sign \<Rightarrow> NewIdentity api mspID (Some cert) (Some sign)))))"

text \<open>The names a directory offers: regular and not hidden, in sorted order.\<close>

definition pem_files :: "DirEntry list \<Rightarrow> string list" where
  "pem_files entries =
     sort (map deName (filter (\<lambda>e. \<not> (HasPrefix (deName e) ''.'' \<or> \<not> deIsRegular e)) entries))"

definition readPEMPath :: "'w api \<Rightarrow> string \<Rightarrow> 'w \<Rightarrow> err + bytes" where
  "readPEMPath api p x =
     (case os_Stat api p x of
        Inl e \<Rightarrow> Inl e
      | Inr isDir \<Rightarrow>
          if \<not> isDir then os_ReadFile api p x
          else (case os_ReadDir api p x of
                  Inl e \<Rightarrow> Inl e
                | Inr entries \<Rightarrow>
                    (case pem_files entries of
                       [] \<Rightarrow> Inl (ErrorString (''no files in directory '' @ p))
                     | [f] \<Rightarrow> os_ReadFile api (filepath_Join p f) x
                     | fs \<Rightarrow> Inl (ErrorString (''directory '' @ p @ '' holds '' @ show_int (int (length fs))
                               @ '' files ('' @ Join fs '', '' @ ''); pass the path of one file'')))))"

definition LoadIdentity :: "'w api \<Rightarrow> string \<Rightarrow> string \<Rightarrow> string \<Rightarrow> ('w, err + Identity) op" where
  "LoadIdentity api mspID certPath keyPath =
     do { cert \<leftarrow> inspect (readPEMPath api certPath);
          case cert of
            Inl e \<Rightarrow> State_Monad.return (Inl (configError (errorf ''identity: certificate: '' e)))
          | Inr certPEM \<Rightarrow>
              do { key \<leftarrow> inspect (readPEMPath api keyPath);
                   case key of
                     Inl e \<Rightarrow> State_Monad.return (Inl (configError (errorf ''identity: private key: '' e)))
                   | Inr keyPEM \<Rightarrow> IdentityFromPEM api mspID certPEM keyPEM } }"

definition MSPID :: "'w api \<Rightarrow> Identity \<Rightarrow> string" where
  "MSPID api i = X509Identity_MspID api (iX509 i)"

definition Certificate :: "Identity \<Rightarrow> nat" where
  "Certificate i = iCert i"

definition Identity_Close :: "'w api \<Rightarrow> Identity option \<Rightarrow> ('w, err option) op" where
  "Identity_Close api i =
     (case i of
        None \<Rightarrow> State_Monad.return None
      | Some i \<Rightarrow>
          do { c \<leftarrow> peek (\<lambda>w. idClose w (iAddr i));
               case c of
                 None \<Rightarrow> State_Monad.return None
               | Some c \<Rightarrow>
                   do { poke (\<lambda>w. w\<lparr>idClose := (idClose w)(iAddr i := None)\<rparr>);
                        emit (ESignerClose c);
                        outside (call_close api c) } })"

section \<open>Identities in an HSM\<close>

record HSMOptions =
  hsmLabel :: string
  hsmPin :: string
  hsmIdentifier :: bytes

definition hsm_identifier :: "'w api \<Rightarrow> nat \<Rightarrow> bytes \<Rightarrow> err + bytes" where
  "hsm_identifier api cert ident =
     (if ident = [] then
        (case PublicKey_ECDH api (Certificate_PublicKey api cert) of
           None \<Rightarrow> Inl (configError (ErrorString ''identity: HSM identities must use ECDSA certificates''))
         | Some (Inl e) \<Rightarrow> Inl (configError (errorf ''identity: convert public key: '' e))
         | Some (Inr b) \<Rightarrow> Inr (sha256_Sum api b))
      else Inr ident)"

definition IdentityFromHSM :: "'w api \<Rightarrow> nat option \<Rightarrow> string \<Rightarrow> bytes \<Rightarrow> HSMOptions \<Rightarrow> ('w, err + Identity) op" where
  "IdentityFromHSM api factory mspID certPEM opts =
     (case factory of
        None \<Rightarrow> State_Monad.return (Inl (configError (ErrorString ''identity: HSM signer factory is nil'')))
      | Some f \<Rightarrow>
     (case CertificateFromPEM api certPEM of
        Inl e \<Rightarrow> State_Monad.return (Inl (configError (errorf ''identity: parse certificate: '' e)))
      | Inr cert \<Rightarrow>
     (case hsm_identifier api cert (hsmIdentifier opts) of
        Inl e \<Rightarrow> State_Monad.return (Inl e)
      | Inr keyId \<Rightarrow>
          do { r \<leftarrow> outside (NewHSMSigner api f (hsmLabel opts) (hsmPin opts) keyId);
               case r of
                 Inl e \<Rightarrow> State_Monad.return (Inl (configError (errorf ''identity: open HSM signer: '' e)))
               | Inr (sign, closeFn) \<Rightarrow>
                   do { emit (ESignerOpen closeFn);
                        ident \<leftarrow> NewIdentity api mspID (Some cert) (Some sign);
                        case ident of
                          Inl e \<Rightarrow> do { emit (ESignerClose closeFn);
                                        _ \<leftarrow> outside (call_close api closeFn);
                                        State_Monad.return (Inl e) }
                        | Inr i \<Rightarrow> do { poke (\<lambda>w. w\<lparr>idClose := (idClose w)(iAddr i \<mapsto> closeFn)\<rparr>);
                                        State_Monad.return (Inr i) } } })))"

section \<open>Lemmas\<close>

text \<open>Every constructor fails with a configuration error, and leaves the world as it was if it fails early.\<close>

lemma NewIdentity_cases:
  obtains (error) e where "run_state (NewIdentity api m c s) w = (Inl e, w)" "KindOf (Some e) = KindConfig"
  | (ok) x c' s' where "run_state (NewIdentity api m c s) w =
        (Inr \<lparr>iAddr = fresh w, iX509 = x, iCert = c', iSign = s'\<rparr>,
         w\<lparr>fresh := Suc (fresh w), idClose := (idClose w)(fresh w := None)\<rparr>)"
      "c = Some c'" "s = Some s'" "NewX509Identity api m c' = Inr x" "TrimSpace m \<noteq> ''''"
  by (cases "TrimSpace m = ''''"; cases c; cases s; cases "NewX509Identity api m (the c)")
    (auto simp: NewIdentity_def)

lemma NewIdentity_any_sign:
  assumes "TrimSpace m \<noteq> ''''" and "NewX509Identity api m c = Inr x"
  shows "fst (run_state (NewIdentity api m (Some c) (Some s)) w) =
    Inr \<lparr>iAddr = fresh w, iX509 = x, iCert = c, iSign = s\<rparr>"
  using assms by (simp add: NewIdentity_def)

lemma checkKeyMatchesCert_None:
  "checkKeyMatchesCert api key cert = None \<longleftrightarrow>
   (\<exists>p eq. Signer_Public api key = Some p \<and>
      PublicKey_Equal api (Certificate_PublicKey api cert) = Some eq \<and> eq p)"
  by (auto simp: checkKeyMatchesCert_def split: option.splits)

lemma IdentityFromPEM_ok:
  assumes "run_state (IdentityFromPEM api m certPEM keyPEM) w = (Inr i, w')"
  shows "\<exists>cert key. CertificateFromPEM api certPEM = Inr cert \<and> PrivateKeyFromPEM api keyPEM = Inr key \<and>
    checkKeyMatchesCert api key cert = None \<and> NewPrivateKeySign api key = Inr (iSign i) \<and> iCert i = cert \<and>
    NewX509Identity api m cert = Inr (iX509 i) \<and>
    w' = w\<lparr>fresh := Suc (fresh w), idClose := (idClose w)(fresh w := None)\<rparr> \<and> iAddr i = fresh w"
  using assms
  by (auto simp: IdentityFromPEM_def NewIdentity_def split: sum.splits option.splits if_splits)

lemma IdentityFromPEM_error:
  assumes "run_state (IdentityFromPEM api m certPEM keyPEM) w = (Inl e, w')"
  shows "w' = w \<and> KindOf (Some e) = KindConfig"
  using assms
  by (auto simp: IdentityFromPEM_def NewIdentity_def split: sum.splits option.splits if_splits)

lemma LoadIdentity_error:
  assumes "run_state (LoadIdentity api m cp kp) w = (Inl e, w')"
  shows "w' = w \<and> KindOf (Some e) = KindConfig"
  using assms
  by (auto simp: LoadIdentity_def split: sum.splits dest: IdentityFromPEM_error)

lemma LoadIdentity_ok:
  assumes "run_state (LoadIdentity api m cp kp) w = (Inr i, w')"
  shows "\<exists>certPEM keyPEM. readPEMPath api cp (ext w) = Inr certPEM \<and> readPEMPath api kp (ext w) = Inr keyPEM \<and>
    run_state (IdentityFromPEM api m certPEM keyPEM) w = (Inr i, w')"
  using assms by (auto simp: LoadIdentity_def split: sum.splits)

interpretation identity_close: once_only "Identity_Close api i"
  "\<lambda>w. case i of None \<Rightarrow> True | Some j \<Rightarrow> idClose w (iAddr j) = None" None for api i
  by unfold_locales (auto simp: Identity_Close_def split: option.splits)

text \<open>What closing an identity does: its close function, if it still has one, and nothing else.\<close>

lemma run_Identity_Close:
  "run_state (Identity_Close api (Some i)) w =
     (case idClose w (iAddr i) of
        None \<Rightarrow> (None, w)
      | Some c \<Rightarrow> (fst (call_close api c (ext w)),
           w\<lparr>idClose := (idClose w)(iAddr i := None), trace := trace w @ [ESignerClose c],
             ext := snd (call_close api c (ext w))\<rparr>))"
  by (auto simp: Identity_Close_def split: option.splits)

section \<open>Properties\<close>

text \<open>
  An identity built from PEM, and so one loaded from disk, signs with the key of its
  certificate: if the constructor succeeds, the private key can sign and the certificate's
  public key accepts the key's public part; the identity holds that certificate and a signer of
  that key. A constructor that fails reports a configuration error and changes nothing.
\<close>

theorem IdentityFromPEM_key_matches:
  "case run_state (IdentityFromPEM api m certPEM keyPEM) w of
     (Inr i, w') \<Rightarrow> (\<exists>key p eq. PrivateKeyFromPEM api keyPEM = Inr key \<and>
        CertificateFromPEM api certPEM = Inr (Certificate i) \<and>
        Signer_Public api key = Some p \<and>
        PublicKey_Equal api (Certificate_PublicKey api (Certificate i)) = Some eq \<and> eq p \<and>
        NewPrivateKeySign api key = Inr (iSign i))
   | (Inl e, w') \<Rightarrow> KindOf (Some e) = KindConfig \<and> w' = w"
  by (auto split: prod.splits sum.splits dest!: IdentityFromPEM_ok IdentityFromPEM_error
      simp: checkKeyMatchesCert_None Certificate_def)

lemma pem_files_set:
  "set (pem_files entries) = {deName e | e. e \<in> set entries \<and> deIsRegular e \<and> \<not> HasPrefix (deName e) ''.''}"
  by (auto simp: pem_files_def)

text \<open>
  Reading a path never guesses. For a file, the file is read. For a directory, the bytes of
  a file are returned only if exactly one entry is regular and not hidden, and then they are the
  bytes of that file; with none or several the result is an error, which for several names
  them all.
\<close>

theorem readPEMPath_never_guesses:
  assumes "os_Stat api p x = Inr True" and "os_ReadDir api p x = Inr entries"
  shows "(\<forall>f. pem_files entries = [f] \<longrightarrow> readPEMPath api p x = os_ReadFile api (filepath_Join p f) x) \<and>
    (length (pem_files entries) \<noteq> 1 \<longrightarrow>
       (\<exists>m. readPEMPath api p x = Inl (ErrorString m) \<and>
          (\<forall>f \<in> set (pem_files entries). sublist f m)))"
proof (cases "pem_files entries")
  case (Cons f fs)
  show ?thesis
  proof (cases fs)
    case (Cons g gs)
    have "sublist h (''directory '' @ p @ '' holds '' @ k @ '' files ('' @ Join (f # g # gs) '', '' @ t)"
      if "h \<in> set (f # g # gs)" for h k t
    proof -
      have "sublist h (Join (f # g # gs) '', '')" by (rule Join_sublist [OF that])
      then obtain a b where "Join (f # g # gs) '', '' = a @ h @ b" by (auto simp: sublist_def)
      then show ?thesis
        by (metis (no_types, opaque_lifting) append_assoc sublist_appendI)
    qed
    with assms Cons \<open>pem_files entries = f # fs\<close> show ?thesis
      by (simp add: readPEMPath_def del: append.simps Join.simps)
  qed (use assms \<open>pem_files entries = f # fs\<close> in \<open>simp add: readPEMPath_def\<close>)
qed (use assms in \<open>simp add: readPEMPath_def\<close>)

theorem readPEMPath_never_guesses_witness:
  "readPEMPath calm_api ''keystore'' 0 = Inr ''keystore/abc_sk''"
proof -
  let ?es = "[\<lparr>deName = ''.DS_Store'', deIsRegular = True\<rparr>, \<lparr>deName = ''abc_sk'', deIsRegular = True\<rparr>]"
  have "os_Stat calm_api ''keystore'' 0 = Inr True" "os_ReadDir calm_api ''keystore'' 0 = Inr ?es"
    by (simp_all add: calm_defs)
  from readPEMPath_never_guesses [OF this] have "readPEMPath calm_api ''keystore'' 0 = os_ReadFile calm_api (filepath_Join ''keystore'' ''abc_sk'') 0"
    by (simp add: pem_files_def)
  moreover have "filepath_Join ''keystore'' ''abc_sk'' = ''keystore/abc_sk''" by code_simp
  ultimately show ?thesis by (simp add: calm_defs)
qed

text \<open>
  Closing an identity takes effect once. However often it is closed, its close function is
  called at most once, further calls return no error and change nothing, and closing a nil
  identity does nothing.
\<close>

theorem Identity_Close_once:
  "((\<lambda>w. snd (run_state (Identity_Close api i) w)) ^^ Suc n) w = snd (run_state (Identity_Close api i) w) \<and>
   run_state (Identity_Close api i) (snd (run_state (Identity_Close api i) w)) =
     (None, snd (run_state (Identity_Close api i) w)) \<and>
   run_state (Identity_Close api None) w = (None, w)"
proof -
  have "run_state (Identity_Close api None) w = (None, w)" by (simp add: Identity_Close_def)
  then show ?thesis using identity_close.repeated identity_close.again by blast
qed

lemma IdentityFromHSM_cases:
  obtains (early) e w1 where "run_state (IdentityFromHSM api f m pem opts) w = (Inl e, w1)" "trace w1 = trace w"
  | (late) e w1 c where "run_state (IdentityFromHSM api f m pem opts) w = (Inl e, w1)"
      "trace w1 = trace w @ [ESignerOpen c, ESignerClose c]"
  | (ok) i w1 c where "run_state (IdentityFromHSM api f m pem opts) w = (Inr i, w1)"
      "trace w1 = trace w @ [ESignerOpen c]" "idClose w1 (iAddr i) = Some c"
proof -
  show thesis
  proof (cases "\<exists>g cert k. f = Some g \<and> CertificateFromPEM api pem = Inr cert \<and> hsm_identifier api cert (hsmIdentifier opts) = Inr k")
    case True
    then obtain g cert k where g: "f = Some g" "CertificateFromPEM api pem = Inr cert"
        "hsm_identifier api cert (hsmIdentifier opts) = Inr k" by blast
    obtain r x where r: "NewHSMSigner api g (hsmLabel opts) (hsmPin opts) k (ext w) = (r, x)" by fastforce
    show thesis
    proof (cases r)
      case (Inl e)
      with g r early show thesis by (simp add: IdentityFromHSM_def)
    next
      case (Inr sc)
      obtain s c where sc: "sc = (s, c)" by fastforce
      show thesis
        using NewIdentity_cases [of api m "Some cert" "Some s" "w\<lparr>ext := x, trace := trace w @ [ESignerOpen c]\<rparr>"]
      proof cases
        case error
        with g r Inr sc late show thesis by (simp add: IdentityFromHSM_def)
      next
        case ok
        with g r Inr sc that(3) show thesis by (simp add: IdentityFromHSM_def)
      qed
    qed
  next
    case False
    then have "\<exists>e. run_state (IdentityFromHSM api f m pem opts) w = (Inl e, w)"
      by (auto simp: IdentityFromHSM_def split: option.splits sum.splits)
    with early show thesis by auto
  qed
qed

text \<open>
  C40: an HSM session is never lost. If building an identity from an HSM fails, the signer it
  opened, if any, has been closed; if it succeeds, closing the identity closes that signer.
\<close>

theorem IdentityFromHSM_no_leak:
  "case run_state (IdentityFromHSM api f m pem opts) w of
     (Inl e, w') \<Rightarrow> trace w' = trace w \<or> (\<exists>c. trace w' = trace w @ [ESignerOpen c, ESignerClose c])
   | (Inr i, w') \<Rightarrow> (\<exists>c. trace w' = trace w @ [ESignerOpen c] \<and>
        trace (snd (run_state (Identity_Close api (Some i)) w')) = trace w' @ [ESignerClose c])"
  by (cases rule: IdentityFromHSM_cases [of api f m pem opts w]) (auto simp: run_Identity_Close)

end
