(* ===== verification/Client.thy ===== *)
theory Client
  imports Identity
begin

text \<open>
  The client of \<open>src/client.go\<close>: building one on its own or on a given connection, closing it,
  the options of a call and the default timeout of a phase. The fields \<open>closed\<close> and \<open>closeOnce\<close>
  are in the world, under the address of the client; the other fields do not change once the
  client is built, and \<open>build\<close> never returns a client without a Gateway or identity.
\<close>

section \<open>Hooks\<close>

text \<open>A call on a nil logger or observer panics.\<close>

definition log_line :: "Config \<Rightarrow> level \<Rightarrow> string \<Rightarrow> (string \<times> logval) list \<Rightarrow> ('w, unit) op" where
  "log_line cfg lv msg kv =
     (case cfgLogger cfg of
        None \<Rightarrow> emit EPanic
      | Some l \<Rightarrow> emits (map (\<lambda>(b, ll). ELog b ll) (Logger_emit l lv msg kv)))"

definition observe_call :: "Config \<Rightarrow> CallInfo \<Rightarrow> ('w, unit) op" where
  "observe_call cfg info =
     (case cfgObserver cfg of
        None \<Rightarrow> emit EPanic
      | Some ob \<Rightarrow> emits (map (\<lambda>(f, i). EObserve f i) (ObserveCall ob info)))"

section \<open>Building and closing a client\<close>

record FabricClient =
  fcAddr :: nat
  fcCfg :: Config
  fcConn :: nat
  fcOwnedConn :: "nat option"
  fcId :: Identity
  fcOwnsID :: bool
  fcGw :: nat
  fcTlsHash :: bytes

definition VersionTLS12 :: nat where
  "VersionTLS12 = 0x0303"

definition transportCredentials :: "'w api \<Rightarrow> Config \<Rightarrow> 'w \<Rightarrow> err + nat \<times> bytes" where
  "transportCredentials api cfg x =
     (case os_ReadFile api (TLSCertPath cfg) x of
        Inl e \<Rightarrow> Inl (configError (errorf ''read TLS CA certificate: '' e))
      | Inr caPEM \<Rightarrow>
          if \<not> AppendCertsFromPEM api caPEM
          then Inl (configError (ErrorString (''no PEM certificates found in '' @ TLSCertPath cfg)))
          else (let tlsCfg = \<lparr>tlsRootCAs = caPEM, tlsServerName = serverNameFor cfg,
                          tlsMinVersion = VersionTLS12, tlsCertificate = None\<rparr>
                in if ClientTLSCertPath cfg \<noteq> ''''
                   then (case LoadX509KeyPair api (ClientTLSCertPath cfg) (ClientTLSKeyPath cfg) x of
                           Inl e \<Rightarrow> Inl (configError (errorf ''load client TLS key pair: '' e))
                         | Inr (pair, der) \<Rightarrow>
                             Inr (NewTLS api (tlsCfg\<lparr>tlsCertificate := Some pair\<rparr>), sha256_Sum api der))
                   else Inr (NewTLS api tlsCfg, [])))"

definition connectOptions :: "Config \<Rightarrow> nat \<Rightarrow> bytes \<Rightarrow> Identity \<Rightarrow> ConnectOption list" where
  "connectOptions cfg conn tlsHash ident =
     [WithSign (iSign ident), WithHashSHA256, WithClientConnection conn,
      WithEvaluateTimeout (EvaluateTimeout cfg), WithEndorseTimeout (EndorseTimeout cfg),
      WithSubmitTimeout (SubmitTimeout cfg), WithCommitStatusTimeout (CommitStatusTimeout cfg)]
     @ (if length tlsHash > 0 then [WithTLSClientCertificateHash tlsHash] else [])"

definition connect :: "'w api \<Rightarrow> Config \<Rightarrow> nat \<Rightarrow> bytes \<Rightarrow> Identity \<Rightarrow> ('w, err + nat) op" where
  "connect api cfg conn tlsHash ident =
     do { r \<leftarrow> outside (client_Connect api (iX509 ident) (connectOptions cfg conn tlsHash ident));
          case r of
            Inl e \<Rightarrow> State_Monad.return (Inl (configError (errorf ''connect gateway: '' e)))
          | Inr gw \<Rightarrow> do { emit (EGatewayOpen gw); State_Monad.return (Inr gw) } }"

definition build :: "'w api \<Rightarrow> Config \<Rightarrow> nat \<Rightarrow> bytes \<Rightarrow> ('w, err + FabricClient) op" where
  "build api cfg conn tlsHash =
     do { loaded \<leftarrow> (case cfgIdentity cfg of
                        Some i \<Rightarrow> State_Monad.return (Inr (i, False))
                      | None \<Rightarrow> do { r \<leftarrow> LoadIdentity api (cfgMSPID cfg) (CertPath cfg) (KeyPath cfg);
                                      State_Monad.return (map_sum id (\<lambda>i. (i, True)) r) });
          case loaded of
            Inl e \<Rightarrow> State_Monad.return (Inl e)
          | Inr (i, owns) \<Rightarrow>
              do { r \<leftarrow> connect api cfg conn tlsHash i;
                   case r of
                     Inl e \<Rightarrow> do { _ \<leftarrow> (if owns then Identity_Close api (Some i) else State_Monad.return None);
                                   State_Monad.return (Inl e) }
                   | Inr gw \<Rightarrow>
                       do { a \<leftarrow> alloc;
                            poke (\<lambda>w. w\<lparr>closed := (closed w)(a := False), once := (once w)(a := False)\<rparr>);
                            State_Monad.return (Inr \<lparr>fcAddr = a, fcCfg = cfg, fcConn = conn, fcOwnedConn = None,
                              fcId = i, fcOwnsID = owns, fcGw = gw, fcTlsHash = tlsHash\<rparr>) } } }"

definition dialOptions :: "Config \<Rightarrow> nat \<Rightarrow> DialOption list" where
  "dialOptions cfg creds =
     [WithTransportCredentials creds]
     @ (case KeepAlive cfg of Some k \<Rightarrow> [WithKeepaliveParams k] | None \<Rightarrow> [])
     @ map UserDialOption (DialOptions cfg)"

definition New :: "'w api \<Rightarrow> Config \<Rightarrow> ('w, err + FabricClient) op" where
  "New api cfg0 =
     (case validate cfg0 True of
        Some e \<Rightarrow> State_Monad.return (Inl e)
      | None \<Rightarrow>
          (let cfg = withDefaults cfg0 in
           do { tc \<leftarrow> inspect (transportCredentials api cfg);
                case tc of
                  Inl e \<Rightarrow> State_Monad.return (Inl e)
                | Inr (creds, tlsHash) \<Rightarrow>
                    do { c \<leftarrow> outside (grpc_NewClient api (grpcTarget (PeerEndpoint cfg)) (dialOptions cfg creds));
                         case c of
                           Inl e \<Rightarrow> State_Monad.return (Inl (configError (errorf ''create gRPC client: '' e)))
                         | Inr conn \<Rightarrow>
                             do { emit (EConnOpen conn);
                                  b \<leftarrow> build api cfg conn tlsHash;
                                  case b of
                                    Inl e \<Rightarrow> do { emit (EConnClose conn);
                                                  _ \<leftarrow> outside (Conn_Close api conn);
                                                  State_Monad.return (Inl e) }
                                  | Inr fc \<Rightarrow>
                                      do { log_line cfg LevelInfo ''fabricsdk: client ready''
                                             [(''peer'', LStr (PeerEndpoint cfg)), (''mspID'', LStr (MSPID api (fcId fc))),
                                              (''channel'', LStr (ChannelName cfg)), (''chaincode'', LStr (ChaincodeName cfg))];
                                           State_Monad.return (Inr (fc\<lparr>fcOwnedConn := Some conn\<rparr>)) } } } }))"

definition NewWithConnection :: "'w api \<Rightarrow> nat option \<Rightarrow> Config \<Rightarrow> ('w, err + FabricClient) op" where
  "NewWithConnection api conn cfg =
     (case conn of
        None \<Rightarrow> State_Monad.return (Inl (configError (ErrorString ''connection is nil'')))
      | Some c \<Rightarrow>
          (case validate cfg False of
             Some e \<Rightarrow> State_Monad.return (Inl e)
           | None \<Rightarrow> build api (withDefaults cfg) c []))"

definition errors_Join :: "err option list \<Rightarrow> err option" where
  "errors_Join es =
     (case List.map_filter (\<lambda>e. e) es of [] \<Rightarrow> None | xs \<Rightarrow> Some (JoinError xs))"

definition close_body :: "'w api \<Rightarrow> FabricClient \<Rightarrow> ('w, err option list) op" where
  "close_body api fc =
     do { poke (\<lambda>w. w\<lparr>closed := (closed w)(fcAddr fc := True)\<rparr>);
          emit (EGatewayClose (fcGw fc));
          g \<leftarrow> outside (Gateway_Close api (fcGw fc));
          c \<leftarrow> (case fcOwnedConn fc of
                   None \<Rightarrow> State_Monad.return []
                 | Some conn \<Rightarrow> do { emit (EConnClose conn); r \<leftarrow> outside (Conn_Close api conn); State_Monad.return [r] });
          i \<leftarrow> (if fcOwnsID fc then do { r \<leftarrow> Identity_Close api (Some (fcId fc)); State_Monad.return [r] }
                 else State_Monad.return []);
          State_Monad.return ([g] @ c @ i) }"

definition Close :: "'w api \<Rightarrow> FabricClient \<Rightarrow> ('w, err option) op" where
  "Close api fc =
     do { errs \<leftarrow> once_Do (fcAddr fc) (close_body api fc) [];
          State_Monad.return (errors_Join errs) }"

section \<open>Call options\<close>

record callOptions =
  coArgs :: "bytes list"
  coTransient :: "(string \<times> bytes) list option"
  coOrgs :: "string list"

type_synonym CallOption = "callOptions \<Rightarrow> callOptions"

definition Args :: "string list \<Rightarrow> CallOption" where
  "Args args o' = foldl (\<lambda>q a. q\<lparr>coArgs := coArgs q @ [a]\<rparr>) o' args"

definition BytesArgs :: "bytes list \<Rightarrow> CallOption" where
  "BytesArgs args o' = o'\<lparr>coArgs := coArgs o' @ args\<rparr>"

definition Transient :: "(string \<times> bytes) list option \<Rightarrow> CallOption" where
  "Transient data o' = o'\<lparr>coTransient := data\<rparr>"

definition EndorsingOrgs :: "string list \<Rightarrow> CallOption" where
  "EndorsingOrgs mspIDs o' = o'\<lparr>coOrgs := coOrgs o' @ mspIDs\<rparr>"

definition apply_options :: "CallOption list \<Rightarrow> callOptions" where
  "apply_options opts = foldl (\<lambda>q opt. opt q) \<lparr>coArgs = [], coTransient = None, coOrgs = []\<rparr> opts"

definition proposalOptions :: "CallOption list \<Rightarrow> ProposalOption list" where
  "proposalOptions opts =
     (let q = apply_options opts
      in [WithBytesArguments (coArgs q)]
         @ (case coTransient q of Some t \<Rightarrow> [WithTransient t] | None \<Rightarrow> [])
         @ (if length (coOrgs q) > 0 then [WithEndorsingOrganizations (coOrgs q)] else []))"

section \<open>Default timeouts\<close>

definition withDefaultTimeout :: "'w api \<Rightarrow> Ctx option \<Rightarrow> Duration \<Rightarrow> ('w, Ctx) op" where
  "withDefaultTimeout api ctx d =
     (let c = (case ctx of None \<Rightarrow> Background | Some c \<Rightarrow> c)
      in if Deadline c \<noteq> None \<or> d \<le> 0 then State_Monad.return (WithCancel c)
         else do { now \<leftarrow> outside (time_Now api); State_Monad.return (WithTimeout c now d) })"

section \<open>Lemmas\<close>

lemma run_log_line: "cfgLogger cfg = Some l \<Longrightarrow>
    run_state (log_line cfg lv msg kv) w = ((), w\<lparr>trace := trace w @ map (\<lambda>(b, ll). ELog b ll) (Logger_emit l lv msg kv)\<rparr>)"
  by (simp add: log_line_def)

lemma connect_cases:
  obtains (error) e x where "run_state (connect api cfg conn h i) w = (Inl (configError e), w\<lparr>ext := x\<rparr>)"
  | (ok) g x where "run_state (connect api cfg conn h i) w = (Inr g, w\<lparr>ext := x, trace := trace w @ [EGatewayOpen g]\<rparr>)"
proof (cases "client_Connect api (iX509 i) (connectOptions cfg conn h i) (ext w)")
  case (Pair r x)
  then show thesis using that by (cases r) (simp_all add: connect_def)
qed

text \<open>What building a client does, by outcome.\<close>

lemma build_loaded:
  obtains (error) e w' where "run_state (build api cfg conn h) w = (Inl e, w')" "KindOf (Some e) = KindConfig"
      "trace w' = trace w"
  | (loaded) i w1 where "trace w1 = trace w" "cfgIdentity cfg \<noteq> None \<longrightarrow> cfgIdentity cfg = Some i"
      "\<And>e x. run_state (connect api cfg conn h i) w1 = (Inl (configError e), w1\<lparr>ext := x\<rparr>) \<Longrightarrow>
         run_state (build api cfg conn h) w = (Inl (configError e), w1\<lparr>ext := x\<rparr>)"
      "\<And>g w2. run_state (connect api cfg conn h i) w1 = (Inr g, w2) \<Longrightarrow>
         run_state (build api cfg conn h) w =
           (Inr \<lparr>fcAddr = fresh w2, fcCfg = cfg, fcConn = conn, fcOwnedConn = None, fcId = i,
                 fcOwnsID = (cfgIdentity cfg = None), fcGw = g, fcTlsHash = h\<rparr>,
            w2\<lparr>fresh := Suc (fresh w2), closed := (closed w2)(fresh w2 := False), once := (once w2)(fresh w2 := False)\<rparr>)"
proof (cases "cfgIdentity cfg")
  case (Some i)
  then show thesis by (intro that(2) [of w i]) (simp_all add: build_def)
next
  case None
  obtain r w1 where r: "run_state (LoadIdentity api (cfgMSPID cfg) (CertPath cfg) (KeyPath cfg)) w = (r, w1)"
    by fastforce
  show thesis
  proof (cases r)
    case (Inl e)
    with None r have "run_state (build api cfg conn h) w = (Inl e, w1)" by (simp add: build_def)
    with r Inl show thesis by (intro that(1)) (auto dest: LoadIdentity_error)
  next
    case (Inr i)
    with r have "trace w1 = trace w" "idClose w1 (iAddr i) = None"
      by (auto dest!: LoadIdentity_ok IdentityFromPEM_ok)
    with None Inr r show thesis by (intro that(2) [of w1 i]) (simp_all add: build_def run_Identity_Close)
  qed
qed

lemma build_cases:
  obtains (error) e w' where "run_state (build api cfg conn h) w = (Inl e, w')" "KindOf (Some e) = KindConfig"
      "trace w' = trace w"
  | (ok) fc w' where "run_state (build api cfg conn h) w = (Inr fc, w')" "fcCfg fc = cfg" "fcConn fc = conn"
      "fcOwnedConn fc = None" "trace w' = trace w @ [EGatewayOpen (fcGw fc)]"
      "\<not> closed w' (fcAddr fc)" "\<not> once w' (fcAddr fc)" "fcOwnsID fc \<longleftrightarrow> cfgIdentity cfg = None"
      "cfgIdentity cfg \<noteq> None \<longrightarrow> cfgIdentity cfg = Some (fcId fc)" "fcAddr fc < fresh w'"
proof (cases rule: build_loaded [of api cfg conn h w])
  case (error e w')
  then show thesis by (rule that(1))
next
  case (loaded i w1)
  show thesis
  proof (cases rule: connect_cases [of api cfg conn h i w1])
    case (error e x)
    from loaded(3) [OF this] show thesis by (rule that(1)) (simp_all add: loaded(1))
  next
    case (ok g x)
    from loaded(4) [OF this] show thesis by (rule that(2)) (use loaded(1,2) in auto)
  qed
qed

lemma transportCredentials_error: "transportCredentials api cfg x = Inl e \<Longrightarrow> KindOf (Some e) = KindConfig"
  by (auto simp: transportCredentials_def Let_def split: sum.splits if_splits)

lemma validate_error: "validate cfg own = Some e \<Longrightarrow> KindOf (Some e) = KindConfig"
  by (auto simp: validate_def split: if_splits)

text \<open>A client as \<open>New\<close> and \<open>NewWithConnection\<close> return it: usable, open and not yet closed.\<close>

definition built :: "FabricClient \<Rightarrow> 'w world \<Rightarrow> bool" where
  "built fc w = (usable (fcCfg fc) \<and> \<not> closed w (fcAddr fc) \<and> \<not> once w (fcAddr fc))"

lemma New_cases:
  obtains (early) e w' where "run_state (New api cfg) w = (Inl e, w')" "KindOf (Some e) = KindConfig" "trace w' = trace w"
  | (late) e w' conn where "run_state (New api cfg) w = (Inl e, w')" "KindOf (Some e) = KindConfig"
      "trace w' = trace w @ [EConnOpen conn, EConnClose conn]"
  | (ok) fc w' logs where "run_state (New api cfg) w = (Inr fc, w')" "built fc w'" "fcOwnedConn fc = Some (fcConn fc)"
      "fcCfg fc = withDefaults cfg" "fcOwnsID fc \<longleftrightarrow> cfgIdentity cfg = None"
      "trace w' = trace w @ [EConnOpen (fcConn fc), EGatewayOpen (fcGw fc)] @ map (\<lambda>(b, ll). ELog b ll) logs"
      "fcAddr fc < fresh w'"
proof (cases "validate cfg True")
  case (Some e)
  then have "run_state (New api cfg) w = (Inl e, w)" by (simp add: New_def)
  with Some show thesis by (intro that(1)) (auto dest: validate_error)
next
  case valid: None
  let ?cfg = "withDefaults cfg"
  have us: "usable ?cfg" using validated_usable [OF valid] .
  show thesis
  proof (cases "transportCredentials api ?cfg (ext w)")
    case (Inl e)
    then have "run_state (New api cfg) w = (Inl e, w)" by (simp add: New_def valid Let_def)
    with Inl show thesis by (intro that(1)) (auto dest: transportCredentials_error)
  next
    case (Inr ch)
    obtain creds h where ch: "ch = (creds, h)" by fastforce
    obtain r x where r: "grpc_NewClient api (grpcTarget (PeerEndpoint ?cfg)) (dialOptions ?cfg creds) (ext w) = (r, x)"
      by fastforce
    note New_run = New_def valid Inr ch Let_def r [simplified]
    show thesis
    proof (cases r)
      case (Inl e)
      then have "run_state (New api cfg) w = (Inl (configError (errorf ''create gRPC client: '' e)), w\<lparr>ext := x\<rparr>)"
        by (simp add: New_run)
      then show thesis by (rule that(1)) simp_all
    next
      case (Inr conn)
      let ?w1 = "w\<lparr>ext := x, trace := trace w @ [EConnOpen conn]\<rparr>"
      show thesis
        using build_cases [of api ?cfg conn h ?w1]
      proof cases
        case (error e w')
        then have "run_state (New api cfg) w = (Inl e, w'\<lparr>trace := trace w' @ [EConnClose conn], ext := snd (Conn_Close api conn (ext w'))\<rparr>)"
          by (simp add: New_run Inr)
        then show thesis by (rule that(2)) (use error in simp_all)
      next
        case (ok fc w')
        from us obtain l where l: "cfgLogger ?cfg = Some l" by (auto simp: usable_def)
        have "\<exists>logs. run_state (New api cfg) w = (Inr (fc\<lparr>fcOwnedConn := Some conn\<rparr>), w'\<lparr>trace := trace w' @ map (\<lambda>(b, ll). ELog b ll) logs\<rparr>)"
          using ok(1) by (auto simp: New_run Inr run_log_line [OF l])
        then obtain logs where "run_state (New api cfg) w = (Inr (fc\<lparr>fcOwnedConn := Some conn\<rparr>), w'\<lparr>trace := trace w' @ map (\<lambda>(b, ll). ELog b ll) logs\<rparr>)"
          by blast
        then show thesis by (rule that(3)) (use ok us in \<open>simp_all add: built_def\<close>)
      qed
    qed
  qed
qed

lemma NewWithConnection_cases:
  obtains (error) e w' where "run_state (NewWithConnection api conn cfg) w = (Inl e, w')"
      "KindOf (Some e) = KindConfig" "trace w' = trace w"
  | (ok) fc w' c where "run_state (NewWithConnection api conn cfg) w = (Inr fc, w')" "conn = Some c" "built fc w'"
      "fcConn fc = c" "fcOwnedConn fc = None" "fcOwnsID fc \<longleftrightarrow> cfgIdentity cfg = None"
      "trace w' = trace w @ [EGatewayOpen (fcGw fc)]"
proof (cases conn)
  case None
  then have "run_state (NewWithConnection api conn cfg) w = (Inl (configError (ErrorString ''connection is nil'')), w)"
    by (simp add: NewWithConnection_def)
  then show thesis by (rule that(1)) simp_all
next
  case (Some c)
  show thesis
  proof (cases "validate cfg False")
    case (Some e)
    with \<open>conn = Some c\<close> have "run_state (NewWithConnection api conn cfg) w = (Inl e, w)"
      by (simp add: NewWithConnection_def)
    with Some show thesis by (intro that(1)) (auto dest: validate_error)
  next
    case None
    then have run: "run_state (NewWithConnection api conn cfg) w = run_state (build api (withDefaults cfg) c []) w"
      by (simp add: NewWithConnection_def Some)
    show thesis
      using build_cases [of api "withDefaults cfg" c "[]" w]
    proof cases
      case (error e w')
      with that(1) run show thesis by simp
    next
      case (ok fc w')
      have "built fc w'" using ok validated_usable [OF None] by (simp add: built_def)
      from that(2) [OF _ Some this] ok run show thesis by simp
    qed
  qed
qed

lemma run_close_body:
  "trace (snd (run_state (close_body api fc) w)) = trace w @ [EGatewayClose (fcGw fc)]
     @ (case fcOwnedConn fc of None \<Rightarrow> [] | Some c \<Rightarrow> [EConnClose c])
     @ (if fcOwnsID fc then (case idClose w (iAddr (fcId fc)) of None \<Rightarrow> [] | Some k \<Rightarrow> [ESignerClose k]) else [])"
  "closed (snd (run_state (close_body api fc) w)) (fcAddr fc)"
  "once (snd (run_state (close_body api fc) w)) = once w"
  by (auto simp: close_body_def run_Identity_Close split: option.splits)

lemma errors_Join_Nil [simp]: "errors_Join [] = None"
  by (simp add: errors_Join_def map_filter_def)

lemma run_Close:
  "run_state (Close api fc) w =
     (if once w (fcAddr fc) then (None, w)
      else apfst errors_Join (run_state (close_body api fc) (w\<lparr>once := (once w)(fcAddr fc := True)\<rparr>)))"
  by (cases "run_state (close_body api fc) (w\<lparr>once := (once w)(fcAddr fc := True)\<rparr>)")
    (simp add: Close_def once_Do_def)

interpretation client_close: once_only "Close api fc" "\<lambda>w. once w (fcAddr fc)" None for api fc
  by unfold_locales (simp_all add: run_Close run_close_body)

section \<open>Properties\<close>

text \<open>
  C35: building a client leaks nothing and never fails half way. If \<open>New\<close> fails, it reports a
  configuration error and a connection it opened has been closed; if it succeeds, the client is
  open, has a configuration it can run on, owns the connection, and exactly that connection and
  one Gateway were opened.
\<close>

theorem New_no_leak:
  "case run_state (New api cfg) w of
     (Inl e, w') \<Rightarrow> KindOf (Some e) = KindConfig \<and>
        (trace w' = trace w \<or> (\<exists>c. trace w' = trace w @ [EConnOpen c, EConnClose c]))
   | (Inr fc, w') \<Rightarrow> built fc w' \<and> fcOwnedConn fc = Some (fcConn fc) \<and>
        (\<exists>logs. trace w' = trace w @ [EConnOpen (fcConn fc), EGatewayOpen (fcGw fc)] @ map (\<lambda>(b, ll). ELog b ll) logs)"
  by (cases rule: New_cases [of api cfg w]) auto

text \<open>
  A client on a given connection never closes that connection: neither building nor closing
  it does, however often it is closed. Building opens one Gateway, and closing closes it once.
\<close>

theorem NewWithConnection_keeps_connection:
  "case run_state (NewWithConnection api conn cfg) w of
     (Inl e, w') \<Rightarrow> KindOf (Some e) = KindConfig \<and> trace w' = trace w
   | (Inr fc, w') \<Rightarrow> built fc w' \<and> trace w' = trace w @ [EGatewayOpen (fcGw fc)] \<and>
        (\<exists>ks. trace (((\<lambda>v. snd (run_state (Close api fc) v)) ^^ Suc n) w')
            = trace w' @ [EGatewayClose (fcGw fc)] @ map ESignerClose ks)"
proof (cases rule: NewWithConnection_cases [of api conn cfg w])
  case (ok fc w' c)
  have "\<exists>ks. trace (snd (run_state (Close api fc) w')) = trace w' @ [EGatewayClose (fcGw fc)] @ map ESignerClose ks"
  proof (cases "fcOwnsID fc \<and> idClose w' (iAddr (fcId fc)) \<noteq> None")
    case True
    then obtain k where "idClose w' (iAddr (fcId fc)) = Some k" by blast
    with True ok show ?thesis by (intro exI [of _ "[k]"]) (simp add: run_Close run_close_body built_def)
  next
    case False
    with ok show ?thesis by (intro exI [of _ "[]"]) (auto simp: run_Close run_close_body built_def)
  qed
  with ok show ?thesis by (simp only: client_close.repeated) simp
qed simp

text \<open>
  \<open>Close\<close> releases exactly what the client owns, in order and once: its Gateway, the
  connection if \<open>New\<close> opened it, and the identity's signer if the client loaded the identity.
  It marks the client closed; every further call returns no error and changes nothing.
\<close>

theorem Close_releases_once:
  assumes "built fc w"
  shows "(trace (((\<lambda>v. snd (run_state (Close api fc) v)) ^^ Suc n) w) = trace w @ [EGatewayClose (fcGw fc)]
       @ (case fcOwnedConn fc of None \<Rightarrow> [] | Some c \<Rightarrow> [EConnClose c])
       @ (if fcOwnsID fc then (case idClose w (iAddr (fcId fc)) of None \<Rightarrow> [] | Some k \<Rightarrow> [ESignerClose k]) else [])) \<and>
    closed (((\<lambda>v. snd (run_state (Close api fc) v)) ^^ Suc n) w) (fcAddr fc) \<and>
    fst (run_state (Close api fc) (((\<lambda>v. snd (run_state (Close api fc) v)) ^^ Suc n) w)) = None"
  using assms
  by (simp only: client_close.repeated client_close.again fst_conv)
    (simp add: run_Close run_close_body built_def)

definition example_identity :: Identity where
  "example_identity = \<lparr>iAddr = 1000, iX509 = 0, iCert = 0, iSign = 0\<rparr>"

definition example_client :: FabricClient where
  "example_client =
     \<lparr>fcAddr = 2000, fcCfg = withDefaults (example_config\<lparr>cfgIdentity := Some example_identity\<rparr>), fcConn = 5,
      fcOwnedConn = Some 5, fcId = example_identity, fcOwnsID = False, fcGw = 6, fcTlsHash = []\<rparr>"

lemma example_client_built: "built example_client calm_world"
  by (simp add: built_def example_client_def calm_world_def example_config_def usable_def Default_defs)

theorem Close_releases_once_witness:
  "trace (((\<lambda>v. snd (run_state (Close calm_api example_client) v)) ^^ Suc 3) calm_world) = [EGatewayClose 6, EConnClose 5]"
  using Close_releases_once [OF example_client_built, where api = calm_api and n = 3]
  by (simp add: example_client_def calm_world_def del: funpow.simps)

datatype call_option = OArgs "string list" | OBytes "bytes list"
  | OTransient "(string \<times> bytes) list option" | OOrgs "string list"

fun option_of :: "call_option \<Rightarrow> CallOption" where
  "option_of (OArgs xs) = Args xs"
| "option_of (OBytes xs) = BytesArgs xs"
| "option_of (OTransient t) = Transient t"
| "option_of (OOrgs xs) = EndorsingOrgs xs"

fun args_of :: "call_option \<Rightarrow> bytes list" where
  "args_of (OArgs xs) = xs"
| "args_of (OBytes xs) = xs"
| "args_of _ = []"

fun orgs_of :: "call_option \<Rightarrow> string list" where
  "orgs_of (OOrgs xs) = xs"
| "orgs_of _ = []"

fun last_transient :: "(string \<times> bytes) list option \<Rightarrow> call_option list \<Rightarrow> (string \<times> bytes) list option" where
  "last_transient t [] = t"
| "last_transient t (OTransient t' # os) = last_transient t' os"
| "last_transient t (_ # os) = last_transient t os"

lemma Args_eq: "Args xs q = q\<lparr>coArgs := coArgs q @ xs\<rparr>"
  by (induction xs arbitrary: q) (simp_all add: Args_def)

lemma apply_options_from:
  "foldl (\<lambda>q opt. opt q) q (map option_of os) =
     q\<lparr>coArgs := coArgs q @ concat (map args_of os), coTransient := last_transient (coTransient q) os,
       coOrgs := coOrgs q @ concat (map orgs_of os)\<rparr>"
proof (induction os arbitrary: q)
  case (Cons x os)
  then show ?case by (cases x) (simp_all add: Args_eq BytesArgs_def Transient_def EndorsingOrgs_def)
qed simp

text \<open>
  The options of a call. Whatever options are given, in whatever order, the proposal gets
  all arguments in the order given, the transient data of the last option that sets it, and all
  endorsing organizations in order; the latter two only if there are any.
\<close>

theorem proposalOptions_spec:
  "proposalOptions (map option_of os) =
     [WithBytesArguments (concat (map args_of os))]
     @ (case last_transient None os of Some t \<Rightarrow> [WithTransient t] | None \<Rightarrow> [])
     @ (if concat (map orgs_of os) = [] then [] else [WithEndorsingOrganizations (concat (map orgs_of os))])"
  by (simp add: proposalOptions_def apply_options_def apply_options_from Let_def)

text \<open>
  The context of a phase. The context passed on derives from the caller's, so its
  cancellation is honoured; a deadline of the caller is kept as it is; without one, a positive
  default bounds the phase from the time the context is made. Nothing else happens.
\<close>

theorem withDefaultTimeout_spec:
  "case run_state (withDefaultTimeout api ctx d) w of (c, w') \<Rightarrow>
     ctx_caller c = Option.bind ctx ctx_caller \<and> trace w' = trace w \<and>
     (case Option.bind ctx Deadline of
        Some dl \<Rightarrow> Deadline c = Some dl \<and> w' = w
      | None \<Rightarrow> Deadline c = (if 0 < d then Some (fst (time_Now api (ext w)) + d) else None))"
  by (cases ctx) (auto simp: withDefaultTimeout_def WithTimeout_def Let_def split: option.splits)

lemma build_fields:
  "run_state (build api cfg conn h) w = (Inr fc, w') \<Longrightarrow> fcCfg fc = cfg \<and> fcConn fc = conn \<and> fcTlsHash fc = h"
  by (auto simp: build_def split: option.splits sum.splits prod.splits)

lemma transportCredentials_ok:
  assumes "transportCredentials api cfg x = Inr (creds, h)"
  obtains t where "creds = NewTLS api t" "os_ReadFile api (TLSCertPath cfg) x = Inr (tlsRootCAs t)" "AppendCertsFromPEM api (tlsRootCAs t)"
    "tlsServerName t = serverNameFor cfg" "tlsMinVersion t = VersionTLS12"
    "if ClientTLSCertPath cfg = '''' then tlsCertificate t = None \<and> h = []
     else (\<exists>pair der. LoadX509KeyPair api (ClientTLSCertPath cfg) (ClientTLSKeyPath cfg) x = Inr (pair, der) \<and>
             tlsCertificate t = Some pair \<and> h = sha256_Sum api der)"
proof -
  from assms obtain ca where ca: "os_ReadFile api (TLSCertPath cfg) x = Inr ca" "AppendCertsFromPEM api ca"
    by (auto simp: transportCredentials_def split: sum.splits if_splits)
  let ?t = "\<lparr>tlsRootCAs = ca, tlsServerName = serverNameFor cfg, tlsMinVersion = VersionTLS12, tlsCertificate = None\<rparr>"
  show thesis
  proof (cases "ClientTLSCertPath cfg = ''''")
    case True
    show thesis by (rule that [of ?t]) (use assms ca True in \<open>simp_all add: transportCredentials_def Let_def\<close>)
  next
    case False
    with assms ca obtain pair der where pd: "LoadX509KeyPair api (ClientTLSCertPath cfg) (ClientTLSKeyPath cfg) x = Inr (pair, der)"
      by (auto simp: transportCredentials_def Let_def split: sum.splits)
    show thesis by (rule that [of "?t\<lparr>tlsCertificate := Some pair\<rparr>"]) (use assms ca False pd in \<open>simp_all add: transportCredentials_def Let_def\<close>)
  qed
qed


definition example_tls_config :: Config where
  "example_tls_config = example_config\<lparr>cfgIdentity := Some example_identity, ClientTLSCertPath := ''client.crt'', ClientTLSKeyPath := ''client.key''\<rparr>"


end
