(* ===== verification/Contract.thy ===== *)
theory Contract
  imports Client
begin

text \<open>
  Contract handles (\<open>src/contract.go\<close> and the methods of \<open>src/client.go\<close> that delegate to them):
  choosing the Gateway of a handle's identity, evaluating, the three phases of a submitted
  transaction, pending transactions, and the two ledger queries through \<open>qscc\<close>. Each operation
  is one function on the world; its deferred calls run in Go's order, last registered first.
  The methods run to completion one at a time; goroutines that share a pending transaction are
  the subject of \<open>Shared_Pending\<close>.
\<close>

section \<open>Handles\<close>

record Contract =
  ctFc :: FabricClient
  ctId :: "Identity option"
  ctChannel :: string
  ctChaincode :: string
  ctContract :: string

definition FabricClient_Contract :: "FabricClient \<Rightarrow> Contract" where
  "FabricClient_Contract fc =
     \<lparr>ctFc = fc, ctId = Some (fcId fc), ctChannel = ChannelName (fcCfg fc),
      ctChaincode = ChaincodeName (fcCfg fc), ctContract = ContractName (fcCfg fc)\<rparr>"

definition WithIdentity :: "Contract \<Rightarrow> Identity option \<Rightarrow> Contract" where
  "WithIdentity c i = c\<lparr>ctId := i\<rparr>"

definition WithTarget :: "Contract \<Rightarrow> string \<Rightarrow> string \<Rightarrow> string \<Rightarrow> Contract" where
  "WithTarget c channel chaincode contractName =
     c\<lparr>ctChannel := channel, ctChaincode := chaincode, ctContract := contractName\<rparr>"

definition Target :: "FabricClient \<Rightarrow> string \<Rightarrow> string \<Rightarrow> string \<Rightarrow> Contract" where
  "Target fc channel chaincode contractName = WithTarget (FabricClient_Contract fc) channel chaincode contractName"

definition FabricClient_WithIdentity :: "FabricClient \<Rightarrow> Identity option \<Rightarrow> Contract" where
  "FabricClient_WithIdentity fc i = WithIdentity (FabricClient_Contract fc) i"

definition Channel :: "Contract \<Rightarrow> string" where
  "Channel c = ctChannel c"

definition Chaincode :: "Contract \<Rightarrow> string" where
  "Chaincode c = ctChaincode c"

definition Contract_ContractName :: "Contract \<Rightarrow> string" where
  "Contract_ContractName c = ctContract c"

definition Contract_Identity :: "Contract \<Rightarrow> Identity option" where
  "Contract_Identity c = ctId c"

definition FabricClient_Identity :: "FabricClient \<Rightarrow> Identity" where
  "FabricClient_Identity fc = fcId fc"

abbreviation ctCfg :: "Contract \<Rightarrow> Config" where
  "ctCfg c \<equiv> fcCfg (ctFc c)"

section \<open>The Gateway of a handle\<close>

text \<open>The release function that comes with a Gateway: nothing, or closing the Gateway.\<close>

datatype release = NoRelease | CloseGateway nat

definition run_release :: "'w api \<Rightarrow> release \<Rightarrow> ('w, unit) op" where
  "run_release api r =
     (case r of
        NoRelease \<Rightarrow> State_Monad.return ()
      | CloseGateway gw \<Rightarrow> do { emit (EGatewayClose gw); _ \<leftarrow> outside (Gateway_Close api gw); State_Monad.return () })"

definition client_closed :: err where
  "client_closed = SDKError (newError KindConfig SourceSDK ''client is closed'') None"

definition gateway :: "'w api \<Rightarrow> Contract \<Rightarrow> ('w, err + nat \<times> release) op" where
  "gateway api c =
     do { cl \<leftarrow> peek (\<lambda>w. closed w (fcAddr (ctFc c)));
          if cl then State_Monad.return (Inl client_closed)
          else case ctId c of
            None \<Rightarrow> State_Monad.return (Inl (configError (ErrorString ''identity is nil'')))
          | Some i \<Rightarrow>
              if iAddr i = iAddr (fcId (ctFc c)) then State_Monad.return (Inr (fcGw (ctFc c), NoRelease))
              else do { r \<leftarrow> connect api (ctCfg c) (fcConn (ctFc c)) (fcTlsHash (ctFc c)) i;
                        case r of
                          Inl e \<Rightarrow> State_Monad.return (Inl e)
                        | Inr gw \<Rightarrow> State_Monad.return (Inr (gw, CloseGateway gw)) } }"

definition target :: "Contract \<Rightarrow> nat \<Rightarrow> ContractRef" where
  "target c gw =
     \<lparr>crGateway = gw, crChannel = ctChannel c, crChaincode = ctChaincode c,
      crName = (if ctContract c \<noteq> '''' then Some (ctContract c) else None)\<rparr>"

definition now :: "'w api \<Rightarrow> ('w, int) op" where
  "now api = outside (time_Now api)"

definition observe :: "'w api \<Rightarrow> Contract \<Rightarrow> string \<Rightarrow> string \<Rightarrow> string \<Rightarrow> int \<Rightarrow> err option \<Rightarrow> ('w, unit) op" where
  "observe api c op fn txID start err =
     do { t \<leftarrow> now api;
          observe_call (ctCfg c)
            \<lparr>ciOperation = op, ciChannel = ctChannel c, ciChaincode = ctChaincode c, ciContract = ctContract c,
             ciFunction = fn, ciMSPID = (case ctId c of None \<Rightarrow> '''' | Some i \<Rightarrow> MSPID api i),
             ciTxID = txID, ciDuration = t - start, ciErr = err\<rparr>;
          if err \<noteq> None
          then log_line (ctCfg c) LevelError (''fabricsdk: '' @ op @ '' failed'')
                 [(''fn'', LStr fn), (''txID'', LStr txID), (''kind'', LStr (Kind_string (KindOf err)))]
          else State_Monad.return () }"

definition err_of :: "err + 'a \<Rightarrow> err option" where
  "err_of r = (case r of Inl e \<Rightarrow> Some e | Inr _ \<Rightarrow> None)"

text \<open>\<open>classify\<close> on an error that is not nil; its result is never nil (\<open>classify_is_typed\<close>).\<close>

definition classifyErr :: "'w api \<Rightarrow> err \<Rightarrow> string \<Rightarrow> phase \<Rightarrow> bool \<Rightarrow> err" where
  "classifyErr api e txID ph strict =
     (case classify (apiLib api) (Some e) txID ph strict of Some x \<Rightarrow> x | None \<Rightarrow> e)"

section \<open>Evaluate\<close>

text \<open>The body of \<open>EvaluateWith\<close> with its deferred release; it also returns the transaction ID reached.\<close>

definition evaluate_body :: "'w api \<Rightarrow> Contract \<Rightarrow> Ctx option \<Rightarrow> string \<Rightarrow> CallOption list \<Rightarrow> ('w, string \<times> (err + bytes)) op" where
  "evaluate_body api c ctx fn opts =
     do { g \<leftarrow> gateway api c;
          case g of
            Inl e \<Rightarrow> State_Monad.return ('''', Inl e)
          | Inr (gw, release) \<Rightarrow>
              do { emit (EProposal (target c gw) fn (proposalOptions opts));
                   p \<leftarrow> outside (NewProposal api (target c gw) fn (proposalOptions opts));
                   case p of
                     Inl e \<Rightarrow> do { run_release api release; State_Monad.return ('''', Inl (configError e)) }
                   | Inr proposal \<Rightarrow>
                       (let txID = Proposal_TransactionID api proposal in
                        do { ectx \<leftarrow> withDefaultTimeout api ctx (EvaluateTimeout (ctCfg c));
                             emit (EEvaluate proposal ectx);
                             r \<leftarrow> outside (Proposal_Evaluate api proposal ectx);
                             run_release api release;
                             State_Monad.return (txID,
                               case r of
                                 Inl e \<Rightarrow> Inl (classifyErr api e txID phaseEvaluate (StrictErrorCodes (ctCfg c)))
                               | Inr b \<Rightarrow> Inr b) }) } }"

definition EvaluateWith :: "'w api \<Rightarrow> Contract \<Rightarrow> Ctx option \<Rightarrow> string \<Rightarrow> CallOption list \<Rightarrow> ('w, err + bytes) op" where
  "EvaluateWith api c ctx fn opts =
     do { start \<leftarrow> now api;
          (txID, r) \<leftarrow> evaluate_body api c ctx fn opts;
          observe api c OpEvaluate fn txID start (err_of r);
          State_Monad.return r }"

definition Evaluate :: "'w api \<Rightarrow> Contract \<Rightarrow> Ctx option \<Rightarrow> string \<Rightarrow> string list \<Rightarrow> ('w, err + bytes) op" where
  "Evaluate api c ctx fn args = EvaluateWith api c ctx fn [Args args]"

section \<open>Submit\<close>

record TxResult =
  trTxID :: string
  trBlockNumber :: uint64
  trPayload :: bytes

record PendingTx =
  pAddr :: nat
  pTxID :: string
  pPayload :: bytes
  pContract :: Contract
  pFn :: string
  pCommit :: nat
  pRelease :: release

text \<open>The endorse phase of \<open>SubmitAsync\<close>, with its observation.\<close>

definition endorse_phase :: "'w api \<Rightarrow> Contract \<Rightarrow> Ctx option \<Rightarrow> string \<Rightarrow> nat \<Rightarrow> ('w, err + nat) op" where
  "endorse_phase api c ctx fn proposal =
     (let txID = Proposal_TransactionID api proposal in
      do { start \<leftarrow> now api;
           ectx \<leftarrow> withDefaultTimeout api ctx (EndorseTimeout (ctCfg c));
           emit (EEndorse proposal ectx);
           r \<leftarrow> outside (Proposal_Endorse api proposal ectx);
           case r of
             Inl e \<Rightarrow> (let e' = classifyErr api e txID phaseEndorse (StrictErrorCodes (ctCfg c)) in
                       do { observe api c OpEndorse fn txID start (Some e'); State_Monad.return (Inl e') })
           | Inr tx \<Rightarrow> do { observe api c OpEndorse fn txID start None; State_Monad.return (Inr tx) } })"

definition submit_phase :: "'w api \<Rightarrow> Contract \<Rightarrow> Ctx option \<Rightarrow> string \<Rightarrow> string \<Rightarrow> nat \<Rightarrow> ('w, err + nat) op" where
  "submit_phase api c ctx fn txID tx =
     do { start \<leftarrow> now api;
          sctx \<leftarrow> withDefaultTimeout api ctx (SubmitTimeout (ctCfg c));
          emit (ESubmit tx sctx);
          r \<leftarrow> outside (Transaction_Submit api tx sctx);
          case r of
            Inl e \<Rightarrow> (let e' = classifyErr api e txID phaseSubmit (StrictErrorCodes (ctCfg c)) in
                      do { observe api c OpSubmit fn txID start (Some e'); State_Monad.return (Inl e') })
          | Inr commit \<Rightarrow> do { observe api c OpSubmit fn txID start None; State_Monad.return (Inr commit) } }"

definition SubmitAsync :: "'w api \<Rightarrow> Contract \<Rightarrow> Ctx option \<Rightarrow> string \<Rightarrow> CallOption list \<Rightarrow> ('w, err + PendingTx) op" where
  "SubmitAsync api c ctx fn opts =
     do { g \<leftarrow> gateway api c;
          case g of
            Inl e \<Rightarrow> State_Monad.return (Inl e)
          | Inr (gw, release) \<Rightarrow>
              do { emit (EProposal (target c gw) fn (proposalOptions opts));
                   p \<leftarrow> outside (NewProposal api (target c gw) fn (proposalOptions opts));
                   case p of
                     Inl e \<Rightarrow> do { run_release api release; State_Monad.return (Inl (configError e)) }
                   | Inr proposal \<Rightarrow>
                       do { t \<leftarrow> endorse_phase api c ctx fn proposal;
                            case t of
                              Inl e \<Rightarrow> do { run_release api release; State_Monad.return (Inl e) }
                            | Inr tx \<Rightarrow>
                                do { m \<leftarrow> submit_phase api c ctx fn (Proposal_TransactionID api proposal) tx;
                                     case m of
                                       Inl e \<Rightarrow> do { run_release api release; State_Monad.return (Inl e) }
                                     | Inr commit \<Rightarrow>
                                         do { a \<leftarrow> alloc;
                                              poke (\<lambda>w. w\<lparr>once := (once w)(a := False)\<rparr>);
                                              State_Monad.return (Inr
                                                \<lparr>pAddr = a, pTxID = Proposal_TransactionID api proposal,
                                                 pPayload = Transaction_Result api tx, pContract = c, pFn = fn,
                                                 pCommit = commit, pRelease = release\<rparr>) } } } } }"

definition Release :: "'w api \<Rightarrow> PendingTx \<Rightarrow> ('w, unit) op" where
  "Release api p = once_Do (pAddr p) (run_release api (pRelease p)) ()"

definition wait_body :: "'w api \<Rightarrow> PendingTx \<Rightarrow> Ctx option \<Rightarrow> ('w, err + TxResult) op" where
  "wait_body api p ctx =
     do { cctx \<leftarrow> withDefaultTimeout api ctx (CommitStatusTimeout (ctCfg (pContract p)));
          emit (ECommitStatus (pCommit p) cctx);
          r \<leftarrow> outside (Commit_Status api (pCommit p) cctx);
          case r of
            Inl e \<Rightarrow> State_Monad.return (Inl (classifyErr api e (pTxID p) phaseCommitStatus True))
          | Inr st \<Rightarrow>
              do { Release api p;
                   if \<not> csSuccessful st
                   then State_Monad.return (Inl (commitFailure (apiLib api) (pTxID p) (csCode st) None))
                   else do { log_line (ctCfg (pContract p)) LevelInfo ''fabricsdk: committed''
                               [(''fn'', LStr (pFn p)), (''txID'', LStr (pTxID p)), (''block'', LNum (csBlockNumber st))];
                             State_Monad.return (Inr \<lparr>trTxID = pTxID p, trBlockNumber = csBlockNumber st,
                               trPayload = pPayload p\<rparr>) } } }"

definition Wait :: "'w api \<Rightarrow> PendingTx \<Rightarrow> Ctx option \<Rightarrow> ('w, err + TxResult) op" where
  "Wait api p ctx =
     do { start \<leftarrow> now api;
          r \<leftarrow> wait_body api p ctx;
          observe api (pContract p) OpCommit (pFn p) (pTxID p) start (err_of r);
          State_Monad.return r }"

definition SubmitWith :: "'w api \<Rightarrow> Contract \<Rightarrow> Ctx option \<Rightarrow> string \<Rightarrow> CallOption list \<Rightarrow> ('w, err + TxResult) op" where
  "SubmitWith api c ctx fn opts =
     do { p \<leftarrow> SubmitAsync api c ctx fn opts;
          case p of
            Inl e \<Rightarrow> State_Monad.return (Inl e)
          | Inr pending \<Rightarrow> Wait api pending ctx }"

definition Submit :: "'w api \<Rightarrow> Contract \<Rightarrow> Ctx option \<Rightarrow> string \<Rightarrow> string list \<Rightarrow> ('w, err + TxResult) op" where
  "Submit api c ctx fn args = SubmitWith api c ctx fn [Args args]"

section \<open>Ledger queries\<close>

record TxStatus =
  tsTxID :: string
  tsFound :: bool
  tsValidationCode :: TxValidationCode
  tsValid :: bool

definition noSuchTx :: string where
  "noSuchTx = ''no such transaction ID''"

definition mentions :: "lib \<Rightarrow> err \<Rightarrow> string \<Rightarrow> bool" where
  "mentions L err t =
     (let st = status_Convert L err
      in if Contains (stMessage st) t then True
         else if list_ex (\<lambda>d. Contains (dMessage d) t) (gatewayDetails st) then True
         else Contains (err_text err) t)"

definition qscc :: "'w api \<Rightarrow> Contract \<Rightarrow> Ctx option \<Rightarrow> string \<Rightarrow> string list \<Rightarrow> ('w, err + bytes) op" where
  "qscc api c ctx fn args =
     do { g \<leftarrow> gateway api c;
          case g of
            Inl e \<Rightarrow> State_Monad.return (Inl e)
          | Inr (gw, release) \<Rightarrow>
              (let ref = \<lparr>crGateway = gw, crChannel = ctChannel c, crChaincode = ''qscc'', crName = None\<rparr> in
               do { emit (EProposal ref fn [WithArguments args]);
                    p \<leftarrow> outside (NewProposal api ref fn [WithArguments args]);
                    case p of
                      Inl e \<Rightarrow> do { run_release api release; State_Monad.return (Inl (configError e)) }
                    | Inr proposal \<Rightarrow>
                        do { ectx \<leftarrow> withDefaultTimeout api ctx (EvaluateTimeout (ctCfg c));
                             emit (EEvaluate proposal ectx);
                             r \<leftarrow> outside (Proposal_Evaluate api proposal ectx);
                             run_release api release;
                             State_Monad.return r } }) }"

definition decode_error :: "string \<Rightarrow> err \<Rightarrow> err" where
  "decode_error msg e =
     SDKError \<lparr>eKind = KindInternal, eSource = SourceSDK, eCode = 500, eMessage = msg, eTxID = '''',
       eValidationCode = 0, eGRPCCode = codes_OK, eDetails = [], eOutcomeUnknown = False\<rparr> (Some e)"

definition tx_status_of :: "'w api \<Rightarrow> string \<Rightarrow> err + bytes \<Rightarrow> err + TxStatus" where
  "tx_status_of api txID raw =
     (case raw of
        Inl e \<Rightarrow>
          if mentions (apiLib api) e noSuchTx
          then Inr \<lparr>tsTxID = txID, tsFound = False, tsValidationCode = 0, tsValid = False\<rparr>
          else Inl (classifyErr api e '''' phaseEvaluate True)
      | Inr b \<Rightarrow>
          (case Unmarshal_ProcessedTransaction api b of
             Inl e \<Rightarrow> Inl (decode_error ''decode ProcessedTransaction'' e)
           | Inr vc \<Rightarrow> Inr \<lparr>tsTxID = txID, tsFound = True, tsValidationCode = vc,
                           tsValid = (vc = TxValidationCode_VALID)\<rparr>))"

definition Contract_TxStatus :: "'w api \<Rightarrow> Contract \<Rightarrow> Ctx option \<Rightarrow> string \<Rightarrow> ('w, err + TxStatus) op" where
  "Contract_TxStatus api c ctx txID =
     do { start \<leftarrow> now api;
          raw \<leftarrow> qscc api c ctx ''GetTransactionByID'' [ctChannel c, txID];
          observe api c OpTxStatus ''GetTransactionByID'' txID start (err_of (tx_status_of api txID raw));
          State_Monad.return (tx_status_of api txID raw) }"

definition Height :: "'w api \<Rightarrow> Contract \<Rightarrow> Ctx option \<Rightarrow> ('w, err + uint64) op" where
  "Height api c ctx =
     do { raw \<leftarrow> qscc api c ctx ''GetChainInfo'' [ctChannel c];
          case raw of
            Inl e \<Rightarrow> State_Monad.return (Inl (classifyErr api e '''' phaseEvaluate True))
          | Inr b \<Rightarrow>
              (case Unmarshal_BlockchainInfo api b of
                 Inl e \<Rightarrow> State_Monad.return (Inl (decode_error ''decode BlockchainInfo'' e))
               | Inr h \<Rightarrow> State_Monad.return (Inr h)) }"

section \<open>The client's own methods\<close>

definition FabricClient_EvaluateWith :: "'w api \<Rightarrow> FabricClient \<Rightarrow> Ctx option \<Rightarrow> string \<Rightarrow> CallOption list \<Rightarrow> ('w, err + bytes) op" where
  "FabricClient_EvaluateWith api fc ctx fn opts = EvaluateWith api (FabricClient_Contract fc) ctx fn opts"

definition FabricClient_Evaluate :: "'w api \<Rightarrow> FabricClient \<Rightarrow> Ctx option \<Rightarrow> string \<Rightarrow> string list \<Rightarrow> ('w, err + bytes) op" where
  "FabricClient_Evaluate api fc ctx fn args = Evaluate api (FabricClient_Contract fc) ctx fn args"

definition FabricClient_Submit :: "'w api \<Rightarrow> FabricClient \<Rightarrow> Ctx option \<Rightarrow> string \<Rightarrow> string list \<Rightarrow> ('w, err + TxResult) op" where
  "FabricClient_Submit api fc ctx fn args = Submit api (FabricClient_Contract fc) ctx fn args"

definition FabricClient_SubmitWith :: "'w api \<Rightarrow> FabricClient \<Rightarrow> Ctx option \<Rightarrow> string \<Rightarrow> CallOption list \<Rightarrow> ('w, err + TxResult) op" where
  "FabricClient_SubmitWith api fc ctx fn opts = SubmitWith api (FabricClient_Contract fc) ctx fn opts"

definition FabricClient_SubmitAsync :: "'w api \<Rightarrow> FabricClient \<Rightarrow> Ctx option \<Rightarrow> string \<Rightarrow> CallOption list \<Rightarrow> ('w, err + PendingTx) op" where
  "FabricClient_SubmitAsync api fc ctx fn opts = SubmitAsync api (FabricClient_Contract fc) ctx fn opts"

definition FabricClient_TxStatus :: "'w api \<Rightarrow> FabricClient \<Rightarrow> Ctx option \<Rightarrow> string \<Rightarrow> ('w, err + TxStatus) op" where
  "FabricClient_TxStatus api fc ctx txID = Contract_TxStatus api (FabricClient_Contract fc) ctx txID"

definition FabricClient_Height :: "'w api \<Rightarrow> FabricClient \<Rightarrow> Ctx option \<Rightarrow> ('w, err + uint64) op" where
  "FabricClient_Height api fc ctx = Height api (FabricClient_Contract fc) ctx"

end
