(* ===== verification/Contract_Calls.thy ===== *)
theory Contract_Calls
  imports Contract
begin

text \<open>
  What the operations of a contract handle do: how each runs, by the outcome of the calls it
  makes; the protocol of a submitted transaction as a relation (\<open>submission\<close>) and that \<open>Submit\<close>
  implements it; and the properties of evaluating, submitting, waiting, looking a transaction up
  and of a closed client, each over the trace of effects an operation adds to the world.
\<close>

section \<open>How the operations run\<close>

text \<open>The effects of a call that are not hooks of the application.\<close>

fun is_hook :: "effect \<Rightarrow> bool" where
  "is_hook (ELog b l) = True"
| "is_hook (EObserve f i) = True"
| "is_hook _ = False"

definition calls :: "effect list \<Rightarrow> effect list" where
  "calls tr = filter (\<lambda>e. \<not> is_hook e) tr"

fun observed :: "effect list \<Rightarrow> CallInfo list" where
  "observed [] = []"
| "observed (EObserve f i # es) = i # observed es"
| "observed (_ # es) = observed es"

fun logged :: "effect list \<Rightarrow> logline list" where
  "logged [] = []"
| "logged (ELog b l # es) = l # logged es"
| "logged (_ # es) = logged es"

text \<open>What an operation added to the trace.\<close>

definition added :: "'w world \<Rightarrow> 'w world \<Rightarrow> effect list" where
  "added w w' = drop (length (trace w)) (trace w')"

lemma added_append [simp]: "trace w' = trace w @ es \<Longrightarrow> added w w' = es"
  by (simp add: added_def)

lemma calls_simps [simp]:
  "calls [] = []" "calls (a @ b) = calls a @ calls b"
  "calls (e # es) = (if is_hook e then calls es else e # calls es)"
  by (simp_all add: calls_def)

lemma observed_append [simp]: "observed (a @ b) = observed a @ observed b"
  by (induction a rule: observed.induct) auto

lemma logged_append [simp]: "logged (a @ b) = logged a @ logged b"
  by (induction a rule: logged.induct) auto

lemma observed_hooks [simp]:
  "observed (map (\<lambda>(f, i). EObserve f i) xs) = map snd xs"
  "observed (map (\<lambda>(b, l). ELog b l) ys) = []"
  "logged (map (\<lambda>(f, i). EObserve f i) xs) = []"
  "logged (map (\<lambda>(b, l). ELog b l) ys) = map snd ys"
  "calls (map (\<lambda>(f, i). EObserve f i) xs) = []"
  "calls (map (\<lambda>(b, l). ELog b l) ys) = []"
  by (induction xs; induction ys; force)+

text \<open>The effects of \<open>observe\<close> and of a log line.\<close>

definition log_effects :: "Config \<Rightarrow> level \<Rightarrow> string \<Rightarrow> (string \<times> logval) list \<Rightarrow> effect list" where
  "log_effects cfg lv msg kv =
     (case cfgLogger cfg of None \<Rightarrow> [EPanic] | Some l \<Rightarrow> map (\<lambda>(b, ll). ELog b ll) (Logger_emit l lv msg kv))"

definition call_info :: "'w api \<Rightarrow> Contract \<Rightarrow> string \<Rightarrow> string \<Rightarrow> string \<Rightarrow> int \<Rightarrow> err option \<Rightarrow> CallInfo" where
  "call_info api c op fn txID dur err =
     \<lparr>ciOperation = op, ciChannel = ctChannel c, ciChaincode = ctChaincode c, ciContract = ctContract c,
      ciFunction = fn, ciMSPID = (case ctId c of None \<Rightarrow> '''' | Some i \<Rightarrow> MSPID api i),
      ciTxID = txID, ciDuration = dur, ciErr = err\<rparr>"

definition failure_line :: "string \<Rightarrow> string \<Rightarrow> string \<Rightarrow> err option \<Rightarrow> logline" where
  "failure_line op fn txID err =
     \<lparr>llLevel = LevelError, llMsg = ''fabricsdk: '' @ op @ '' failed'',
      llKeys = [(''fn'', LStr fn), (''txID'', LStr txID), (''kind'', LStr (Kind_string (KindOf err)))]\<rparr>"

definition observe_effects :: "'w api \<Rightarrow> Contract \<Rightarrow> string \<Rightarrow> string \<Rightarrow> string \<Rightarrow> int \<Rightarrow> err option \<Rightarrow> effect list" where
  "observe_effects api c op fn txID dur err =
     (case cfgObserver (ctCfg c) of None \<Rightarrow> [EPanic]
      | Some ob \<Rightarrow> map (\<lambda>(f, i). EObserve f i) (ObserveCall ob (call_info api c op fn txID dur err)))
     @ (if err = None then [] else log_effects (ctCfg c) LevelError (''fabricsdk: '' @ op @ '' failed'')
          [(''fn'', LStr fn), (''txID'', LStr txID), (''kind'', LStr (Kind_string (KindOf err)))])"

lemma run_log_line_effects [run_simps]:
  "run_state (log_line cfg lv msg kv) w = ((), w\<lparr>trace := trace w @ log_effects cfg lv msg kv\<rparr>)"
  by (simp add: log_line_def log_effects_def split: option.splits)

lemma run_observe [run_simps]:
  "run_state (observe api c op fn txID start err) w =
     ((), w\<lparr>ext := snd (time_Now api (ext w)),
            trace := trace w @ observe_effects api c op fn txID (fst (time_Now api (ext w)) - start) err\<rparr>)"
  by (auto simp: observe_def now_def observe_call_def observe_effects_def call_info_def run_log_line_effects
      split: option.splits)

lemma log_effects_usable [simp]:
  assumes "usable cfg"
  shows "calls (log_effects cfg lv msg kv) = []" "observed (log_effects cfg lv msg kv) = []"
    "set (logged (log_effects cfg lv msg kv)) \<subseteq> {\<lparr>llLevel = lv, llMsg = msg, llKeys = kv\<rparr>}"
proof -
  from assms obtain l where l: "cfgLogger cfg = Some l" by (auto simp: usable_def)
  show "calls (log_effects cfg lv msg kv) = []" "observed (log_effects cfg lv msg kv) = []"
    by (simp_all add: log_effects_def l)
  show "set (logged (log_effects cfg lv msg kv)) \<subseteq> {\<lparr>llLevel = lv, llMsg = msg, llKeys = kv\<rparr>}"
    by (cases l) (simp_all add: log_effects_def \<open>cfgLogger cfg = Some l\<close>)
qed

lemma observe_effects_usable [simp]:
  assumes "usable (ctCfg c)"
  shows "calls (observe_effects api c op fn txID dur err) = []"
    "set (logged (observe_effects api c op fn txID dur err)) \<subseteq> {failure_line op fn txID err}"
proof -
  from assms obtain ob where ob: "cfgObserver (ctCfg c) = Some ob" by (auto simp: usable_def)
  show "calls (observe_effects api c op fn txID dur err) = []"
    using assms by (simp add: observe_effects_def ob)
  show "set (logged (observe_effects api c op fn txID dur err)) \<subseteq> {failure_line op fn txID err}"
    using log_effects_usable(3) [OF assms] by (auto simp: observe_effects_def ob failure_line_def)
qed

lemma observe_effects_observed:
  assumes "cfgObserver (ctCfg c) = Some (ObserverFunc f)" and "usable (ctCfg c)"
  shows "observed (observe_effects api c op fn txID dur err) = [call_info api c op fn txID dur err]"
  using assms by (simp add: observe_effects_def)

text \<open>The context of a phase.\<close>

definition phase_ctx :: "'w api \<Rightarrow> Ctx option \<Rightarrow> Duration \<Rightarrow> 'w \<Rightarrow> Ctx" where
  "phase_ctx api ctx d x =
     (let c = (case ctx of None \<Rightarrow> Background | Some c \<Rightarrow> c)
      in if Deadline c \<noteq> None \<or> d \<le> 0 then WithCancel c else WithTimeout c (fst (time_Now api x)) d)"

definition phase_ext :: "'w api \<Rightarrow> Ctx option \<Rightarrow> Duration \<Rightarrow> 'w \<Rightarrow> 'w" where
  "phase_ext api ctx d x =
     (if Option.bind ctx Deadline \<noteq> None \<or> d \<le> 0 then x else snd (time_Now api x))"

lemma run_withDefaultTimeout [run_simps]:
  "run_state (withDefaultTimeout api ctx d) w = (phase_ctx api ctx d (ext w), w\<lparr>ext := phase_ext api ctx d (ext w)\<rparr>)"
  by (cases ctx) (auto simp: withDefaultTimeout_def phase_ctx_def phase_ext_def Let_def)

text \<open>
  What a phase promises of its context: the caller's cancellation, and the caller's deadline or,
  without one, a deadline its timeout after a reading of the clock.
\<close>

definition phase_bound :: "'w api \<Rightarrow> Ctx option \<Rightarrow> Duration \<Rightarrow> Ctx \<Rightarrow> bool" where
  "phase_bound api ctx d c =
     (ctx_caller c = Option.bind ctx ctx_caller \<and>
      (case Option.bind ctx Deadline of
         Some dl \<Rightarrow> Deadline c = Some dl
       | None \<Rightarrow> (\<exists>x. Deadline c = Some (fst (time_Now api x) + d))))"

lemma phase_ctx_bound: "0 < d \<Longrightarrow> phase_bound api ctx d (phase_ctx api ctx d x)"
  by (cases ctx) (auto simp: phase_bound_def phase_ctx_def WithTimeout_def Let_def split: option.splits)

text \<open>The Gateway of a handle, by outcome.\<close>

fun opens :: "release \<Rightarrow> effect list" where
  "opens NoRelease = []"
| "opens (CloseGateway g) = [EGatewayOpen g]"

fun closes :: "release \<Rightarrow> effect list" where
  "closes NoRelease = []"
| "closes (CloseGateway g) = [EGatewayClose g]"

lemma opens_closes [simp]:
  "calls (opens r) = opens r" "calls (closes r) = closes r"
  "observed (opens r) = []" "observed (closes r) = []" "logged (opens r) = []" "logged (closes r) = []"
  by (cases r; simp)+

definition release_ext :: "'w api \<Rightarrow> release \<Rightarrow> 'w \<Rightarrow> 'w" where
  "release_ext api r x = (case r of NoRelease \<Rightarrow> x | CloseGateway g \<Rightarrow> snd (Gateway_Close api g x))"

lemma run_run_release [run_simps]:
  "run_state (run_release api r) w = ((), w\<lparr>ext := release_ext api r (ext w), trace := trace w @ closes r\<rparr>)"
  by (cases r) (simp_all add: run_release_def release_ext_def)

text \<open>A failure before anything was sent: an \<open>*Error\<close> of kind \<open>CONFIG\<close> whose outcome is not open.\<close>

definition config_failure :: "err \<Rightarrow> bool" where
  "config_failure e = (\<exists>x c. e = SDKError x c \<and> eKind x = KindConfig \<and> \<not> eOutcomeUnknown x)"

lemma config_failure_intros [simp]: "config_failure (configError e)" "config_failure client_closed"
  by (simp_all add: config_failure_def configError_def client_closed_def)

lemma config_failureD:
  "config_failure e \<Longrightarrow> asError (Some e) \<noteq> None \<and> KindOf (Some e) = KindConfig \<and>
     \<not> IsOutcomeUnknown (Some e) \<and> \<not> IsRetryable (Some e)"
  by (auto simp: config_failure_def Retryable_def)

text \<open>A handle that signs with the identity of its client, and so uses the client's Gateway.\<close>

definition own :: "Contract \<Rightarrow> bool" where
  "own c = (\<exists>i. ctId c = Some i \<and> iAddr i = iAddr (fcId (ctFc c)))"

lemma gateway_cases:
  obtains (refused) e x where "run_state (gateway api c) w = (Inl e, w\<lparr>ext := x\<rparr>)" "config_failure e"
      "\<not> own c \<or> closed w (fcAddr (ctFc c))"
  | (ok) g r x where "run_state (gateway api c) w = (Inr (g, r), w\<lparr>ext := x, trace := trace w @ opens r\<rparr>)"
      "\<not> closed w (fcAddr (ctFc c))" "r = NoRelease \<or> r = CloseGateway g"
      "\<exists>i. ctId c = Some i \<and> (r = NoRelease \<longleftrightarrow> iAddr i = iAddr (fcId (ctFc c)))"
      "r = NoRelease \<longrightarrow> g = fcGw (ctFc c)" "own c \<longrightarrow> r = NoRelease"
proof (cases "closed w (fcAddr (ctFc c))")
  case True
  then have "run_state (gateway api c) w = (Inl client_closed, w\<lparr>ext := ext w\<rparr>)" by (simp add: gateway_def)
  then show thesis by (rule that(1)) (simp_all add: True)
next
  case op: False
  show thesis
  proof (cases "ctId c")
    case None
    with op have "run_state (gateway api c) w = (Inl (configError (ErrorString ''identity is nil'')), w\<lparr>ext := ext w\<rparr>)"
      by (simp add: gateway_def)
    then show thesis by (rule that(1)) (simp_all add: own_def None)
  next
    case (Some i)
    show thesis
    proof (cases "iAddr i = iAddr (fcId (ctFc c))")
      case True
      with op Some have "run_state (gateway api c) w =
          (Inr (fcGw (ctFc c), NoRelease), w\<lparr>ext := ext w, trace := trace w @ opens NoRelease\<rparr>)"
        by (simp add: gateway_def)
      then show thesis by (rule that(2)) (use op Some True in auto)
    next
      case False
      show thesis
        using connect_cases [of api "ctCfg c" "fcConn (ctFc c)" "fcTlsHash (ctFc c)" i w]
      proof cases
        case (error e x)
        with op Some False have "run_state (gateway api c) w = (Inl (configError e), w\<lparr>ext := x\<rparr>)"
          by (simp add: gateway_def)
        then show thesis by (rule that(1)) (simp_all add: own_def Some False)
      next
        case (ok g x)
        with op Some False have "run_state (gateway api c) w =
            (Inr (g, CloseGateway g), w\<lparr>ext := x, trace := trace w @ opens (CloseGateway g)\<rparr>)"
          by (simp add: gateway_def)
        then show thesis by (rule that(2)) (use op Some False in \<open>auto simp: own_def\<close>)
      qed
    qed
  qed
qed

lemma gateway_closed: "closed w (fcAddr (ctFc c)) \<Longrightarrow> run_state (gateway api c) w = (Inl client_closed, w)"
  by (simp add: gateway_def)

lemma classifyErr_eq: "classify (apiLib api) (Some e) t ph s = Some (classifyErr api e t ph s)"
  using cls.typed [of "apiLib api" e t ph s] by (auto simp: classifyErr_def)

lemma classifyErr_typed: "\<exists>x c. classifyErr api e t ph s = SDKError x c"
  using cls.typed [of "apiLib api" e t ph s] by (auto simp: classifyErr_def)

section \<open>The operations by outcome\<close>

text \<open>The transaction ID, result and trace of an evaluation, by the call that ends it.\<close>

lemma evaluate_body_cases:
  obtains (refused) e x where "run_state (evaluate_body api c ctx fn opts) w = (('''', Inl e), w\<lparr>ext := x\<rparr>)"
      "config_failure e" "\<not> own c \<or> closed w (fcAddr (ctFc c))"
  | (invalid) e x g r where "run_state (evaluate_body api c ctx fn opts) w =
      (('''', Inl (configError e)), w\<lparr>ext := x, trace := trace w @ opens r @ [EProposal (target c g) fn (proposalOptions opts)] @ closes r\<rparr>)"
      "own c \<longrightarrow> r = NoRelease"
  | (called) res x y g r p where "run_state (evaluate_body api c ctx fn opts) w =
      ((Proposal_TransactionID api p, map_sum (\<lambda>e. classifyErr api e (Proposal_TransactionID api p) phaseEvaluate (StrictErrorCodes (ctCfg c))) id res),
       w\<lparr>ext := x, trace := trace w @ opens r @ [EProposal (target c g) fn (proposalOptions opts),
           EEvaluate p (phase_ctx api ctx (EvaluateTimeout (ctCfg c)) y)] @ closes r\<rparr>)"
      "\<not> closed w (fcAddr (ctFc c))"
      "res = fst (Proposal_Evaluate api p (phase_ctx api ctx (EvaluateTimeout (ctCfg c)) y) (phase_ext api ctx (EvaluateTimeout (ctCfg c)) y))"
      "own c \<longrightarrow> r = NoRelease"
proof (cases rule: gateway_cases [of api c w])
  case (refused e x)
  from refused have "run_state (evaluate_body api c ctx fn opts) w = (('''', Inl e), w\<lparr>ext := x\<rparr>)"
    by (simp add: evaluate_body_def)
  then show thesis by (rule that(1)) (fact refused)+
next
  case (ok g r x)
  let ?d = "EvaluateTimeout (ctCfg c)"
  obtain p y where p: "NewProposal api (target c g) fn (proposalOptions opts) x = (p, y)" by fastforce
  show thesis
  proof (cases p)
    case (Inl e)
    with p ok(1,6) show thesis
      by (intro that(2) [where x = "release_ext api r y"]) (simp_all add: evaluate_body_def run_simps Let_def)
  next
    case (Inr pr)
    obtain res z where res: "Proposal_Evaluate api pr (phase_ctx api ctx ?d y) (phase_ext api ctx ?d y) = (res, z)" by fastforce
    from p ok(1) Inr res have "run_state (evaluate_body api c ctx fn opts) w =
      ((Proposal_TransactionID api pr, map_sum (\<lambda>e. classifyErr api e (Proposal_TransactionID api pr) phaseEvaluate (StrictErrorCodes (ctCfg c))) id res),
       w\<lparr>ext := release_ext api r z, trace := trace w @ opens r @ [EProposal (target c g) fn (proposalOptions opts),
           EEvaluate pr (phase_ctx api ctx ?d y)] @ closes r\<rparr>)"
      by (cases res) (simp_all add: evaluate_body_def run_simps Let_def)
    then show thesis by (rule that(3)) (use ok res in simp_all)
  qed
qed

lemma qscc_cases:
  obtains (refused) e x where "run_state (qscc api c ctx fn args) w = (Inl e, w\<lparr>ext := x\<rparr>)"
      "config_failure e" "\<not> own c \<or> closed w (fcAddr (ctFc c))"
  | (invalid) e x r ref where "run_state (qscc api c ctx fn args) w =
      (Inl (configError e), w\<lparr>ext := x, trace := trace w @ opens r @ [EProposal ref fn [WithArguments args]] @ closes r\<rparr>)"
      "crChannel ref = ctChannel c" "crChaincode ref = ''qscc''" "own c \<longrightarrow> r = NoRelease"
  | (called) res x y ref r p where "run_state (qscc api c ctx fn args) w =
      (res, w\<lparr>ext := x, trace := trace w @ opens r @ [EProposal ref fn [WithArguments args],
           EEvaluate p (phase_ctx api ctx (EvaluateTimeout (ctCfg c)) y)] @ closes r\<rparr>)"
      "\<not> closed w (fcAddr (ctFc c))" "crChannel ref = ctChannel c" "crChaincode ref = ''qscc''"
      "res = fst (Proposal_Evaluate api p (phase_ctx api ctx (EvaluateTimeout (ctCfg c)) y) (phase_ext api ctx (EvaluateTimeout (ctCfg c)) y))"
      "own c \<longrightarrow> r = NoRelease"
proof (cases rule: gateway_cases [of api c w])
  case (refused e x)
  from refused have "run_state (qscc api c ctx fn args) w = (Inl e, w\<lparr>ext := x\<rparr>)"
    by (simp add: qscc_def)
  then show thesis by (rule that(1)) (fact refused)+
next
  case (ok g r x)
  let ?d = "EvaluateTimeout (ctCfg c)"
  let ?ref = "\<lparr>crGateway = g, crChannel = ctChannel c, crChaincode = ''qscc'', crName = None\<rparr>"
  obtain p y where p: "NewProposal api ?ref fn [WithArguments args] x = (p, y)" by fastforce
  show thesis
  proof (cases p)
    case (Inl e)
    with p ok(1,6) show thesis
      by (intro that(2) [where x = "release_ext api r y" and ref = ?ref]) (simp_all add: qscc_def run_simps Let_def)
  next
    case (Inr pr)
    obtain res z where res: "Proposal_Evaluate api pr (phase_ctx api ctx ?d y) (phase_ext api ctx ?d y) = (res, z)" by fastforce
    from p ok(1) Inr res have "run_state (qscc api c ctx fn args) w =
      (res, w\<lparr>ext := release_ext api r z, trace := trace w @ opens r @ [EProposal ?ref fn [WithArguments args],
           EEvaluate pr (phase_ctx api ctx ?d y)] @ closes r\<rparr>)"
      by (simp add: qscc_def run_simps Let_def)
    then show thesis by (rule that(3)) (use ok res in simp_all)
  qed
qed

text \<open>The two phases of a submission.\<close>

lemma endorse_phase_cases:
  obtains (failed) e x y d where "run_state (endorse_phase api c ctx fn p) w =
      (Inl (classifyErr api e (Proposal_TransactionID api p) phaseEndorse (StrictErrorCodes (ctCfg c))),
       w\<lparr>ext := x, trace := trace w @ [EEndorse p (phase_ctx api ctx (EndorseTimeout (ctCfg c)) y)]
         @ observe_effects api c OpEndorse fn (Proposal_TransactionID api p) d
             (Some (classifyErr api e (Proposal_TransactionID api p) phaseEndorse (StrictErrorCodes (ctCfg c))))\<rparr>)"
      "fst (Proposal_Endorse api p (phase_ctx api ctx (EndorseTimeout (ctCfg c)) y) (phase_ext api ctx (EndorseTimeout (ctCfg c)) y)) = Inl e"
  | (ok) tx x y d where "run_state (endorse_phase api c ctx fn p) w =
      (Inr tx, w\<lparr>ext := x, trace := trace w @ [EEndorse p (phase_ctx api ctx (EndorseTimeout (ctCfg c)) y)]
         @ observe_effects api c OpEndorse fn (Proposal_TransactionID api p) d None\<rparr>)"
      "fst (Proposal_Endorse api p (phase_ctx api ctx (EndorseTimeout (ctCfg c)) y) (phase_ext api ctx (EndorseTimeout (ctCfg c)) y)) = Inr tx"
proof -
  let ?d = "EndorseTimeout (ctCfg c)"
  obtain s y where s: "time_Now api (ext w) = (s, y)" by fastforce
  obtain r z where r: "Proposal_Endorse api p (phase_ctx api ctx ?d y) (phase_ext api ctx ?d y) = (r, z)" by fastforce
  show thesis
  proof (cases r)
    case (Inl e)
    show thesis by (rule that(1) [where y = y]) (use Inl s r in \<open>simp_all add: endorse_phase_def now_def run_simps Let_def\<close>)
  next
    case (Inr tx)
    show thesis by (rule that(2) [where y = y]) (use Inr s r in \<open>simp_all add: endorse_phase_def now_def run_simps Let_def\<close>)
  qed
qed

lemma submit_phase_cases:
  obtains (failed) e x y d where "run_state (submit_phase api c ctx fn t tx) w =
      (Inl (classifyErr api e t phaseSubmit (StrictErrorCodes (ctCfg c))),
       w\<lparr>ext := x, trace := trace w @ [ESubmit tx (phase_ctx api ctx (SubmitTimeout (ctCfg c)) y)]
         @ observe_effects api c OpSubmit fn t d (Some (classifyErr api e t phaseSubmit (StrictErrorCodes (ctCfg c))))\<rparr>)"
      "fst (Transaction_Submit api tx (phase_ctx api ctx (SubmitTimeout (ctCfg c)) y) (phase_ext api ctx (SubmitTimeout (ctCfg c)) y)) = Inl e"
  | (ok) m x y d where "run_state (submit_phase api c ctx fn t tx) w =
      (Inr m, w\<lparr>ext := x, trace := trace w @ [ESubmit tx (phase_ctx api ctx (SubmitTimeout (ctCfg c)) y)]
         @ observe_effects api c OpSubmit fn t d None\<rparr>)"
      "fst (Transaction_Submit api tx (phase_ctx api ctx (SubmitTimeout (ctCfg c)) y) (phase_ext api ctx (SubmitTimeout (ctCfg c)) y)) = Inr m"
proof -
  let ?d = "SubmitTimeout (ctCfg c)"
  obtain s y where s: "time_Now api (ext w) = (s, y)" by fastforce
  obtain r z where r: "Transaction_Submit api tx (phase_ctx api ctx ?d y) (phase_ext api ctx ?d y) = (r, z)" by fastforce
  show thesis
  proof (cases r)
    case (Inl e)
    show thesis by (rule that(1) [where y = y]) (use Inl s r in \<open>simp_all add: submit_phase_def now_def run_simps Let_def\<close>)
  next
    case (Inr tx)
    show thesis by (rule that(2) [where y = y]) (use Inr s r in \<open>simp_all add: submit_phase_def now_def run_simps Let_def\<close>)
  qed
qed

text \<open>
  The effects of a submission up to the phase it reached, without the release of its Gateway.
\<close>

definition proposed :: "Contract \<Rightarrow> string \<Rightarrow> CallOption list \<Rightarrow> nat \<Rightarrow> release \<Rightarrow> effect list" where
  "proposed c fn opts g r = opens r @ [EProposal (target c g) fn (proposalOptions opts)]"

definition endorse_effects :: "'w api \<Rightarrow> Contract \<Rightarrow> Ctx option \<Rightarrow> string \<Rightarrow> nat \<Rightarrow> 'w \<Rightarrow> int \<Rightarrow> err option \<Rightarrow> effect list" where
  "endorse_effects api c ctx fn p y d err =
     [EEndorse p (phase_ctx api ctx (EndorseTimeout (ctCfg c)) y)]
     @ observe_effects api c OpEndorse fn (Proposal_TransactionID api p) d err"

definition submit_effects :: "'w api \<Rightarrow> Contract \<Rightarrow> Ctx option \<Rightarrow> string \<Rightarrow> string \<Rightarrow> nat \<Rightarrow> 'w \<Rightarrow> int \<Rightarrow> err option \<Rightarrow> effect list" where
  "submit_effects api c ctx fn t tx y d err =
     [ESubmit tx (phase_ctx api ctx (SubmitTimeout (ctCfg c)) y)] @ observe_effects api c OpSubmit fn t d err"

abbreviation "endorse_result api c ctx p y \<equiv>
  fst (Proposal_Endorse api p (phase_ctx api ctx (EndorseTimeout (ctCfg c)) y) (phase_ext api ctx (EndorseTimeout (ctCfg c)) y))"

abbreviation "submit_result api c ctx tx y \<equiv>
  fst (Transaction_Submit api tx (phase_ctx api ctx (SubmitTimeout (ctCfg c)) y) (phase_ext api ctx (SubmitTimeout (ctCfg c)) y))"

lemma SubmitAsync_cases:
  obtains (refused) e x where "run_state (SubmitAsync api c ctx fn opts) w = (Inl e, w\<lparr>ext := x\<rparr>)"
      "config_failure e" "\<not> own c \<or> closed w (fcAddr (ctFc c))"
  | (invalid) e x g r where "run_state (SubmitAsync api c ctx fn opts) w =
      (Inl (configError e), w\<lparr>ext := x, trace := trace w @ proposed c fn opts g r @ closes r\<rparr>)"
      "own c \<longrightarrow> r = NoRelease"
  | (endorse) e e' x g r p y d where "run_state (SubmitAsync api c ctx fn opts) w =
      (Inl e', w\<lparr>ext := x, trace := trace w @ proposed c fn opts g r
         @ endorse_effects api c ctx fn p y d (Some e') @ closes r\<rparr>)"
      "e' = classifyErr api e (Proposal_TransactionID api p) phaseEndorse (StrictErrorCodes (ctCfg c))"
      "endorse_result api c ctx p y = Inl e" "own c \<longrightarrow> r = NoRelease"
  | (submit) e e' x g r p y d tx y' d' where "run_state (SubmitAsync api c ctx fn opts) w =
      (Inl e', w\<lparr>ext := x, trace := trace w @ proposed c fn opts g r
         @ endorse_effects api c ctx fn p y d None
         @ submit_effects api c ctx fn (Proposal_TransactionID api p) tx y' d' (Some e') @ closes r\<rparr>)"
      "e' = classifyErr api e (Proposal_TransactionID api p) phaseSubmit (StrictErrorCodes (ctCfg c))"
      "endorse_result api c ctx p y = Inr tx" "submit_result api c ctx tx y' = Inl e"
      "own c \<longrightarrow> r = NoRelease"
  | (ok) pend x g r p y d tx y' d' m where "run_state (SubmitAsync api c ctx fn opts) w =
      (Inr pend, w\<lparr>ext := x, trace := trace w @ proposed c fn opts g r
         @ endorse_effects api c ctx fn p y d None
         @ submit_effects api c ctx fn (Proposal_TransactionID api p) tx y' d' None,
         fresh := Suc (fresh w), once := (once w)(fresh w := False)\<rparr>)"
      "pend = \<lparr>pAddr = fresh w, pTxID = Proposal_TransactionID api p, pPayload = Transaction_Result api tx,
         pContract = c, pFn = fn, pCommit = m, pRelease = r\<rparr>"
      "endorse_result api c ctx p y = Inr tx" "submit_result api c ctx tx y' = Inr m"
      "\<not> closed w (fcAddr (ctFc c))" "own c \<longrightarrow> r = NoRelease"
proof (cases rule: gateway_cases [of api c w])
  case (refused e x)
  from refused have "run_state (SubmitAsync api c ctx fn opts) w = (Inl e, w\<lparr>ext := x\<rparr>)"
    by (simp add: SubmitAsync_def)
  then show thesis by (rule that(1)) (fact refused)+
next
  case gw: (ok g r x)
  obtain p y where p: "NewProposal api (target c g) fn (proposalOptions opts) x = (p, y)" by fastforce
  note effs = proposed_def endorse_effects_def submit_effects_def
  show thesis
  proof (cases p)
    case (Inl e)
    with p gw(1,6) show thesis
      by (intro that(2) [where x = "release_ext api r y"]) (simp_all add: SubmitAsync_def run_simps effs)
  next
    case (Inr pr)
    let ?w = "w\<lparr>trace := trace w @ opens r @ [EProposal (target c g) fn (proposalOptions opts)], ext := y\<rparr>"
    note run = SubmitAsync_def gw(1) p [unfolded Inr]
    show thesis
    proof (cases rule: endorse_phase_cases [of api c ctx fn pr ?w])
      case (failed e x' y' d)
      show thesis
        by (rule that(3) [where e = e and p = pr and y = y' and d = d and r = r and g = g])
          (use failed gw(6) in \<open>simp_all add: run run_simps effs\<close>)
    next
      case endorsed: (ok tx x1 y1 d1)
      let ?w' = "?w\<lparr>ext := x1, trace := trace ?w @ [EEndorse pr (phase_ctx api ctx (EndorseTimeout (ctCfg c)) y1)]
          @ observe_effects api c OpEndorse fn (Proposal_TransactionID api pr) d1 None\<rparr>"
      show thesis
      proof (cases rule: submit_phase_cases [of api c ctx fn "Proposal_TransactionID api pr" tx ?w'])
        case (failed e x' y2 d2)
        show thesis
          by (rule that(4) [where e = e and p = pr and y = y1 and d = d1 and r = r and g = g and tx = tx and y' = y2 and d' = d2])
            (use endorsed failed gw(6) in \<open>simp_all add: run run_simps effs\<close>)
      next
        case (ok m x' y2 d2)
        show thesis
          by (rule that(5) [where p = pr and y = y1 and d = d1 and r = r and g = g and tx = tx and y' = y2 and d' = d2 and m = m])
            (use endorsed ok gw in \<open>simp_all add: run run_simps effs\<close>)
      qed
    qed
  qed
qed

lemma run_Release [run_simps]:
  "run_state (Release api p) w =
     ((), if once w (pAddr p) then w
          else w\<lparr>once := (once w)(pAddr p := True), ext := release_ext api (pRelease p) (ext w),
                 trace := trace w @ closes (pRelease p)\<rparr>)"
  by (simp add: Release_def once_Do_def run_simps)

interpretation pending_release: once_only "Release api p" "\<lambda>w. once w (pAddr p)" "()" for api p
  by unfold_locales (simp_all add: run_Release)

text \<open>What the commit status says of a pending transaction.\<close>

definition commit_outcome :: "'w api \<Rightarrow> PendingTx \<Rightarrow> CommitStatus \<Rightarrow> err + TxResult" where
  "commit_outcome api p st =
     (if csSuccessful st
      then Inr \<lparr>trTxID = pTxID p, trBlockNumber = csBlockNumber st, trPayload = pPayload p\<rparr>
      else Inl (commitFailure (apiLib api) (pTxID p) (csCode st) None))"

definition committed_log :: "PendingTx \<Rightarrow> CommitStatus \<Rightarrow> effect list" where
  "committed_log p st =
     (if csSuccessful st then log_effects (ctCfg (pContract p)) LevelInfo ''fabricsdk: committed''
        [(''fn'', LStr (pFn p)), (''txID'', LStr (pTxID p)), (''block'', LNum (csBlockNumber st))] else [])"

abbreviation "status_result api p ctx y \<equiv>
  fst (Commit_Status api (pCommit p) (phase_ctx api ctx (CommitStatusTimeout (ctCfg (pContract p))) y)
         (phase_ext api ctx (CommitStatusTimeout (ctCfg (pContract p))) y))"

lemma Wait_cases:
  obtains (unknown) e e' x y d where "run_state (Wait api p ctx) w =
      (Inl e', w\<lparr>ext := x, trace := trace w
         @ [ECommitStatus (pCommit p) (phase_ctx api ctx (CommitStatusTimeout (ctCfg (pContract p))) y)]
         @ observe_effects api (pContract p) OpCommit (pFn p) (pTxID p) d (Some e')\<rparr>)"
      "e' = classifyErr api e (pTxID p) phaseCommitStatus True" "status_result api p ctx y = Inl e"
  | (known) st x y d where "run_state (Wait api p ctx) w =
      (commit_outcome api p st, w\<lparr>ext := x, once := (once w)(pAddr p := True), trace := trace w
         @ [ECommitStatus (pCommit p) (phase_ctx api ctx (CommitStatusTimeout (ctCfg (pContract p))) y)]
         @ (if once w (pAddr p) then [] else closes (pRelease p)) @ committed_log p st
         @ observe_effects api (pContract p) OpCommit (pFn p) (pTxID p) d (err_of (commit_outcome api p st))\<rparr>)"
      "status_result api p ctx y = Inr st"
proof -
  let ?d = "CommitStatusTimeout (ctCfg (pContract p))"
  obtain s y where s: "time_Now api (ext w) = (s, y)" by fastforce
  obtain r z where r: "Commit_Status api (pCommit p) (phase_ctx api ctx ?d y) (phase_ext api ctx ?d y) = (r, z)" by fastforce
  note run = Wait_def wait_body_def now_def s r
  show thesis
  proof (cases r)
    case (Inl e)
    show thesis
      by (rule that(1) [where e = e and y = y]) (use Inl in \<open>simp_all add: run run_simps err_of_def\<close>)
  next
    case (Inr st)
    have upd: "once w (pAddr p) \<Longrightarrow> (once w)(pAddr p := True) = once w" by (simp add: fun_upd_idem)
    let ?z = "if once w (pAddr p) then z else release_ext api (pRelease p) z"
    show thesis
      by (rule that(2) [where st = st and y = y and x = "snd (time_Now api ?z)" and d = "fst (time_Now api ?z) - s"])
        (use Inr in \<open>auto simp: run run_simps err_of_def commit_outcome_def committed_log_def upd split: if_splits\<close>)
  qed
qed

section \<open>Projections of a trace\<close>

fun is_rpc :: "effect \<Rightarrow> bool" where
  "is_rpc (EProposal c f os) = True"
| "is_rpc (EEvaluate p c) = True"
| "is_rpc (EEndorse p c) = True"
| "is_rpc (ESubmit t c) = True"
| "is_rpc (ECommitStatus m c) = True"
| "is_rpc _ = False"

fun is_gateway :: "effect \<Rightarrow> bool" where
  "is_gateway (EGatewayOpen g) = True"
| "is_gateway (EGatewayClose g) = True"
| "is_gateway _ = False"

text \<open>The calls of the Gateway client about a transaction, and the Gateways opened and closed.\<close>

definition rpcs :: "effect list \<Rightarrow> effect list" where
  "rpcs tr = filter is_rpc (calls tr)"

definition gateways :: "effect list \<Rightarrow> effect list" where
  "gateways tr = filter is_gateway (calls tr)"

lemma rpcs_simps [simp]:
  "rpcs [] = []" "rpcs (a @ b) = rpcs a @ rpcs b"
  "rpcs (e # es) = (if is_rpc e then e # rpcs es else rpcs es)"
  "rpcs (opens r) = []" "rpcs (closes r) = []"
  by (cases r; cases e; simp add: rpcs_def)+

lemma gateways_simps [simp]:
  "gateways [] = []" "gateways (a @ b) = gateways a @ gateways b"
  "gateways (e # es) = (if is_gateway e then e # gateways es else gateways es)"
  "gateways (opens r) = opens r" "gateways (closes r) = closes r"
  by (cases r; cases e; simp add: gateways_def)+

lemma hook_effects [simp]:
  assumes "usable (ctCfg c)"
  shows "rpcs (observe_effects api c op fn txID dur err) = []" "gateways (observe_effects api c op fn txID dur err) = []"
    "rpcs (log_effects (ctCfg c) lv msg kv) = []" "gateways (log_effects (ctCfg c) lv msg kv) = []"
  using assms by (simp_all add: rpcs_def gateways_def)

lemma committed_log_usable [simp]:
  assumes "usable (ctCfg (pContract p))"
  shows "rpcs (committed_log p st) = []" "gateways (committed_log p st) = []" "observed (committed_log p st) = []"
    "set (logged (committed_log p st)) \<subseteq> {\<lparr>llLevel = LevelInfo, llMsg = ''fabricsdk: committed'',
       llKeys = [(''fn'', LStr (pFn p)), (''txID'', LStr (pTxID p)), (''block'', LNum (csBlockNumber st))]\<rparr>}"
  using assms log_effects_usable(3) [OF assms] by (simp_all add: committed_log_def)

lemmas effects = proposed_def endorse_effects_def submit_effects_def

lemma usable_timeouts:
  "usable cfg \<Longrightarrow> 0 < EvaluateTimeout cfg" "usable cfg \<Longrightarrow> 0 < EndorseTimeout cfg"
  "usable cfg \<Longrightarrow> 0 < SubmitTimeout cfg" "usable cfg \<Longrightarrow> 0 < CommitStatusTimeout cfg"
  by (simp_all add: usable_def)

section \<open>The protocol of a submitted transaction\<close>

text \<open>
  What \<open>Submit\<close> promises, as a relation between the calls made about the transaction and the
  result. The calls are made in the order of the rules' traces, each after the one before
  succeeded, on what that one returned, and in a context bounded for its phase.
\<close>

inductive submission :: "'w api \<Rightarrow> Contract \<Rightarrow> Ctx option \<Rightarrow> string \<Rightarrow> ProposalOption list \<Rightarrow>
    effect list \<Rightarrow> err + TxResult \<Rightarrow> bool"
  for api c ctx fn os where
  refused: "config_failure e \<Longrightarrow> submission api c ctx fn os [] (Inl e)"
| not_built: "config_failure e \<Longrightarrow> submission api c ctx fn os [EProposal (target c g) fn os] (Inl e)"
| not_endorsed:
    "phase_bound api ctx (EndorseTimeout (ctCfg c)) c1 \<Longrightarrow> fst (Proposal_Endorse api p c1 x) = Inl e \<Longrightarrow>
     submission api c ctx fn os [EProposal (target c g) fn os, EEndorse p c1]
       (Inl (classifyErr api e (Proposal_TransactionID api p) phaseEndorse (StrictErrorCodes (ctCfg c))))"
| not_ordered:
    "phase_bound api ctx (EndorseTimeout (ctCfg c)) c1 \<Longrightarrow> fst (Proposal_Endorse api p c1 x) = Inr tx \<Longrightarrow>
     phase_bound api ctx (SubmitTimeout (ctCfg c)) c2 \<Longrightarrow> fst (Transaction_Submit api tx c2 x') = Inl e \<Longrightarrow>
     submission api c ctx fn os [EProposal (target c g) fn os, EEndorse p c1, ESubmit tx c2]
       (Inl (classifyErr api e (Proposal_TransactionID api p) phaseSubmit (StrictErrorCodes (ctCfg c))))"
| unconfirmed:
    "phase_bound api ctx (EndorseTimeout (ctCfg c)) c1 \<Longrightarrow> fst (Proposal_Endorse api p c1 x) = Inr tx \<Longrightarrow>
     phase_bound api ctx (SubmitTimeout (ctCfg c)) c2 \<Longrightarrow> fst (Transaction_Submit api tx c2 x') = Inr m \<Longrightarrow>
     phase_bound api ctx (CommitStatusTimeout (ctCfg c)) c3 \<Longrightarrow> fst (Commit_Status api m c3 x'') = Inl e \<Longrightarrow>
     submission api c ctx fn os [EProposal (target c g) fn os, EEndorse p c1, ESubmit tx c2, ECommitStatus m c3]
       (Inl (classifyErr api e (Proposal_TransactionID api p) phaseCommitStatus True))"
| confirmed:
    "phase_bound api ctx (EndorseTimeout (ctCfg c)) c1 \<Longrightarrow> fst (Proposal_Endorse api p c1 x) = Inr tx \<Longrightarrow>
     phase_bound api ctx (SubmitTimeout (ctCfg c)) c2 \<Longrightarrow> fst (Transaction_Submit api tx c2 x') = Inr m \<Longrightarrow>
     phase_bound api ctx (CommitStatusTimeout (ctCfg c)) c3 \<Longrightarrow> fst (Commit_Status api m c3 x'') = Inr st \<Longrightarrow>
     submission api c ctx fn os [EProposal (target c g) fn os, EEndorse p c1, ESubmit tx c2, ECommitStatus m c3]
       (if csSuccessful st
        then Inr \<lparr>trTxID = Proposal_TransactionID api p, trBlockNumber = csBlockNumber st, trPayload = Transaction_Result api tx\<rparr>
        else Inl (commitFailure (apiLib api) (Proposal_TransactionID api p) (csCode st) None))"

inductive_cases submission_ok: "submission api c ctx fn os tr (Inr t)"
inductive_cases submission_error: "submission api c ctx fn os tr (Inl e)"

lemma SubmitWith_submission:
  assumes us: "usable (ctCfg c)"
  shows "case run_state (SubmitWith api c ctx fn opts) w of (res, w') \<Rightarrow>
    submission api c ctx fn (proposalOptions opts) (rpcs (added w w')) res"
proof -
  note T = us usable_timeouts [OF us]
  show ?thesis
  proof (cases rule: SubmitAsync_cases [of api c ctx fn opts w])
    case (refused e x)
    then show ?thesis by (simp add: SubmitWith_def added_def submission.refused)
  next
    case (invalid e x g r)
    then show ?thesis by (simp add: SubmitWith_def effects submission.not_built)
  next
    case (endorse e e' x g r p y d)
    then show ?thesis using T by (simp add: SubmitWith_def effects) (rule submission.not_endorsed [OF _ endorse(3)], simp add: phase_ctx_bound)
  next
    case (submit e e' x g r p y d tx y' d')
    then show ?thesis using T by (simp add: SubmitWith_def effects) (rule submission.not_ordered [OF _ submit(3) _ submit(4)]; simp add: phase_ctx_bound)
  next
    case (ok pend x g r p y0 d tx y' d' m)
    define w1 where "w1 = snd (run_state (SubmitAsync api c ctx fn opts) w)"
    have w1: "trace w1 = trace w @ proposed c fn opts g r @ endorse_effects api c ctx fn p y0 d None
         @ submit_effects api c ctx fn (Proposal_TransactionID api p) tx y' d' None"
      by (simp add: w1_def ok(1))
    have run: "run_state (SubmitWith api c ctx fn opts) w = run_state (Wait api pend ctx) w1"
      by (simp add: SubmitWith_def ok(1) w1_def)
    show ?thesis
    proof (cases rule: Wait_cases [of api pend ctx w1])
      case (unknown e e' x y d)
      from unknown(3) have st: "fst (Commit_Status api m (phase_ctx api ctx (CommitStatusTimeout (ctCfg c)) y)
          (phase_ext api ctx (CommitStatusTimeout (ctCfg c)) y)) = Inl e" by (simp add: ok(2))
      from unknown(1,2) ok(2) w1 T show ?thesis
        by (simp add: run effects) (rule submission.unconfirmed [OF _ ok(3) _ ok(4) _ st]; simp add: phase_ctx_bound)
    next
      case (known st x y d)
      from known(2) have st: "fst (Commit_Status api m (phase_ctx api ctx (CommitStatusTimeout (ctCfg c)) y)
          (phase_ext api ctx (CommitStatusTimeout (ctCfg c)) y)) = Inr st" by (simp add: ok(2))
      have "submission api c ctx fn (proposalOptions opts) [EProposal (target c g) fn (proposalOptions opts),
          EEndorse p (phase_ctx api ctx (EndorseTimeout (ctCfg c)) y0), ESubmit tx (phase_ctx api ctx (SubmitTimeout (ctCfg c)) y'),
          ECommitStatus m (phase_ctx api ctx (CommitStatusTimeout (ctCfg c)) y)] (commit_outcome api pend st)"
        using submission.confirmed [OF _ ok(3) _ ok(4) _ st, where c = c and ctx = ctx and g = g and fn = fn and os = "proposalOptions opts"] T
        by (simp add: phase_ctx_bound commit_outcome_def ok(2) split: if_splits)
      with known(1) w1 us show ?thesis by (simp add: run effects ok(2))
    qed
  qed
qed

section \<open>Properties\<close>


text \<open>A handle of the example client, and how the example world runs.\<close>

definition example_contract :: Contract where
  "example_contract = FabricClient_Contract example_client"

definition example_other :: Contract where
  "example_other = WithIdentity example_contract (Some \<lparr>iAddr = 3000, iX509 = 1, iCert = 1, iSign = 1\<rparr>)"

lemma example_contract_usable [simp]: "usable (ctCfg example_contract)" "usable (ctCfg example_other)"
  using example_client_built
  by (simp_all add: built_def example_contract_def example_other_def FabricClient_Contract_def WithIdentity_def)

lemma calm_api_simps [simp]: 
  "time_Now calm_api x = (int x, Suc x)"
  "client_Connect calm_api i co x = (Inr x, Suc x)"
  "Gateway_Close calm_api g x = (None, x)"
  "NewProposal calm_api r fn os x = (Inr x, Suc x)"
  "Proposal_TransactionID calm_api p = ''tx''"
  "Proposal_Evaluate calm_api p ctx x = (Inr ''result'', x)"
  "Proposal_Endorse calm_api p ctx x = (Inr p, x)"
  "Transaction_Result calm_api p = ''result''"
  "Transaction_Submit calm_api p ctx x = (Inr p, x)"
  "Commit_Status calm_api p ctx x = (Inr \<lparr>csCode = 0, csSuccessful = True, csBlockNumber = 42\<rparr>, x)"
  "apiLib calm_api = documented_lib"
  by (simp_all add: calm_defs)

lemma example_fields [simp]:
  "closed calm_world a = False" "ctId example_contract = Some example_identity"
  "fcId (ctFc example_contract) = example_identity" "fcGw (ctFc example_contract) = 6"
  "ctId example_other = Some \<lparr>iAddr = 3000, iX509 = 1, iCert = 1, iSign = 1\<rparr>"
  "fcId (ctFc example_other) = example_identity" "iAddr example_identity = 1000"
  by (simp_all add: calm_world_def example_contract_def FabricClient_Contract_def example_client_def example_other_def WithIdentity_def example_identity_def)

lemmas submit_defs = SubmitWith_def SubmitAsync_def gateway_def endorse_phase_def submit_phase_def connect_def
  Wait_def wait_body_def now_def Let_def


text \<open>
  \<open>Submit\<close> reports success only for a transaction that is committed as valid: all four calls
  were made, the peer reported the commit as successful, and the result carries the ID of the
  proposal, the block the peer named and the endorsed payload.
\<close>

theorem Submit_success_is_committed:
  assumes "usable (ctCfg c)" and "run_state (SubmitWith api c ctx fn opts) w = (Inr t, w')"
  shows "\<exists>g p tx m c1 c2 c3 x st.
    rpcs (added w w') = [EProposal (target c g) fn (proposalOptions opts), EEndorse p c1, ESubmit tx c2, ECommitStatus m c3] \<and>
    fst (Commit_Status api m c3 x) = Inr st \<and> csSuccessful st \<and>
    t = \<lparr>trTxID = Proposal_TransactionID api p, trBlockNumber = csBlockNumber st, trPayload = Transaction_Result api tx\<rparr>"
proof -
  have "submission api c ctx fn (proposalOptions opts) (rpcs (added w w')) (Inr t)"
    using SubmitWith_submission [OF assms(1), of api ctx fn opts w] by (simp add: assms(2))
  then show ?thesis by (rule submission_ok) (intro exI conjI, assumption, assumption, simp_all split: if_splits)
qed

theorem Submit_success_is_committed_witness:
  "\<exists>w' g p tx m c1 c2 c3. run_state (SubmitWith calm_api example_contract None ''Set'' [Args [''k'', ''v'']]) calm_world =
      (Inr \<lparr>trTxID = ''tx'', trBlockNumber = 42, trPayload = ''result''\<rparr>, w') \<and>
     rpcs (added calm_world w') = [EProposal (target example_contract g) ''Set'' (proposalOptions [Args [''k'', ''v'']]),
       EEndorse p c1, ESubmit tx c2, ECommitStatus m c3]"
proof -
  let ?run = "run_state (SubmitWith calm_api example_contract None ''Set'' [Args [''k'', ''v'']]) calm_world"
  have "fst ?run = Inr \<lparr>trTxID = ''tx'', trBlockNumber = 42, trPayload = ''result''\<rparr>"
    by (simp add: submit_defs run_simps)
  then obtain w' where run: "?run = (Inr \<lparr>trTxID = ''tx'', trBlockNumber = 42, trPayload = ''result''\<rparr>, w')"
    by (cases ?run) auto
  from Submit_success_is_committed [OF example_contract_usable(1) this] run show ?thesis by blast
qed

text \<open>
  The Gateway client's own errors carry neither an \<open>*Error\<close> of this package nor a
  \<open>*client.CommitError\<close>: it returns the latter only from calls this package does not make.
\<close>

definition gateway_errors_opaque :: "'w api \<Rightarrow> bool" where
  "gateway_errors_opaque api =
     ((\<forall>p c x e. fst (Proposal_Evaluate api p c x) = Inl e \<longrightarrow> opaque e) \<and>
      (\<forall>p c x e. fst (Proposal_Endorse api p c x) = Inl e \<longrightarrow> opaque e) \<and>
      (\<forall>t c x e. fst (Transaction_Submit api t c x) = Inl e \<longrightarrow> opaque e) \<and>
      (\<forall>m c x e. fst (Commit_Status api m c x) = Inl e \<longrightarrow> opaque e))"

lemma gateway_errors_opaqueD:
  assumes "gateway_errors_opaque api"
  shows "fst (Proposal_Evaluate api p c x) = Inl e \<Longrightarrow> opaque e" "fst (Proposal_Endorse api p c x) = Inl e \<Longrightarrow> opaque e"
    "fst (Transaction_Submit api t c x) = Inl e \<Longrightarrow> opaque e" "fst (Commit_Status api m c x) = Inl e \<Longrightarrow> opaque e"
  using assms unfolding gateway_errors_opaque_def by blast+

lemma classifyErr_opaque:
  "opaque e \<Longrightarrow> classifyErr api e t ph s =
     SDKError ((classified (apiLib api) e ph s)\<lparr>eTxID := t, eGRPCCode := stCode (status_of (apiLib api) e),
        eDetails := gatewayDetails (status_of (apiLib api) e)\<rparr>) (Some e)"
  by (simp add: classifyErr_def classify_opaque)

lemma set_rpcs: "set (rpcs tr) = {e \<in> set tr. is_rpc e}"
proof -
  have "is_rpc e \<Longrightarrow> \<not> is_hook e" for e by (cases e) auto
  then show ?thesis by (auto simp: rpcs_def calls_def)
qed

lemma classified_after_submit:
  "eKind (classified L e phaseSubmit s) = (if rejected_before_ordering (stCode (status_of L e)) then KindSubmit else KindOutcomeUnknown)"
  "eKind (classified L e phaseCommitStatus s) = KindOutcomeUnknown"
  by (auto simp: classified_def Let_def network_error_def less_phase_def rejected_before_ordering_def)

lemma commitFailure_facts:
  "\<not> IsOutcomeUnknown (Some (commitFailure L t v c))" "TxIDOf (Some (commitFailure L t v c)) = t"
  "KindOf (Some (commitFailure L t v c)) \<in> {KindConflict, KindCommitFailed}"
  "asError (Some (commitFailure L t v c)) \<noteq> None"
  by (auto simp: commitFailure_def Let_def)

lemma submission_error_facts:
  assumes "gateway_errors_opaque api" and "submission api c ctx fn os tr (Inl e)"
  shows "asError (Some e) \<noteq> None \<and>
    (if \<exists>tx c2. ESubmit tx c2 \<in> set tr
     then (\<exists>p c1. EEndorse p c1 \<in> set tr \<and> TxIDOf (Some e) = Proposal_TransactionID api p) \<and>
          (IsOutcomeUnknown (Some e) \<or> KindOf (Some e) \<in> {KindSubmit, KindConflict, KindCommitFailed}) \<and>
          (IsRetryable (Some e) \<longrightarrow> KindOf (Some e) \<in> {KindSubmit, KindConflict})
     else \<not> IsOutcomeUnknown (Some e))"
proof -
  note D = gateway_errors_opaqueD [OF assms(1)]
  from assms(2) show ?thesis
  proof cases
    case refused
    then show ?thesis by (simp add: config_failureD)
  next
    case (not_built g)
    then show ?thesis by (simp add: config_failureD)
  next
    case (not_endorsed c1 p x e0 g)
    with D show ?thesis by (simp add: classifyErr_opaque classified_outcome)
  next
    case (not_ordered c1 p x tx c2 x' e0 g)
    with D(3) have "opaque e0" by blast
    with not_ordered show ?thesis
      by (auto simp: classifyErr_opaque classified_outcome classified_after_submit Retryable_def)
  next
    case (unconfirmed c1 p x tx c2 x' m c3 x'' e0 g)
    with D(4) have "opaque e0" by blast
    with unconfirmed show ?thesis
      by (auto simp: classifyErr_opaque classified_outcome classified_after_submit Retryable_def)
  next
    case (confirmed c1 p x tx c2 x' m c3 x'' st g)
    then show ?thesis
      using commitFailure_facts [of "apiLib api" "Proposal_TransactionID api p" "csCode st" None]
      by (auto simp: commitFailure_def Let_def Retryable_def split: if_splits)
  qed
qed

text \<open>
  C2: what an error of \<open>Submit\<close> tells the caller. It is always an \<open>*Error\<close>. If the transaction was
  never sent to the orderer, its outcome is not open. If it was, the error carries the
  transaction's ID, and either its outcome is open or the transaction is known to have failed:
  the orderer definitely rejected it or it was committed as invalid. Retrying is offered only if
  the transaction was not sent, was definitely rejected, or lost a read conflict.
\<close>

theorem Submit_error_spec:
  assumes "usable (ctCfg c)" and "gateway_errors_opaque api" and "run_state (SubmitWith api c ctx fn opts) w = (Inl e, w')"
  shows "asError (Some e) \<noteq> None \<and>
    (if \<exists>tx c2. ESubmit tx c2 \<in> set (added w w')
     then (\<exists>p c1. EEndorse p c1 \<in> set (added w w') \<and> TxIDOf (Some e) = Proposal_TransactionID api p) \<and>
          (IsOutcomeUnknown (Some e) \<or> KindOf (Some e) \<in> {KindSubmit, KindConflict, KindCommitFailed}) \<and>
          (IsRetryable (Some e) \<longrightarrow> KindOf (Some e) \<in> {KindSubmit, KindConflict})
     else \<not> IsOutcomeUnknown (Some e))"
proof -
  have "submission api c ctx fn (proposalOptions opts) (rpcs (added w w')) (Inl e)"
    using SubmitWith_submission [OF assms(1), of api ctx fn opts w] by (simp add: assms(3))
  note facts = submission_error_facts [OF assms(2) this]
  have mem: "ESubmit t c2 \<in> set (rpcs (added w w')) \<longleftrightarrow> ESubmit t c2 \<in> set (added w w')"
    "EEndorse p c2 \<in> set (rpcs (added w w')) \<longleftrightarrow> EEndorse p c2 \<in> set (added w w')" for t p c2
    by (simp_all add: set_rpcs)
  from facts show ?thesis unfolding mem .
qed

text \<open>The example world with a peer that is lost once the transaction is ordered.\<close>

definition lost_peer_api :: "nat api" where
  "lost_peer_api = calm_api\<lparr>Commit_Status := (\<lambda>m c x. (Inl (gateway_error codes_Unavailable ''peer down'' []), x))\<rparr>"

lemma lost_peer_api_opaque: "gateway_errors_opaque lost_peer_api"
  by (auto simp: gateway_errors_opaque_def lost_peer_api_def calm_defs)

lemma lost_peer_api_simps [simp]:
  "Commit_Status lost_peer_api m ctx x = (Inl (gateway_error codes_Unavailable ''peer down'' []), x)"
  "Transaction_Submit lost_peer_api p ctx x = (Inr p, x)" "Proposal_Endorse lost_peer_api p ctx x = (Inr p, x)"
  "NewProposal lost_peer_api r fn os x = (Inr x, Suc x)" "Proposal_TransactionID lost_peer_api p = ''tx''"
  "time_Now lost_peer_api x = (int x, Suc x)" "client_Connect lost_peer_api i co x = (Inr x, Suc x)"
  "apiLib lost_peer_api = documented_lib"
  by (simp_all add: lost_peer_api_def)

theorem Submit_error_spec_witness:
  "\<exists>e w'. run_state (SubmitWith lost_peer_api example_contract None ''Set'' []) calm_world = (Inl e, w') \<and>
     TxIDOf (Some e) = ''tx'' \<and> (IsOutcomeUnknown (Some e) \<or> KindOf (Some e) \<in> {KindSubmit, KindConflict, KindCommitFailed})"
proof -
  let ?run = "run_state (SubmitWith lost_peer_api example_contract None ''Set'' []) calm_world"
  have res: "\<exists>e w'. ?run = (Inl e, w') \<and> (\<exists>tx c2. ESubmit tx c2 \<in> set (trace w')) \<and> trace calm_world = []"
    by (simp add: submit_defs run_simps) (auto simp: calm_world_def)
  then obtain e w' tx c2 where run: "?run = (Inl e, w')" and "ESubmit tx c2 \<in> set (added calm_world w')"
    by (auto simp: added_def)
  with Submit_error_spec [OF example_contract_usable(1) lost_peer_api_opaque run] have "TxIDOf (Some e) = ''tx''"
    "IsOutcomeUnknown (Some e) \<or> KindOf (Some e) \<in> {KindSubmit, KindConflict, KindCommitFailed}"
    by (auto split: if_splits)
  with run show ?thesis by blast
qed

lemma run_now [run_simps]: "run_state (now api) w = (fst (time_Now api (ext w)), w\<lparr>ext := snd (time_Now api (ext w))\<rparr>)"
  by (simp add: now_def)

lemma run_EvaluateWith:
  "run_state (EvaluateWith api c ctx fn opts) w =
     (case run_state (evaluate_body api c ctx fn opts) (w\<lparr>ext := snd (time_Now api (ext w))\<rparr>) of
        ((t, r), v) \<Rightarrow> (r, v\<lparr>ext := snd (time_Now api (ext v)),
           trace := trace v @ observe_effects api c OpEvaluate fn t (fst (time_Now api (ext v)) - fst (time_Now api (ext w))) (err_of r)\<rparr>))"
  by (simp add: EvaluateWith_def run_simps split: prod.splits)

lemma run_TxStatus:
  "run_state (Contract_TxStatus api c ctx t) w =
     (case run_state (qscc api c ctx ''GetTransactionByID'' [ctChannel c, t]) (w\<lparr>ext := snd (time_Now api (ext w))\<rparr>) of
        (raw, v) \<Rightarrow> (tx_status_of api t raw, v\<lparr>ext := snd (time_Now api (ext v)),
           trace := trace v @ observe_effects api c OpTxStatus ''GetTransactionByID'' t
             (fst (time_Now api (ext v)) - fst (time_Now api (ext w))) (err_of (tx_status_of api t raw))\<rparr>))"
  by (simp add: Contract_TxStatus_def run_simps split: prod.splits)

lemma run_Height_world: "snd (run_state (Height api c ctx) w) = snd (run_state (qscc api c ctx ''GetChainInfo'' [ctChannel c]) w)"
  by (simp add: Height_def split: prod.splits sum.splits)

lemma qscc_gateways: "\<exists>r es. trace (snd (run_state (qscc api c ctx fn args) w)) = trace w @ opens r @ es @ closes r \<and> gateways es = []"
proof (cases rule: qscc_cases [of api c ctx fn args w])
  case (refused e x)
  then show ?thesis by (intro exI [of _ NoRelease] exI [of _ "[]"]) simp
next
  case (invalid e x r ref)
  then show ?thesis by (intro exI [of _ r] exI [of _ "[EProposal ref fn [WithArguments args]]"]) simp
next
  case (called res x y ref r p)
  then show ?thesis
    by (intro exI [of _ r] exI [of _ "[EProposal ref fn [WithArguments args], EEvaluate p (phase_ctx api ctx (EvaluateTimeout (ctCfg c)) y)]"]) simp
qed

text \<open>
  C22: Gateways opened for a handle's own identity. Evaluating, \<open>TxStatus\<close> and \<open>Height\<close> close the
  Gateway they open before they return, whatever happens; so does \<open>SubmitAsync\<close> when it fails;
  when it succeeds, the pending transaction holds the Gateway that was opened. The Gateway of
  the client itself is never touched.
\<close>

theorem gateways_released:
  assumes "usable (ctCfg c)"
  shows "(\<exists>r. gateways (added w (snd (run_state (EvaluateWith api c ctx fn opts) w))) = opens r @ closes r) \<and>
    (\<exists>r. gateways (added w (snd (run_state (Contract_TxStatus api c ctx t) w))) = opens r @ closes r) \<and>
    (\<exists>r. gateways (added w (snd (run_state (Height api c ctx) w))) = opens r @ closes r) \<and>
    (case run_state (SubmitAsync api c ctx fn opts) w of
       (Inl e, w') \<Rightarrow> \<exists>r. gateways (added w w') = opens r @ closes r
     | (Inr p, w') \<Rightarrow> gateways (added w w') = opens (pRelease p) \<and> \<not> once w' (pAddr p))"
proof (intro conjI)
  let ?w = "w\<lparr>ext := snd (time_Now api (ext w))\<rparr>"
  show "\<exists>r. gateways (added w (snd (run_state (EvaluateWith api c ctx fn opts) w))) = opens r @ closes r"
  proof (cases rule: evaluate_body_cases [of api c ctx fn opts ?w])
    case (refused e x)
    with assms show ?thesis by (intro exI [of _ NoRelease]) (simp add: run_EvaluateWith)
  qed (use assms in \<open>auto simp: run_EvaluateWith\<close>)
  show "\<exists>r. gateways (added w (snd (run_state (Contract_TxStatus api c ctx t) w))) = opens r @ closes r"
    using qscc_gateways [of api c ctx "''GetTransactionByID''" "[ctChannel c, t]" ?w] assms
    by (auto simp: run_TxStatus split: prod.splits)
  show "\<exists>r. gateways (added w (snd (run_state (Height api c ctx) w))) = opens r @ closes r"
    using qscc_gateways [of api c ctx "''GetChainInfo''" "[ctChannel c]" w] by (auto simp: run_Height_world)
  show "case run_state (SubmitAsync api c ctx fn opts) w of
       (Inl e, w') \<Rightarrow> \<exists>r. gateways (added w w') = opens r @ closes r
     | (Inr p, w') \<Rightarrow> gateways (added w w') = opens (pRelease p) \<and> \<not> once w' (pAddr p)"
  proof (cases rule: SubmitAsync_cases [of api c ctx fn opts w])
    case (refused e x)
    then show ?thesis by (simp add: added_def) (intro exI [of _ NoRelease], simp)
  qed (use assms in \<open>auto simp: effects\<close>)
qed

theorem gateways_released_witness:
  "\<exists>r. gateways (added calm_world (snd (run_state (EvaluateWith calm_api example_other None ''Get'' []) calm_world))) = opens r @ closes r"
  using gateways_released [OF example_contract_usable(2), of calm_world calm_api None "''Get''" "[]"] by blast

datatype pending_op = OpWait "Ctx option" | OpRelease

fun pending_step :: "'w api \<Rightarrow> PendingTx \<Rightarrow> pending_op \<Rightarrow> 'w world \<Rightarrow> 'w world" where
  "pending_step api p (OpWait ctx) w = snd (run_state (Wait api p ctx) w)"
| "pending_step api p OpRelease w = snd (run_state (Release api p) w)"

text \<open>The reply that \<open>Wait\<close> gets from the Gateway client.\<close>

definition status_reply :: "'w api \<Rightarrow> PendingTx \<Rightarrow> Ctx option \<Rightarrow> 'w world \<Rightarrow> err + CommitStatus" where
  "status_reply api p ctx w =
     fst (run_state (do { t \<leftarrow> now api; c \<leftarrow> withDefaultTimeout api ctx (CommitStatusTimeout (ctCfg (pContract p)));
                                outside (Commit_Status api (pCommit p) c) }) w)"

text \<open>Whether a call settles the pending transaction: its commit status gets known or it is given up.\<close>

fun settles :: "'w api \<Rightarrow> PendingTx \<Rightarrow> pending_op \<Rightarrow> 'w world \<Rightarrow> bool" where
  "settles api p (OpWait ctx) w =
     (\<exists>st. status_reply api p ctx w = Inr st)"
| "settles api p OpRelease w = True"

fun settled :: "'w api \<Rightarrow> PendingTx \<Rightarrow> pending_op list \<Rightarrow> 'w world \<Rightarrow> bool" where
  "settled api p [] w = False"
| "settled api p (a # as) w = (settles api p a w \<or> settled api p as (pending_step api p a w))"

lemma pending_step_effects:
  assumes "usable (ctCfg (pContract p))"
  shows "\<exists>es. trace (pending_step api p a w) = trace w @ es \<and>
     gateways es = (if settles api p a w \<and> \<not> once w (pAddr p) then closes (pRelease p) else []) \<and>
     once (pending_step api p a w) (pAddr p) = (once w (pAddr p) \<or> settles api p a w)"
proof (cases a)
  case (OpWait ctx)
  show ?thesis
  proof (cases "status_reply api p ctx w")
    case (Inl e)
    then show ?thesis using assms
      by (simp add: status_reply_def OpWait Wait_def wait_body_def run_simps)
  next
    case (Inr st)
    then show ?thesis using assms
      by (auto simp: status_reply_def OpWait Wait_def wait_body_def run_simps)
  qed
next
  case OpRelease
  then show ?thesis by (simp add: run_Release)
qed

lemma settled_gateways:
  assumes "usable (ctCfg (pContract p))"
  shows "\<exists>es. trace (fold (pending_step api p) as w) = trace w @ es \<and>
     gateways es = (if settled api p as w \<and> \<not> once w (pAddr p) then closes (pRelease p) else [])"
proof (induction as arbitrary: w)
  case (Cons a as)
  from pending_step_effects [OF assms, of api a w] obtain es where
    es: "trace (pending_step api p a w) = trace w @ es"
      "gateways es = (if settles api p a w \<and> \<not> once w (pAddr p) then closes (pRelease p) else [])"
      "once (pending_step api p a w) (pAddr p) = (once w (pAddr p) \<or> settles api p a w)" by blast
  from Cons [of "pending_step api p a w"] obtain fs where
    "trace (fold (pending_step api p) as (pending_step api p a w)) = trace (pending_step api p a w) @ fs"
    "gateways fs = (if settled api p as (pending_step api p a w) \<and> \<not> once (pending_step api p a w) (pAddr p) then closes (pRelease p) else [])"
    by blast
  with es show ?case by (intro exI [of _ "es @ fs"]) auto
qed simp

text \<open>
  The life of a pending transaction. Whatever sequence of \<open>Wait\<close> and \<open>Release\<close> calls is made on
  it, the Gateway it holds is closed at most once: exactly when the first call is made that is a
  \<open>Release\<close> or a \<open>Wait\<close> that learns the commit status. A \<open>Wait\<close> that does not learn it keeps the
  Gateway, so \<open>Wait\<close> can be called again.
\<close>

theorem pending_released_once:
  assumes "usable (ctCfg (pContract p))" and "\<not> once w (pAddr p)"
  shows "gateways (added w (fold (pending_step api p) as w)) = (if settled api p as w then closes (pRelease p) else [])"
  using settled_gateways [OF assms(1), of api as w] assms(2) by auto

definition example_pending :: PendingTx where
  "example_pending = \<lparr>pAddr = 4000, pTxID = ''tx'', pPayload = ''result'', pContract = example_other, pFn = ''Set'',
     pCommit = 3, pRelease = CloseGateway 7\<rparr>"

theorem pending_released_once_witness:
  "gateways (added calm_world (fold (pending_step lost_peer_api example_pending) [OpWait None, OpRelease, OpWait None, OpRelease] calm_world))
     = [EGatewayClose 7]"
proof -
  have "usable (ctCfg (pContract example_pending))" "\<not> once calm_world (pAddr example_pending)"
    by (simp_all add: example_pending_def calm_world_def)
  from pending_released_once [OF this, of lost_peer_api "[OpWait None, OpRelease, OpWait None, OpRelease]"] show ?thesis
    by (simp add: example_pending_def)
qed

lemma run_Wait_result:
  "fst (run_state (Wait api p ctx) w) =
     (case status_reply api p ctx w of
        Inl e \<Rightarrow> Inl (classifyErr api e (pTxID p) phaseCommitStatus True)
      | Inr st \<Rightarrow> commit_outcome api p st)"
  by (auto simp: Wait_def wait_body_def run_simps commit_outcome_def status_reply_def split: sum.splits)

text \<open>
  What \<open>Wait\<close> reports. If the commit status cannot be learnt, the error has an open outcome
  and the transaction's ID, is not retryable and leaves the pending transaction as it was. Once
  the status is known the result is final: the transaction's ID, block and payload if it is
  valid, else a definite failure with the validation code.
\<close>

theorem Wait_spec:
  "(\<forall>e. status_reply api p ctx w = Inl e \<and> opaque e \<longrightarrow>
      (\<exists>x. fst (run_state (Wait api p ctx) w) = Inl (SDKError x (Some e)) \<and> eKind x = KindOutcomeUnknown \<and>
         eOutcomeUnknown x \<and> eTxID x = pTxID p \<and> \<not> Retryable x) \<and>
      once (snd (run_state (Wait api p ctx) w)) = once w) \<and>
   (\<forall>st. status_reply api p ctx w = Inr st \<longrightarrow>
      once (snd (run_state (Wait api p ctx) w)) (pAddr p) \<and>
      (if csSuccessful st
       then fst (run_state (Wait api p ctx) w) =
              Inr \<lparr>trTxID = pTxID p, trBlockNumber = csBlockNumber st, trPayload = pPayload p\<rparr>
       else \<exists>x. fst (run_state (Wait api p ctx) w) = Inl (SDKError x None) \<and> eTxID x = pTxID p \<and>
              eValidationCode x = csCode st \<and> \<not> eOutcomeUnknown x))"
proof (cases "status_reply api p ctx w")
  case (Inl e)
  moreover from Inl have "once (snd (run_state (Wait api p ctx) w)) = once w"
    by (simp add: status_reply_def Wait_def wait_body_def run_simps)
  ultimately show ?thesis
    by (auto simp: run_Wait_result classifyErr_opaque classified_outcome classified_after_submit Retryable_def)
next
  case (Inr st)
  moreover from Inr have "once (snd (run_state (Wait api p ctx) w)) (pAddr p)"
    by (auto simp: status_reply_def Wait_def wait_body_def run_simps)
  ultimately show ?thesis
    by (auto simp: run_Wait_result commit_outcome_def commitFailure_def Let_def)
qed

theorem Wait_spec_witness:
  "\<exists>x. fst (run_state (Wait lost_peer_api example_pending None) calm_world) =
      Inl (SDKError x (Some (gateway_error codes_Unavailable ''peer down'' []))) \<and> eOutcomeUnknown x \<and> eTxID x = ''tx''"
proof -
  have "status_reply lost_peer_api example_pending None calm_world = Inl (gateway_error codes_Unavailable ''peer down'' [])"
    by (simp add: status_reply_def run_simps)
  with Wait_spec [of lost_peer_api example_pending None calm_world] gateway_error_opaque show ?thesis
    by (auto simp: example_pending_def)
qed

lemma after_Close_closed:
  assumes "built fc w"
  shows "closed (snd (run_state (Close api fc) w)) (fcAddr fc)"
  using assms by (simp add: run_Close run_close_body built_def)

lemma closed_runs:
  assumes "closed w (fcAddr (ctFc c))"
  shows "run_state (evaluate_body api c ctx fn opts) w = (('''', Inl client_closed), w)"
    "run_state (SubmitAsync api c ctx fn opts) w = (Inl client_closed, w)"
    "run_state (qscc api c ctx fn args) w = (Inl client_closed, w)"
  using assms by (simp_all add: evaluate_body_def SubmitAsync_def qscc_def gateway_closed)

lemma client_closed_kept: "classifyErr api client_closed t ph s = client_closed"
  by (simp add: classifyErr_def client_closed_def classify_typed)



text \<open>
  C24: evaluating is a bounded read. At most a proposal is built and then evaluated, in a context
  bounded by the caller's deadline or the evaluate timeout: nothing is endorsed or sent to the
  orderer. A result is the peer's answer, unchanged; a failure is an \<open>*Error\<close> whose outcome is
  not open.
\<close>

theorem EvaluateWith_spec:
  assumes "usable (ctCfg c)" and "gateway_errors_opaque api" and "run_state (EvaluateWith api c ctx fn opts) w = (res, w')"
  shows "\<exists>g p c1. prefix (rpcs (added w w')) [EProposal (target c g) fn (proposalOptions opts), EEvaluate p c1] \<and>
    phase_bound api ctx (EvaluateTimeout (ctCfg c)) c1 \<and>
    (case res of
       Inr b \<Rightarrow> rpcs (added w w') = [EProposal (target c g) fn (proposalOptions opts), EEvaluate p c1] \<and>
                (\<exists>x. fst (Proposal_Evaluate api p c1 x) = Inr b)
     | Inl e \<Rightarrow> asError (Some e) \<noteq> None \<and> \<not> IsOutcomeUnknown (Some e))"
proof -
  let ?w = "w\<lparr>ext := snd (time_Now api (ext w))\<rparr>"
  let ?ctx = "phase_ctx api ctx (EvaluateTimeout (ctCfg c))"
  have bound: "phase_bound api ctx (EvaluateTimeout (ctCfg c)) (?ctx y)" for y
    using assms(1) by (simp add: phase_ctx_bound usable_timeouts)
  show ?thesis
  proof (cases rule: evaluate_body_cases [of api c ctx fn opts ?w])
    case (refused e x)
    with assms(1,3) have "rpcs (added w w') = []" "res = Inl e" by (auto simp: run_EvaluateWith)
    with bound refused(2) show ?thesis by (intro exI [of _ "?ctx (ext w)"] exI) (simp add: config_failureD)
  next
    case (invalid e x g r)
    with assms(1,3) have "rpcs (added w w') = [EProposal (target c g) fn (proposalOptions opts)]" "res = Inl (configError e)"
      by (auto simp: run_EvaluateWith)
    with bound show ?thesis by (intro exI [of _ g] exI [of _ 0] exI [of _ "?ctx (ext w)"]) simp
  next
    case (called r0 x y g r p)
    with assms(1,3) have "rpcs (added w w') = [EProposal (target c g) fn (proposalOptions opts), EEvaluate p (?ctx y)]"
      and res: "res = map_sum (\<lambda>e. classifyErr api e (Proposal_TransactionID api p) phaseEvaluate (StrictErrorCodes (ctCfg c))) id r0"
      by (auto simp: run_EvaluateWith)
    moreover have "case res of Inr b \<Rightarrow> (\<exists>x. fst (Proposal_Evaluate api p (?ctx y) x) = Inr b)
        | Inl e \<Rightarrow> asError (Some e) \<noteq> None \<and> \<not> IsOutcomeUnknown (Some e)"
    proof (cases r0)
      case (Inl e)
      with called(3) gateway_errors_opaqueD(1) [OF assms(2)] have "opaque e" by metis
      with Inl show ?thesis by (simp add: res classifyErr_opaque classified_outcome)
    next
      case (Inr b)
      with called(3) have "fst (Proposal_Evaluate api p (?ctx y) (phase_ext api ctx (EvaluateTimeout (ctCfg c)) y)) = Inr b" by simp
      then show ?thesis using Inr by (auto simp: res)
    qed
    ultimately show ?thesis using bound
      by (intro exI [of _ g] exI [of _ p] exI [of _ "?ctx y"]) (auto split: sum.splits)
  qed
qed

lemma calm_api_opaque: "gateway_errors_opaque calm_api"
  by (auto simp: gateway_errors_opaque_def)

lemmas evaluate_defs = run_EvaluateWith evaluate_body_def gateway_def connect_def Let_def

theorem EvaluateWith_spec_witness:
  "\<exists>w' g p c1. run_state (EvaluateWith calm_api example_other None ''Get'' [Args [''k'']]) calm_world = (Inr ''result'', w') \<and>
     rpcs (added calm_world w') = [EProposal (target example_other g) ''Get'' (proposalOptions [Args [''k'']]), EEvaluate p c1]"
proof -
  let ?run = "run_state (EvaluateWith calm_api example_other None ''Get'' [Args [''k'']]) calm_world"
  have "fst ?run = Inr ''result''" by (simp add: evaluate_defs run_simps)
  then obtain w' where run: "?run = (Inr ''result'', w')" by (cases ?run) auto
  from EvaluateWith_spec [OF example_contract_usable(2) calm_api_opaque run] run show ?thesis by auto
qed

definition watched :: "Contract \<Rightarrow> bool" where
  "watched c = (\<exists>ob. cfgObserver (ctCfg c) = Some ob \<and> ob \<noteq> noopObserver)"

lemma watched_observed:
  assumes "usable (ctCfg c)" "watched c"
  shows "observed (observe_effects api c op fn t d err) = [call_info api c op fn t d err]"
proof -
  from assms(2) obtain ob where "cfgObserver (ctCfg c) = Some ob" "ob \<noteq> noopObserver" by (auto simp: watched_def)
  with assms(1) show ?thesis by (cases ob) (simp_all add: observe_effects_def)
qed

lemma err_of_simps [simp]: "err_of (Inl e) = Some e" "err_of (Inr x) = None"
  by (simp_all add: err_of_def)

definition about :: "Contract \<Rightarrow> string \<Rightarrow> CallInfo \<Rightarrow> bool" where
  "about c fn i = (ciChannel i = ctChannel c \<and> ciChaincode i = ctChaincode c \<and> ciContract i = ctContract c \<and> ciFunction i = fn)"

lemma about_call_info [simp]: "about c fn (call_info api c op fn t d err)"
  "ciOperation (call_info api c op fn t d err) = op" "ciErr (call_info api c op fn t d err) = err"
  by (simp_all add: about_def call_info_def)

lemma SubmitWith_observed:
  assumes "usable (ctCfg c)" and "watched c"
  shows "case run_state (SubmitWith api c ctx fn opts) w of (res, w') \<Rightarrow>
    (let seen = observed (added w w') in
     map ciOperation seen = take (length (rpcs (added w w')) - 1) [OpEndorse, OpSubmit, OpCommit] \<and>
     map ciErr seen = (if seen = [] then [] else replicate (length seen - 1) None @ [err_of res]) \<and>
     list_all (about c fn) seen)"
proof (cases rule: SubmitAsync_cases [of api c ctx fn opts w])
  case (ok pend x g r p y d tx y' d' m)
  define w1 where "w1 = snd (run_state (SubmitAsync api c ctx fn opts) w)"
  have w1: "trace w1 = trace w @ proposed c fn opts g r @ endorse_effects api c ctx fn p y d None
       @ submit_effects api c ctx fn (Proposal_TransactionID api p) tx y' d' None"
    by (simp add: w1_def ok(1))
  have run: "run_state (SubmitWith api c ctx fn opts) w = run_state (Wait api pend ctx) w1"
    by (simp add: SubmitWith_def ok(1) w1_def)
  show ?thesis
    by (cases rule: Wait_cases [of api pend ctx w1])
      (use w1 ok(2) assms in \<open>simp_all add: run effects watched_observed numeral_eq_Suc\<close>)
qed (use assms in \<open>simp_all add: SubmitWith_def effects watched_observed added_def numeral_eq_Suc\<close>)

text \<open>
  C25: what an observer sees. An observer gets one record for each phase of a submission that was
  started, in order, and none for the proposal; every record but the last reports success, and
  the last reports the error of the whole call. An evaluation gives exactly one record. Each
  record names the handle's channel, chaincode, contract and the function called.
\<close>

theorem observer_sees_phases:
  assumes "usable (ctCfg c)" and "watched c"
  shows "(case run_state (SubmitWith api c ctx fn opts) w of (res, w') \<Rightarrow>
     (let seen = observed (added w w') in
      map ciOperation seen = take (length (rpcs (added w w')) - 1) [OpEndorse, OpSubmit, OpCommit] \<and>
      map ciErr seen = (if seen = [] then [] else replicate (length seen - 1) None @ [err_of res]) \<and>
      list_all (about c fn) seen)) \<and>
    (case run_state (EvaluateWith api c ctx fn opts) w of (res, w') \<Rightarrow>
      \<exists>i. observed (added w w') = [i] \<and> ciOperation i = OpEvaluate \<and> ciErr i = err_of res \<and> about c fn i)"
proof -
  let ?w = "w\<lparr>ext := snd (time_Now api (ext w))\<rparr>"
  have "case run_state (EvaluateWith api c ctx fn opts) w of (res, w') \<Rightarrow>
      \<exists>i. observed (added w w') = [i] \<and> ciOperation i = OpEvaluate \<and> ciErr i = err_of res \<and> about c fn i"
    by (cases rule: evaluate_body_cases [of api c ctx fn opts ?w])
      (use assms in \<open>simp_all add: run_EvaluateWith watched_observed\<close>)
  with SubmitWith_observed [OF assms, where api = api and ctx = ctx and fn = fn and opts = opts and w = w] show ?thesis by (rule conjI)
qed

definition watched_contract :: Contract where
  "watched_contract = example_other\<lparr>ctFc := example_client\<lparr>fcCfg := (fcCfg example_client)\<lparr>cfgObserver := Some (ObserverFunc 9)\<rparr>\<rparr>\<rparr>"

lemma watched_contract_ok: "usable (ctCfg watched_contract)" "watched watched_contract"
  using example_client_built by (simp_all add: watched_contract_def watched_def built_def usable_def)

theorem observer_sees_phases_witness:
  "\<exists>i. observed (added calm_world (snd (run_state (EvaluateWith calm_api watched_contract None ''Get'' []) calm_world))) = [i] \<and>
     ciOperation i = ''evaluate'' \<and> ciFunction i = ''Get''"
  using observer_sees_phases [OF watched_contract_ok, where api = calm_api and ctx = None and fn = "''Get''" and opts = "[]" and w = calm_world]
  by (auto simp: OpEvaluate_def about_def split: prod.splits)

definition safe_line :: "string \<Rightarrow> logline \<Rightarrow> bool" where
  "safe_line fn l =
     (\<exists>op t e b. l = failure_line op fn t e \<or>
        l = \<lparr>llLevel = LevelInfo, llMsg = ''fabricsdk: committed'',
             llKeys = [(''fn'', LStr fn), (''txID'', LStr t), (''block'', LNum b)]\<rparr>)"

lemma safe_effects:
  assumes "usable (ctCfg c)"
  shows "list_all (safe_line fn) (logged (observe_effects api c op fn t d err))"
    "pContract p = c \<Longrightarrow> pFn p = fn \<Longrightarrow> list_all (safe_line fn) (logged (committed_log p st))"
proof -
  show "list_all (safe_line fn) (logged (observe_effects api c op fn t d err))"
    using observe_effects_usable(2) [OF assms, of api op fn t d err] unfolding list_all_iff safe_line_def by blast
  show "pContract p = c \<Longrightarrow> pFn p = fn \<Longrightarrow> list_all (safe_line fn) (logged (committed_log p st))"
    using committed_log_usable(4) [of p st] assms unfolding list_all_iff safe_line_def by blast
qed





text \<open>
  \<open>Submit\<close> drops the pending transaction when \<open>Wait\<close> fails, and nothing then closes the Gateway that
  was opened for an identity other than the client's.
\<close>

lemma SubmitWith_leaks_gateway:
  "gateways (added calm_world (snd (run_state (SubmitWith lost_peer_api example_other None ''Set'' []) calm_world))) = [EGatewayOpen 100]"
proof -
  have "ext calm_world = 100" by (simp add: calm_world_def)
  then have "\<exists>es. trace (snd (run_state (SubmitWith lost_peer_api example_other None ''Set'' []) calm_world)) =
      trace calm_world @ es \<and> gateways es = [EGatewayOpen 100]"
    by (simp add: submit_defs run_simps)
  then show ?thesis by auto
qed

end
