(* ===== verification/Events.thy ===== *)
theory Events
  imports Contract_Calls
begin

text \<open>
  Event streams (\<open>src/events.go\<close>, up to the listeners): checkpointers, the options of a stream,
  opening one, and the goroutine that forwards events from the Gateway client to the
  application. The goroutine is modelled twice: run together with a ready receiver, as the
  listeners use it (\<open>stream_recv\<close>), and as a step relation that interleaves with the receiver,
  the caller's context and \<open>Close\<close>; every run of the former is one of the latter.
\<close>

section \<open>The code outside the repository\<close>

text \<open>
  What the event code calls: the Gateway client's subscriptions and checkpointers, the channels
  it returns, Go's contexts, timers and \<open>select\<close>. As in \<open>api\<close>, each is a function over the outside
  state. A checkpointer is passed by reference; one of the application's own is \<open>UserCheckpointer\<close>.
\<close>

datatype Checkpointer = memoryCheckpointer nat | FileCheckpointer nat | UserCheckpointer nat

datatype EventsOption = WithStartBlock uint64 | WithCheckpoint Checkpointer

text \<open>An event of the Gateway client.\<close>

record GatewayEvent =
  geBlockNumber :: uint64
  geTransactionID :: string
  geChaincodeName :: string
  geEventName :: string
  gePayload :: bytes

record 'w eapi =
  Network_ChaincodeEvents :: "nat \<Rightarrow> string \<Rightarrow> Ctx \<Rightarrow> string \<Rightarrow> EventsOption list \<Rightarrow> 'w \<Rightarrow> (err + nat) \<times> 'w"
  Network_BlockEvents :: "nat \<Rightarrow> string \<Rightarrow> Ctx \<Rightarrow> EventsOption list \<Rightarrow> 'w \<Rightarrow> (err + nat) \<times> 'w"
  recv_event :: "nat \<Rightarrow> 'w \<Rightarrow> GatewayEvent option \<times> 'w" \<comment> \<open>receive from a channel; None: it is closed\<close>
  recv_block :: "nat \<Rightarrow> 'w \<Rightarrow> nat option \<times> 'w"
  Block_Number :: "nat \<Rightarrow> uint64"
  ctx_ended :: "Ctx \<Rightarrow> 'w \<Rightarrow> bool \<times> 'w" \<comment> \<open>whether Err of the context is not nil\<close>
  select_send :: "nat \<Rightarrow> 'w \<Rightarrow> bool \<times> 'w" \<comment> \<open>whether a ready receiver wins against an ended context\<close>
  timer_fires :: "Ctx \<Rightarrow> Duration \<Rightarrow> 'w \<Rightarrow> bool \<times> 'w" \<comment> \<open>whether the timer fires before the context ends\<close>
  InMemory_New :: "'w \<Rightarrow> nat \<times> 'w" \<comment> \<open>a zero InMemoryCheckpointer\<close>
  InMemory_BlockNumber :: "nat \<Rightarrow> 'w \<Rightarrow> uint64"
  InMemory_TransactionID :: "nat \<Rightarrow> 'w \<Rightarrow> string"
  InMemory_CheckpointBlock :: "nat \<Rightarrow> uint64 \<Rightarrow> 'w \<Rightarrow> 'w"
  InMemory_CheckpointTransaction :: "nat \<Rightarrow> uint64 \<Rightarrow> string \<Rightarrow> 'w \<Rightarrow> 'w"
  File_New :: "string \<Rightarrow> 'w \<Rightarrow> (err + nat) \<times> 'w"
  File_BlockNumber :: "nat \<Rightarrow> 'w \<Rightarrow> uint64"
  File_TransactionID :: "nat \<Rightarrow> 'w \<Rightarrow> string"
  File_CheckpointBlock :: "nat \<Rightarrow> uint64 \<Rightarrow> 'w \<Rightarrow> err option \<times> 'w"
  File_CheckpointTransaction :: "nat \<Rightarrow> uint64 \<Rightarrow> string \<Rightarrow> 'w \<Rightarrow> err option \<times> 'w"
  File_Close :: "nat \<Rightarrow> 'w \<Rightarrow> err option \<times> 'w"
  User_BlockNumber :: "nat \<Rightarrow> 'w \<Rightarrow> uint64"
  User_TransactionID :: "nat \<Rightarrow> 'w \<Rightarrow> string"
  User_CheckpointBlock :: "nat \<Rightarrow> uint64 \<Rightarrow> 'w \<Rightarrow> err option \<times> 'w"
  User_CheckpointTransaction :: "nat \<Rightarrow> uint64 \<Rightarrow> string \<Rightarrow> 'w \<Rightarrow> err option \<times> 'w"

section \<open>Checkpointers\<close>

text \<open>
  The methods of the interface \<open>Checkpointer\<close>, by implementation: the memory one delegates to the
  Gateway client's and never fails, the file one has the methods of the structure it embeds.
\<close>

fun BlockNumber :: "'w eapi \<Rightarrow> Checkpointer \<Rightarrow> 'w \<Rightarrow> uint64" where
  "BlockNumber ev (memoryCheckpointer m) x = InMemory_BlockNumber ev m x"
| "BlockNumber ev (FileCheckpointer f) x = File_BlockNumber ev f x"
| "BlockNumber ev (UserCheckpointer u) x = User_BlockNumber ev u x"

fun TransactionID :: "'w eapi \<Rightarrow> Checkpointer \<Rightarrow> 'w \<Rightarrow> string" where
  "TransactionID ev (memoryCheckpointer m) x = InMemory_TransactionID ev m x"
| "TransactionID ev (FileCheckpointer f) x = File_TransactionID ev f x"
| "TransactionID ev (UserCheckpointer u) x = User_TransactionID ev u x"

fun CheckpointBlock :: "'w eapi \<Rightarrow> Checkpointer \<Rightarrow> uint64 \<Rightarrow> 'w \<Rightarrow> err option \<times> 'w" where
  "CheckpointBlock ev (memoryCheckpointer m) n x = (None, InMemory_CheckpointBlock ev m n x)"
| "CheckpointBlock ev (FileCheckpointer f) n x = File_CheckpointBlock ev f n x"
| "CheckpointBlock ev (UserCheckpointer u) n x = User_CheckpointBlock ev u n x"

fun CheckpointTransaction :: "'w eapi \<Rightarrow> Checkpointer \<Rightarrow> uint64 \<Rightarrow> string \<Rightarrow> 'w \<Rightarrow> err option \<times> 'w" where
  "CheckpointTransaction ev (memoryCheckpointer m) n t x = (None, InMemory_CheckpointTransaction ev m n t x)"
| "CheckpointTransaction ev (FileCheckpointer f) n t x = File_CheckpointTransaction ev f n t x"
| "CheckpointTransaction ev (UserCheckpointer u) n t x = User_CheckpointTransaction ev u n t x"

definition NewMemoryCheckpointer :: "'w eapi \<Rightarrow> ('w, Checkpointer) op" where
  "NewMemoryCheckpointer ev = do { m \<leftarrow> outside (InMemory_New ev); State_Monad.return (memoryCheckpointer m) }"

definition NewFileCheckpointer :: "'w eapi \<Rightarrow> string \<Rightarrow> ('w, err + Checkpointer) op" where
  "NewFileCheckpointer ev path =
     do { r \<leftarrow> outside (File_New ev path);
          State_Monad.return (case r of Inl e \<Rightarrow> Inl (configError e) | Inr f \<Rightarrow> Inr (FileCheckpointer f)) }"

section \<open>Options\<close>

record eventOptions =
  eoStartBlock :: "uint64 option"
  eoCheckpoint :: "Checkpointer option"
  eoChaincode :: string
  eoMinBackoff :: Duration
  eoMaxBackoff :: Duration

type_synonym EventOption = "eventOptions \<Rightarrow> eventOptions"

definition FromBlock :: "uint64 \<Rightarrow> EventOption" where
  "FromBlock n o' = o'\<lparr>eoStartBlock := Some n\<rparr>"

definition WithCheckpointer :: "Checkpointer option \<Rightarrow> EventOption" where
  "WithCheckpointer cp o' = o'\<lparr>eoCheckpoint := cp\<rparr>"

definition ForChaincode :: "string \<Rightarrow> EventOption" where
  "ForChaincode name o' = o'\<lparr>eoChaincode := name\<rparr>"

definition RetryBackoff :: "Duration \<Rightarrow> Duration \<Rightarrow> EventOption" where
  "RetryBackoff mn mx o' = o'\<lparr>eoMinBackoff := mn, eoMaxBackoff := mx\<rparr>"

definition event_options :: "Contract \<Rightarrow> EventOption list \<Rightarrow> eventOptions" where
  "event_options c opts =
     (let o1 = foldl (\<lambda>q opt. opt q)
                 \<lparr>eoStartBlock = None, eoCheckpoint = None, eoChaincode = ctChaincode c,
                  eoMinBackoff = Second, eoMaxBackoff = 30 * Second\<rparr> opts;
          o2 = (if eoMinBackoff o1 \<le> 0 then o1\<lparr>eoMinBackoff := Second\<rparr> else o1)
      in if eoMaxBackoff o2 < eoMinBackoff o2 then o2\<lparr>eoMaxBackoff := eoMinBackoff o2\<rparr> else o2)"

section \<open>One event stream\<close>

text \<open>
  A stream by reference; whether its context was cancelled and its field \<open>err\<close> are in the world.
\<close>

record EventStream =
  esAddr :: nat
  esCtx :: Ctx
  esUpstream :: nat
  esRelease :: release

definition convert :: "GatewayEvent \<Rightarrow> ChaincodeEvent" where
  "convert g = \<lparr>evBlockNumber = geBlockNumber g, evTxID = geTransactionID g, evChaincodeName = geChaincodeName g,
                evEventName = geEventName g, evPayload = gePayload g\<rparr>"

definition stream_closed_error :: err where
  "stream_closed_error =
     SDKError \<lparr>eKind = KindUnavailable, eSource = SourceNetwork, eCode = 503, eMessage = ErrStreamClosed_text, eTxID = '''',
       eValidationCode = 0, eGRPCCode = codes_OK, eDetails = [], eOutcomeUnknown = False\<rparr> (Some ErrStreamClosed)"

definition stop :: "nat \<Rightarrow> ('w, unit) op" where
  "stop a = poke (\<lambda>w. w\<lparr>stopped := (stopped w)(a := True)\<rparr>)"

definition stream_options :: "eventOptions \<Rightarrow> EventsOption list" where
  "stream_options q =
     (case eoStartBlock q of Some n \<Rightarrow> [WithStartBlock n] | None \<Rightarrow> [])
     @ (case eoCheckpoint q of Some cp \<Rightarrow> [WithCheckpoint cp] | None \<Rightarrow> [])"

definition ChaincodeEvents :: "'w api \<Rightarrow> 'w eapi \<Rightarrow> Contract \<Rightarrow> Ctx \<Rightarrow> EventOption list \<Rightarrow> ('w, err + EventStream) op" where
  "ChaincodeEvents api ev c ctx opts =
     (let q = event_options c opts in
      do { g \<leftarrow> gateway api c;
           case g of
             Inl e \<Rightarrow> State_Monad.return (Inl e)
           | Inr (gw, release) \<Rightarrow>
               do { a \<leftarrow> alloc;
                    poke (\<lambda>w. w\<lparr>stopped := (stopped w)(a := False), streamErr := (streamErr w)(a := None)\<rparr>);
                    u \<leftarrow> outside (Network_ChaincodeEvents ev gw (ctChannel c) (WithCancel ctx) (eoChaincode q) (stream_options q));
                    case u of
                      Inl e \<Rightarrow> do { stop a; run_release api release;
                                    State_Monad.return (Inl (classifyErr api e '''' phaseEvaluate True)) }
                    | Inr upstream \<Rightarrow>
                        do { emit (EStreamOpen a);
                             State_Monad.return (Inr \<lparr>esAddr = a, esCtx = ctx, esUpstream = upstream, esRelease = release\<rparr>) } } })"

definition FabricClient_Events :: "'w api \<Rightarrow> 'w eapi \<Rightarrow> FabricClient \<Rightarrow> Ctx \<Rightarrow> EventOption list \<Rightarrow> ('w, err + EventStream) op" where
  "FabricClient_Events api ev fc ctx opts = ChaincodeEvents api ev (FabricClient_Contract fc) ctx opts"

definition EventStream_Err :: "EventStream \<Rightarrow> ('w, err option) op" where
  "EventStream_Err s = peek (\<lambda>w. streamErr w (esAddr s))"

definition EventStream_Close :: "EventStream \<Rightarrow> ('w, unit) op" where
  "EventStream_Close s = do { emit (EStreamStop (esAddr s)); stop (esAddr s) }"

text \<open>
  Receiving from the stream's channel, run together with the goroutine that feeds it: the
  goroutine takes the next event of the upstream channel and offers it; at the end of the
  upstream, or when it sees the context ended, it sets \<open>err\<close>, closes the channel and releases
  the Gateway.
\<close>

definition forward_end :: "'w eapi \<Rightarrow> EventStream \<Rightarrow> ('w, unit) op" where
  "forward_end ev s =
     do { c \<leftarrow> outside (ctx_ended ev (esCtx s));
          st \<leftarrow> peek (\<lambda>w. stopped w (esAddr s));
          (if \<not> c \<and> \<not> st
           then poke (\<lambda>w. w\<lparr>streamErr := (streamErr w)(esAddr s := Some stream_closed_error)\<rparr>)
           else State_Monad.return ());
          stop (esAddr s) }"

definition stream_recv :: "'w api \<Rightarrow> 'w eapi \<Rightarrow> EventStream \<Rightarrow> ('w, ChaincodeEvent option) op" where
  "stream_recv api ev s =
     do { e \<leftarrow> outside (recv_event ev (esUpstream s));
          case e of
            None \<Rightarrow> do { forward_end ev s; run_release api (esRelease s); State_Monad.return None }
          | Some g \<Rightarrow>
              do { c \<leftarrow> outside (ctx_ended ev (esCtx s));
                   st \<leftarrow> peek (\<lambda>w. stopped w (esAddr s));
                   sent \<leftarrow> (if c \<or> st then outside (select_send ev (esUpstream s)) else State_Monad.return True);
                   if sent then State_Monad.return (Some (convert g))
                   else do { run_release api (esRelease s); State_Monad.return None } } }"

section \<open>The forwarding goroutine as a step relation\<close>

text \<open>
  The points of the goroutine: receiving from the upstream channel, offering an event, the two
  readings of the contexts after the upstream ended, the call of \<open>stop\<close>, the two deferred calls,
  and its end.
\<close>

datatype point = Receiving | Offering ChaincodeEvent | Ended | CtxAlive | Stopping | Closing | Releasing | Finished

text \<open>
  The state of a stream: what came from upstream and what the application received, the field
  \<open>err\<close>, whether the caller's context ended, \<open>Close\<close> was called, the goroutine called \<open>stop\<close>, the
  channel is closed, and how often the Gateway was released.
\<close>

record stream_state =
  at :: point
  received :: "GatewayEvent list"
  delivered :: "ChaincodeEvent list"
  sErr :: "err option"
  ctxDone :: bool
  closeCalled :: bool
  stopCalled :: bool
  chClosed :: bool
  releases :: nat

definition sctxDone :: "stream_state \<Rightarrow> bool" where
  "sctxDone s = (ctxDone s \<or> closeCalled s \<or> stopCalled s)"

definition stream_init :: stream_state where
  "stream_init = \<lparr>at = Receiving, received = [], delivered = [], sErr = None, ctxDone = False, closeCalled = False,
     stopCalled = False, chClosed = False, releases = 0\<rparr>"

inductive stream_step :: "stream_state \<Rightarrow> stream_state \<Rightarrow> bool" where
  recv: "at s = Receiving \<Longrightarrow> stream_step s (s\<lparr>at := Offering (convert g), received := received s @ [g]\<rparr>)"
| upstream_closed: "at s = Receiving \<Longrightarrow> stream_step s (s\<lparr>at := Ended\<rparr>)"
| send: "at s = Offering e \<Longrightarrow> stream_step s (s\<lparr>at := Receiving, delivered := delivered s @ [e]\<rparr>)"
| abandon: "at s = Offering e \<Longrightarrow> sctxDone s \<Longrightarrow> stream_step s (s\<lparr>at := Closing\<rparr>)"
| ctx_err: "at s = Ended \<Longrightarrow> stream_step s (s\<lparr>at := (if ctxDone s then Stopping else CtxAlive)\<rparr>)"
| sctx_err: "at s = CtxAlive \<Longrightarrow>
    stream_step s (s\<lparr>at := Stopping, sErr := (if sctxDone s then sErr s else Some stream_closed_error)\<rparr>)"
| stop: "at s = Stopping \<Longrightarrow> stream_step s (s\<lparr>at := Closing, stopCalled := True\<rparr>)"
| close_channel: "at s = Closing \<Longrightarrow> stream_step s (s\<lparr>at := Releasing, chClosed := True\<rparr>)"
| release: "at s = Releasing \<Longrightarrow> stream_step s (s\<lparr>at := Finished, releases := Suc (releases s)\<rparr>)"
| caller_ends: "stream_step s (s\<lparr>ctxDone := True\<rparr>)"
| close_called: "stream_step s (s\<lparr>closeCalled := True\<rparr>)"

definition stream_reachable :: "stream_state \<Rightarrow> bool" where
  "stream_reachable s = stream_step\<^sup>*\<^sup>* stream_init s"

text \<open>What is true of a stream at every moment.\<close>

definition pending :: "point \<Rightarrow> ChaincodeEvent list" where
  "pending p = (case p of Offering e \<Rightarrow> [e] | _ \<Rightarrow> [])"

definition stream_inv :: "stream_state \<Rightarrow> bool" where
  "stream_inv s =
     ((\<exists>lost. map convert (received s) = delivered s @ pending (at s) @ lost \<and> length lost \<le> 1 \<and>
         (lost \<noteq> [] \<longrightarrow> sErr s = None \<and> at s \<in> {Closing, Releasing, Finished})) \<and>
      (sErr s = None \<or> sErr s = Some stream_closed_error \<and> at s \<in> {Stopping, Closing, Releasing, Finished}) \<and>
      (chClosed s \<longleftrightarrow> at s \<in> {Releasing, Finished}) \<and>
      (at s \<in> {Closing, Releasing, Finished} \<and> sErr s = None \<longrightarrow> ctxDone s \<or> closeCalled s) \<and>
      (at s = Stopping \<and> sErr s = None \<longrightarrow> ctxDone s \<or> closeCalled s) \<and>
      (stopCalled s \<longrightarrow> at s \<in> {Closing, Releasing, Finished}) \<and>
      releases s = (if at s = Finished then 1 else 0))"

lemma stream_inv_init: "stream_inv stream_init"
  by (simp add: stream_inv_def stream_init_def pending_def)

lemma stream_inv_step: "stream_step s t \<Longrightarrow> stream_inv s \<Longrightarrow> stream_inv t"
  by (erule stream_step.cases) (auto simp: stream_inv_def pending_def sctxDone_def)

lemma stream_inv_reachable: "stream_reachable s \<Longrightarrow> stream_inv s"
  unfolding stream_reachable_def
  by (induction rule: rtranclp_induct) (auto simp: stream_inv_init dest: stream_inv_step)

lemma stream_closed_stable:
  assumes "stream_inv s" "stream_step s t" "chClosed s"
  shows "chClosed t \<and> sErr t = sErr s \<and> delivered t = delivered s"
  using assms(2) by cases (use assms(1,3) in \<open>auto simp: stream_inv_def\<close>)

lemma stream_closed_forever:
  "stream_step\<^sup>*\<^sup>* s t \<Longrightarrow> stream_inv s \<Longrightarrow> chClosed s \<Longrightarrow> chClosed t \<and> sErr t = sErr s \<and> delivered t = delivered s"
proof (induction rule: converse_rtranclp_induct)
  case (step y z)
  with stream_closed_stable [of y z] stream_inv_step [of y z] show ?case by simp
qed simp

section \<open>Ending a stream\<close>

text \<open>The next step of the goroutine on its way to the end.\<close>

definition to_end :: "stream_state \<Rightarrow> stream_state" where
  "to_end s =
     (case at s of
        Receiving \<Rightarrow> s\<lparr>at := Ended\<rparr>
      | Offering e \<Rightarrow> s\<lparr>at := Closing\<rparr>
      | Ended \<Rightarrow> s\<lparr>at := (if ctxDone s then Stopping else CtxAlive)\<rparr>
      | CtxAlive \<Rightarrow> s\<lparr>at := Stopping, sErr := (if sctxDone s then sErr s else Some stream_closed_error)\<rparr>
      | Stopping \<Rightarrow> s\<lparr>at := Closing, stopCalled := True\<rparr>
      | Closing \<Rightarrow> s\<lparr>at := Releasing, chClosed := True\<rparr>
      | Releasing \<Rightarrow> s\<lparr>at := Finished, releases := Suc (releases s)\<rparr>
      | Finished \<Rightarrow> s)"

fun rank :: "point \<Rightarrow> nat" where
  "rank Receiving = 6" | "rank (Offering e) = 3" | "rank Ended = 5" | "rank CtxAlive = 4"
| "rank Stopping = 3" | "rank Closing = 2" | "rank Releasing = 1" | "rank Finished = 0"

lemma rank_0: "rank p = 0 \<longleftrightarrow> p = Finished"
  by (cases p) auto

lemma to_end_step:
  "at s \<noteq> Finished \<Longrightarrow> (\<forall>e. at s = Offering e \<longrightarrow> sctxDone s) \<Longrightarrow> stream_step s (to_end s)"
  by (cases "at s") (auto simp: to_end_def split del: if_split intro: stream_step.intros)

lemma to_end_fields:
  "received (to_end s) = received s" "delivered (to_end s) = delivered s" "at (to_end s) \<noteq> Offering e"
  "rank (at (to_end s)) \<le> rank (at s) - 1"
  by (cases "at s"; simp add: to_end_def)+

lemma to_end_Finished: "at s = Finished \<Longrightarrow> to_end s = s"
  by (simp add: to_end_def)

lemma to_end_kept [simp]:
  "received ((to_end ^^ n) s) = received s" "delivered ((to_end ^^ n) s) = delivered s"
  by (induction n) (simp_all add: to_end_fields)

lemma to_end_run:
  assumes "\<forall>e. at s = Offering e \<longrightarrow> sctxDone s"
  shows "stream_step\<^sup>*\<^sup>* s ((to_end ^^ n) s) \<and> (\<forall>e. at ((to_end ^^ n) s) = Offering e \<longrightarrow> sctxDone ((to_end ^^ n) s)) \<and>
     rank (at ((to_end ^^ n) s)) \<le> rank (at s) - n"
proof (induction n)
  case (Suc n)
  let ?t = "(to_end ^^ n) s"
  have "stream_step\<^sup>*\<^sup>* ?t (to_end ?t)"
    using Suc to_end_step [of ?t] by (cases "at ?t = Finished") (auto simp: to_end_Finished)
  with Suc to_end_fields [of ?t] show ?case by (auto intro: rtranclp_trans)
qed (use assms in simp)

lemma to_end_finishes:
  assumes "\<forall>e. at s = Offering e \<longrightarrow> sctxDone s"
  shows "stream_step\<^sup>*\<^sup>* s ((to_end ^^ 6) s) \<and> at ((to_end ^^ 6) s) = Finished"
proof -
  have "rank (at s) \<le> 6" by (cases "at s") auto
  with to_end_run [OF assms, of 6] show ?thesis by (simp add: rank_0)
qed

section \<open>Properties of a stream\<close>

text \<open>
  C8: what an event stream delivers. At every moment of every interleaving of the goroutine, the
  receiver, the end of the caller's context and \<open>Close\<close>, the application has received the events
  of the upstream channel in order, none twice and none left out, at most the last one missing.
  Once the channel is closed, \<open>Err\<close> no longer changes; it is nil only if the caller's context
  ended or \<open>Close\<close> was called, and otherwise reports \<open>ErrStreamClosed\<close>, when every event received
  from the Gateway has been delivered. The Gateway is released at most once, after the channel
  is closed.
\<close>

theorem stream_delivers_in_order:
  assumes "stream_reachable s"
  shows "prefix (delivered s) (map convert (received s)) \<and> length (received s) \<le> Suc (length (delivered s)) \<and>
    (chClosed s \<longrightarrow>
       (case sErr s of
          None \<Rightarrow> ctxDone s \<or> closeCalled s
        | Some e \<Rightarrow> e = stream_closed_error \<and> delivered s = map convert (received s))) \<and>
    (\<forall>t. chClosed s \<and> stream_step\<^sup>*\<^sup>* s t \<longrightarrow> sErr t = sErr s \<and> delivered t = delivered s) \<and>
    releases s \<le> 1 \<and> (releases s = 1 \<longrightarrow> chClosed s)"
proof -
  from assms have inv: "stream_inv s" by (rule stream_inv_reachable)
  from inv [unfolded stream_inv_def, THEN conjunct1] obtain lost where
    lost: "map convert (received s) = delivered s @ pending (at s) @ lost" "length lost \<le> 1"
      "lost \<noteq> [] \<longrightarrow> sErr s = None \<and> at s \<in> {Closing, Releasing, Finished}" by (elim exE conjE)
  from inv have sErr: "sErr s = None \<or> sErr s = Some stream_closed_error \<and> at s \<in> {Stopping, Closing, Releasing, Finished}"
    and closed: "chClosed s \<longleftrightarrow> at s \<in> {Releasing, Finished}"
    and why: "at s \<in> {Closing, Releasing, Finished} \<and> sErr s = None \<longrightarrow> ctxDone s \<or> closeCalled s"
    and rel: "releases s = (if at s = Finished then 1 else 0)"
    unfolding stream_inv_def by blast+
  have len: "length (pending (at s) @ lost) \<le> 1"
    using lost(2,3) by (cases "lost = []") (auto simp: pending_def split: point.splits)
  have "length (received s) = length (delivered s) + length (pending (at s) @ lost)"
    using arg_cong [OF lost(1), of length] by simp
  with len have "length (received s) \<le> Suc (length (delivered s))" by simp
  moreover have "prefix (delivered s) (map convert (received s))" by (simp add: lost(1))
  moreover have "chClosed s \<longrightarrow> (case sErr s of None \<Rightarrow> ctxDone s \<or> closeCalled s
        | Some e \<Rightarrow> e = stream_closed_error \<and> delivered s = map convert (received s))"
  proof (cases "sErr s")
    case None
    with closed why show ?thesis by auto
  next
    case (Some e)
    with sErr have "e = stream_closed_error" "pending (at s) = []" by (auto simp: pending_def)
    with Some lost(1,3) show ?thesis by auto
  qed
  moreover have "\<forall>t. chClosed s \<and> stream_step\<^sup>*\<^sup>* s t \<longrightarrow> sErr t = sErr s \<and> delivered t = delivered s"
    using inv stream_closed_forever by blast
  moreover have "releases s \<le> 1 \<and> (releases s = 1 \<longrightarrow> chClosed s)"
    using rel closed by simp
  ultimately show ?thesis by blast
qed

definition example_event :: GatewayEvent where
  "example_event = \<lparr>geBlockNumber = 7, geTransactionID = ''t1'', geChaincodeName = ''basic'', geEventName = ''E'', gePayload = ''p''\<rparr>"

text \<open>One event is delivered, then the Gateway ends the stream.\<close>

definition example_end :: stream_state where
  "example_end = (to_end ^^ 6) (stream_init\<lparr>received := [example_event], delivered := [convert example_event]\<rparr>)"

lemma example_end_reachable: "stream_reachable example_end"
proof -
  let ?s = "stream_init\<lparr>received := [example_event], delivered := [convert example_event]\<rparr>"
  have "stream_step stream_init (stream_init\<lparr>at := Offering (convert example_event), received := [example_event]\<rparr>)"
    using stream_step.recv [of stream_init example_event] by (simp add: stream_init_def)
  moreover have "stream_step (stream_init\<lparr>at := Offering (convert example_event), received := [example_event]\<rparr>) ?s"
    using stream_step.send [of "stream_init\<lparr>at := Offering (convert example_event), received := [example_event]\<rparr>"]
    by (simp add: stream_init_def)
  moreover have "stream_step\<^sup>*\<^sup>* ?s example_end"
    using to_end_finishes [of ?s] by (simp add: example_end_def stream_init_def)
  ultimately show ?thesis unfolding stream_reachable_def by (meson converse_rtranclp_into_rtranclp)
qed

theorem stream_delivers_in_order_witness:
  "prefix (delivered example_end) (map convert (received example_end)) \<and> delivered example_end = [convert example_event] \<and> releases example_end \<le> 1"
  using stream_delivers_in_order [OF example_end_reachable] by (simp add: example_end_def)



section \<open>Receiving is a run of the goroutine\<close>

text \<open>
  A stream in the world and a state of the step relation between two receives: the goroutine is
  at its receive, the fields agree, and nothing was closed or released.
\<close>

definition matches :: "'w world \<Rightarrow> EventStream \<Rightarrow> stream_state \<Rightarrow> bool" where
  "matches w s q =
     (at q = Receiving \<and> \<not> ctxDone q \<and> \<not> stopCalled q \<and> closeCalled q = stopped w (esAddr s) \<and>
      sErr q = streamErr w (esAddr s))"

lemma ChaincodeEvents_matches:
  assumes "run_state (ChaincodeEvents api ev c ctx opts) w = (Inr s, w')"
  shows "matches w' s stream_init"
proof (cases rule: gateway_cases [of api c w])
  case (refused e x)
  with assms show ?thesis by (simp add: ChaincodeEvents_def Let_def)
next
  case (ok g r x)
  obtain u y where u: "Network_ChaincodeEvents ev g (ctChannel c) (WithCancel ctx) (eoChaincode (event_options c opts))
      (stream_options (event_options c opts)) x = (u, y)" by fastforce
  show ?thesis
    using assms ok(1) u
    by (cases u) (auto simp: ChaincodeEvents_def Let_def matches_def stream_init_def run_simps stop_def)
qed

lemma run_stream_recv:
  "run_state (stream_recv api ev s) w =
     (let (e, x) = recv_event ev (esUpstream s) (ext w); (c, y) = ctx_ended ev (esCtx s) x; st = stopped w (esAddr s)
      in case e of
           None \<Rightarrow> (None, w\<lparr>ext := release_ext api (esRelease s) y, trace := trace w @ closes (esRelease s),
                       stopped := (stopped w)(esAddr s := True),
                       streamErr := (if c \<or> st then streamErr w else (streamErr w)(esAddr s := Some stream_closed_error))\<rparr>)
         | Some g \<Rightarrow>
             (if \<not> c \<and> \<not> st then (Some (convert g), w\<lparr>ext := y\<rparr>)
              else (let (sent, z) = select_send ev (esUpstream s) y
                    in if sent then (Some (convert g), w\<lparr>ext := z\<rparr>)
                       else (None, w\<lparr>ext := release_ext api (esRelease s) z, trace := trace w @ closes (esRelease s)\<rparr>))))"
  by (auto simp: stream_recv_def forward_end_def stop_def run_simps Let_def split: option.splits prod.splits)

lemma recv_some_steps:
  assumes "at q = Receiving"
  shows "stream_step\<^sup>*\<^sup>* q (q\<lparr>received := received q @ [g], at := Receiving, delivered := delivered q @ [convert g]\<rparr>)"
proof -
  let ?q = "q\<lparr>at := Offering (convert g), received := received q @ [g]\<rparr>"
  have "stream_step q ?q" using assms by (rule stream_step.recv)
  moreover have "stream_step ?q (q\<lparr>received := received q @ [g], at := Receiving, delivered := delivered q @ [convert g]\<rparr>)"
    using stream_step.send [of ?q "convert g"] by simp
  ultimately show ?thesis by (meson converse_rtranclp_into_rtranclp rtranclp.rtrancl_refl)
qed

lemma to_end_at:
  "at s = Receiving \<Longrightarrow> to_end s = s\<lparr>at := Ended\<rparr>" "at s = Offering e \<Longrightarrow> to_end s = s\<lparr>at := Closing\<rparr>"
  "at s = Ended \<Longrightarrow> to_end s = s\<lparr>at := (if ctxDone s then Stopping else CtxAlive)\<rparr>"
  "at s = CtxAlive \<Longrightarrow> to_end s = s\<lparr>at := Stopping, sErr := (if sctxDone s then sErr s else Some stream_closed_error)\<rparr>"
  "at s = Stopping \<Longrightarrow> to_end s = s\<lparr>at := Closing, stopCalled := True\<rparr>"
  "at s = Closing \<Longrightarrow> to_end s = s\<lparr>at := Releasing, chClosed := True\<rparr>"
  "at s = Releasing \<Longrightarrow> to_end s = s\<lparr>at := Finished, releases := Suc (releases s)\<rparr>"
  by (simp_all add: to_end_def)

lemma to_end_err:
  "at q = Receiving \<Longrightarrow> sErr q = None \<Longrightarrow>
     sErr ((to_end ^^ 6) q) = (if sctxDone q then None else Some stream_closed_error)"
  "at q = Offering e \<Longrightarrow> sErr ((to_end ^^ 6) q) = sErr q"
  by (cases "ctxDone q"; simp add: numeral_eq_Suc to_end_at to_end_Finished sctxDone_def)+

text \<open>
  C31: the model of receiving that the listeners use is faithful to the concurrent goroutine.
  When a stream in the world matches a state of the step relation, a receive that yields an event
  is a run of the goroutine that delivers that event to the application and reaches a matching
  state again; a receive that finds the channel closed is a run of the goroutine to its end that
  delivers nothing more, and \<open>Err\<close> then returns what the goroutine set.
\<close>

theorem stream_recv_simulated:
  assumes "matches w s q" and "sErr q = None" and "run_state (stream_recv api ev s) w = (r, w')"
  shows "\<exists>q'. stream_step\<^sup>*\<^sup>* q q' \<and>
    (case r of
       Some e \<Rightarrow> matches w' s q' \<and> delivered q' = delivered q @ [e]
     | None \<Rightarrow> at q' = Finished \<and> delivered q' = delivered q \<and> sErr q' = streamErr w' (esAddr s))"
proof -
  from assms(1) have q: "at q = Receiving" "\<not> ctxDone q" "\<not> stopCalled q" "closeCalled q = stopped w (esAddr s)"
    "sErr q = streamErr w (esAddr s)" by (simp_all add: matches_def)
  obtain e x where e: "recv_event ev (esUpstream s) (ext w) = (e, x)" by fastforce
  obtain c y where c: "ctx_ended ev (esCtx s) x = (c, y)" by fastforce
  obtain snt z where z: "select_send ev (esUpstream s) y = (snt, z)" by fastforce
  note run = assms(3) [simplified run_stream_recv e c z Let_def prod.case]
  let ?c = "q\<lparr>ctxDone := c\<rparr>"
  have to_c: "stream_step\<^sup>*\<^sup>* q ?c"
    using stream_step.caller_ends [of q] q(2) by (cases c) (cases q; auto)+
  show ?thesis
  proof (cases e)
    case None
    have fin: "stream_step\<^sup>*\<^sup>* ?c ((to_end ^^ 6) ?c) \<and> at ((to_end ^^ 6) ?c) = Finished"
      using to_end_finishes [of ?c] q(1) by simp
    have "sErr ((to_end ^^ 6) ?c) = streamErr w' (esAddr s)"
      using run None q assms(2) to_end_err(1) [of ?c] by (auto simp: sctxDone_def)
    with fin to_c run None show ?thesis
      by (intro exI [of _ "(to_end ^^ 6) ?c"]) (auto intro: rtranclp_trans)
  next
    case (Some g)
    show ?thesis
    proof (cases "(c \<or> stopped w (esAddr s)) \<and> \<not> snt")
      case False
      let ?q = "q\<lparr>received := received q @ [g], at := Receiving, delivered := delivered q @ [convert g]\<rparr>"
      from run Some False have "r = Some (convert g)" "stopped w' = stopped w" "streamErr w' = streamErr w"
        by (auto split: if_splits)
      with recv_some_steps [OF q(1), of g] q show ?thesis by (intro exI [of _ ?q]) (simp add: matches_def)
    next
      case True
      let ?q = "?c\<lparr>at := Offering (convert g), received := received q @ [g]\<rparr>"
      have "stream_step ?c ?q" using stream_step.recv [of ?c g] q(1) by simp
      moreover have "\<forall>e. at ?q = Offering e \<longrightarrow> sctxDone ?q" using True q(4) by (auto simp: sctxDone_def)
      from to_end_finishes [OF this] have "stream_step\<^sup>*\<^sup>* ?q ((to_end ^^ 6) ?q)" "at ((to_end ^^ 6) ?q) = Finished" by simp_all
      moreover have "sErr ((to_end ^^ 6) ?q) = sErr q" by (simp add: to_end_err)
      moreover from run Some True have "r = None" "streamErr w' = streamErr w" by (auto split: if_splits)
      ultimately show ?thesis
        using to_c q(5) by (intro exI [of _ "(to_end ^^ 6) ?q"]) (auto intro: rtranclp_trans converse_rtranclp_into_rtranclp)
    qed
  qed
qed

text \<open>
  Opening a stream. If it fails, the error is an \<open>*Error\<close>, no stream is left and a Gateway
  that was opened is closed again. If it succeeds, the goroutine starts with nothing received,
  and it holds the Gateway that was opened, to release it at its end. Nothing else is opened.
\<close>

theorem ChaincodeEvents_spec:
  "case run_state (ChaincodeEvents api ev c ctx opts) w of
     (Inl e, w') \<Rightarrow> asError (Some e) \<noteq> None \<and> (\<exists>r. added w w' = opens r @ closes r)
   | (Inr s, w') \<Rightarrow> matches w' s stream_init \<and> esCtx s = ctx \<and> added w w' = opens (esRelease s) @ [EStreamOpen (esAddr s)]"
proof (cases rule: gateway_cases [of api c w])
  case (refused e x)
  then show ?thesis
    by (simp add: ChaincodeEvents_def Let_def config_failureD added_def) (rule exI [of _ NoRelease], simp)
next
  case (ok g r x)
  obtain u y where u: "Network_ChaincodeEvents ev g (ctChannel c) (WithCancel ctx) (eoChaincode (event_options c opts))
      (stream_options (event_options c opts)) x = (u, y)" by fastforce
  show ?thesis
  proof (cases u)
    case (Inl e)
    obtain a b where "classifyErr api e '''' phaseEvaluate True = SDKError a b" using classifyErr_typed by blast
    with ok(1) u Inl show ?thesis by (auto simp: ChaincodeEvents_def Let_def run_simps stop_def)
  next
    case (Inr v)
    with ok(1) u show ?thesis by (auto simp: ChaincodeEvents_def Let_def run_simps matches_def stream_init_def)
  qed
qed

section \<open>A concrete feed\<close>

text \<open>
  For concrete runs: a ledger whose event \<open>k\<close> has block \<open>k\<close> and a transaction ID of length \<open>k\<close>, a
  Gateway that drops the stream once at the events listed, a checkpointer that records a number
  of events, and a context that ends after four events. A subscription without a position starts
  at the tip of the ledger, which grows while the listener sleeps.
\<close>

record demo =
  dPos :: "nat option"
  dCur :: nat
  dTip :: nat
  dDrops :: "nat list"
  dTick :: nat

definition demo_ledger :: "nat \<Rightarrow> GatewayEvent" where
  "demo_ledger k = \<lparr>geBlockNumber = of_nat k, geTransactionID = replicate k CHR ''t'', geChaincodeName = ''basic'',
     geEventName = ''E'', gePayload = ''p''\<rparr>"

definition demo_api :: "demo api" where
  "demo_api = calm_api_over (\<lambda>x. (dTick x, x\<lparr>dTick := Suc (dTick x)\<rparr>))"

definition demo_open :: "demo \<Rightarrow> (err + nat) \<times> demo" where
  "demo_open x = (Inr 0, x\<lparr>dCur := (case dPos x of Some k \<Rightarrow> k | None \<Rightarrow> dTip x)\<rparr>)"

definition demo_recv :: "demo \<Rightarrow> bool \<times> demo" where
  "demo_recv x =
     (if dCur x \<in> set (dDrops x) then (False, x\<lparr>dDrops := remove1 (dCur x) (dDrops x)\<rparr>)
      else if dCur x < 4 then (True, x\<lparr>dCur := Suc (dCur x)\<rparr>) else (False, x))"

definition demo_eapi :: "demo eapi" where
  "demo_eapi =
     \<lparr>Network_ChaincodeEvents = (\<lambda>gw ch cx cc os x. demo_open x),
      Network_BlockEvents = (\<lambda>gw ch cx os x. demo_open x),
      recv_event = (\<lambda>u x. case demo_recv x of (b, y) \<Rightarrow> (if b then Some (demo_ledger (dCur x)) else None, y)),
      recv_block = (\<lambda>u x. case demo_recv x of (b, y) \<Rightarrow> (if b then Some (dCur x) else None, y)),
      Block_Number = of_nat,
      ctx_ended = (\<lambda>cx x. (dCur x = 4, x)),
      select_send = (\<lambda>u x. (True, x)),
      timer_fires = (\<lambda>cx d x. (True, x\<lparr>dTip := Suc (dTip x)\<rparr>)),
      InMemory_New = (\<lambda>x. (0, x)),
      InMemory_BlockNumber = (\<lambda>m x. 0),
      InMemory_TransactionID = (\<lambda>m x. ''''),
      InMemory_CheckpointBlock = (\<lambda>m n x. x\<lparr>dPos := Some (Suc (unat n))\<rparr>),
      InMemory_CheckpointTransaction = (\<lambda>m n t x. x\<lparr>dPos := Some (Suc (length t))\<rparr>),
      File_New = (\<lambda>p x. (Inr 0, x)),
      File_BlockNumber = (\<lambda>m x. 0),
      File_TransactionID = (\<lambda>m x. ''''),
      File_CheckpointBlock = (\<lambda>m n x. (None, x\<lparr>dPos := Some (Suc (unat n))\<rparr>)),
      File_CheckpointTransaction = (\<lambda>m n t x. (None, x\<lparr>dPos := Some (Suc (length t))\<rparr>)),
      File_Close = (\<lambda>m x. (None, x)),
      User_BlockNumber = (\<lambda>m x. 0),
      User_TransactionID = (\<lambda>m x. ''''),
      User_CheckpointBlock = (\<lambda>m n x. (None, x\<lparr>dPos := Some (Suc (unat n))\<rparr>)),
      User_CheckpointTransaction = (\<lambda>m n t x. (None, x\<lparr>dPos := Some (Suc (length t))\<rparr>))\<rparr>"

definition demo_world :: "nat option \<Rightarrow> nat list \<Rightarrow> demo world" where
  "demo_world k drops = \<lparr>ext = \<lparr>dPos = k, dCur = 0, dTip = 0, dDrops = drops, dTick = 0\<rparr>, trace = [], fresh = 0,
     closed = (\<lambda>_. False), once = (\<lambda>_. False), idClose = (\<lambda>_. None), stopped = (\<lambda>_. False), streamErr = (\<lambda>_. None)\<rparr>"

theorem stream_recv_simulated_witness:
  "\<exists>q'. stream_step\<^sup>*\<^sup>* stream_init q' \<and> delivered q' = [convert (demo_ledger 0)]"
proof -
  let ?s = "\<lparr>esAddr = 0, esCtx = Background, esUpstream = 0, esRelease = NoRelease\<rparr>"
  have "matches (demo_world None []) ?s stream_init" "sErr stream_init = None"
    by (simp_all add: matches_def stream_init_def demo_world_def)
  moreover obtain w' where "run_state (stream_recv demo_api demo_eapi ?s) (demo_world None []) = (Some (convert (demo_ledger 0)), w')"
    by (simp add: run_stream_recv demo_eapi_def demo_recv_def demo_world_def)
  ultimately show ?thesis
    using stream_recv_simulated [of "demo_world None []" ?s stream_init demo_api demo_eapi] by (fastforce simp: stream_init_def)
qed

end
