(* ===== verification/Listeners.thy ===== *)
theory Listeners
  imports Events
begin

text \<open>
  The listeners of \<open>src/events.go\<close>: \<open>ListenChaincodeEvents\<close> and \<open>ListenBlocks\<close>, which deliver events
  or blocks to a handler, record the position after each, and reconnect with backoff. A listener
  runs until its context ends, so its loop is a step function over a program point and the
  current backoff; \<open>iterate\<close> runs a number of steps, and a listener that has not returned by then
  is still running. One step is one connection attempt, one event or block with its handler and
  checkpoint, or one decision to return or to sleep and reconnect. A stream that a listener gives
  up is stopped; its goroutine then ends by itself and releases the Gateway (\<open>stream_ends\<close>).
\<close>

section \<open>Shared parts\<close>

definition reconnectable :: "err option \<Rightarrow> bool" where
  "reconnectable e = (KindOf e \<notin> {KindConfig, KindUnauthorized, KindInvalidArgument, KindNotFound})"

definition sleepCtx :: "'w eapi \<Rightarrow> Ctx \<Rightarrow> Duration \<Rightarrow> ('w, bool) op" where
  "sleepCtx ev ctx d = do { emit (ESleep d); outside (timer_fires ev ctx d) }"

text \<open>\<open>min(backoff*2, maxBackoff)\<close> on 64-bit durations.\<close>

definition next_backoff :: "Duration \<Rightarrow> Duration \<Rightarrow> Duration" where
  "next_backoff mx b = min (signed_take_bit 63 (b * 2)) mx"

primrec iterate :: "('s \<Rightarrow> ('w, 's) op) \<Rightarrow> nat \<Rightarrow> 's \<Rightarrow> ('w, 's) op" where
  "iterate step 0 s = State_Monad.return s"
| "iterate step (Suc n) s = do { t \<leftarrow> step s; iterate step n t }"

section \<open>Chaincode events\<close>

type_synonym 'w EventHandler = "Ctx \<Rightarrow> ChaincodeEvent \<Rightarrow> 'w \<Rightarrow> err option \<times> 'w"

datatype lpoint = Connecting | Streaming EventStream | StreamEnded "err option" | Returned "err option"

definition event_step :: "'w api \<Rightarrow> 'w eapi \<Rightarrow> Contract \<Rightarrow> Ctx \<Rightarrow> Checkpointer \<Rightarrow> 'w EventHandler \<Rightarrow> EventOption list \<Rightarrow>
    lpoint \<times> Duration \<Rightarrow> ('w, lpoint \<times> Duration) op" where
  "event_step api ev c ctx cp handle opts st =
     (let q = event_options c opts; (p, backoff) = st in
      case p of
        Connecting \<Rightarrow>
          do { r \<leftarrow> ChaincodeEvents api ev c ctx (opts @ [WithCheckpointer (Some cp)]);
               State_Monad.return (case r of Inl e \<Rightarrow> StreamEnded (Some e) | Inr s \<Rightarrow> Streaming s, backoff) }
      | Streaming s \<Rightarrow>
          do { r \<leftarrow> stream_recv api ev s;
               case r of
                 None \<Rightarrow> do { e \<leftarrow> EventStream_Err s; State_Monad.return (StreamEnded e, backoff) }
               | Some e \<Rightarrow>
                   do { emit (EHandle e);
                        herr \<leftarrow> outside (handle ctx e);
                        if herr \<noteq> None
                        then do { EventStream_Close s; State_Monad.return (Returned herr, backoff) }
                        else do { emit (ECheckpointTx (evBlockNumber e) (evTxID e));
                                  cerr \<leftarrow> outside (CheckpointTransaction ev cp (evBlockNumber e) (evTxID e));
                                  if cerr \<noteq> None
                                  then do { EventStream_Close s; State_Monad.return (Returned cerr, backoff) }
                                  else State_Monad.return (Streaming s, eoMinBackoff q) } } }
      | StreamEnded err \<Rightarrow>
          do { ended \<leftarrow> outside (ctx_ended ev ctx);
               if ended then State_Monad.return (Returned None, backoff)
               else if err \<noteq> None \<and> \<not> reconnectable err then State_Monad.return (Returned err, backoff)
               else do { n \<leftarrow> inspect (BlockNumber ev cp);
                         log_line (ctCfg c) LevelError ''fabricsdk: chaincode event stream ended; reconnecting''
                           [(''chaincode'', LStr (eoChaincode q)), (''block'', LNum n), (''retryIn'', LStr (Duration_String backoff))];
                         ok \<leftarrow> sleepCtx ev ctx backoff;
                         State_Monad.return (if \<not> ok then (Returned None, backoff)
                           else (Connecting, next_backoff (eoMaxBackoff q) backoff)) } }
      | Returned r \<Rightarrow> State_Monad.return (p, backoff))"

text \<open>The result after a number of steps; None if the listener still runs.\<close>

definition returned :: "lpoint \<times> Duration \<Rightarrow> err option option" where
  "returned st = (case fst st of Returned r \<Rightarrow> Some r | _ \<Rightarrow> None)"

definition ListenChaincodeEvents :: "'w api \<Rightarrow> 'w eapi \<Rightarrow> nat \<Rightarrow> Contract \<Rightarrow> Ctx \<Rightarrow> Checkpointer option \<Rightarrow>
    'w EventHandler option \<Rightarrow> EventOption list \<Rightarrow> ('w, err option option) op" where
  "ListenChaincodeEvents api ev fuel c ctx cp handle opts =
     (case (cp, handle) of
        (Some cp', Some handle') \<Rightarrow>
          do { st \<leftarrow> iterate (event_step api ev c ctx cp' handle' opts) fuel
                        (Connecting, eoMinBackoff (event_options c opts));
               State_Monad.return (returned st) }
      | _ \<Rightarrow> State_Monad.return (Some (Some (configError
               (ErrorString ''ListenChaincodeEvents needs a checkpointer and a handler'')))))"

definition FabricClient_ListenChaincodeEvents :: "'w api \<Rightarrow> 'w eapi \<Rightarrow> nat \<Rightarrow> FabricClient \<Rightarrow> Ctx \<Rightarrow> Checkpointer option \<Rightarrow>
    'w EventHandler option \<Rightarrow> EventOption list \<Rightarrow> ('w, err option option) op" where
  "FabricClient_ListenChaincodeEvents api ev fuel fc ctx cp handle opts =
     ListenChaincodeEvents api ev fuel (FabricClient_Contract fc) ctx cp handle opts"

section \<open>Blocks\<close>

type_synonym 'w BlockHandler = "Ctx \<Rightarrow> nat \<Rightarrow> 'w \<Rightarrow> err option \<times> 'w"

text \<open>
  \<open>blockSession\<close> in two parts: opening the subscription and handling one block. Both end a
  session with its deferred calls, \<open>stop\<close> and then the release of the Gateway.
\<close>

record BlockSession =
  bsAddr :: nat
  bsBlocks :: nat
  bsRelease :: release

datatype bpoint = BConnecting | BStreaming BlockSession | BEnded "err option" | BReturned "err option"

definition session_end :: "'w api \<Rightarrow> nat \<Rightarrow> release \<Rightarrow> ('w, unit) op" where
  "session_end api a r = do { stop a; run_release api r }"

definition block_open :: "'w api \<Rightarrow> 'w eapi \<Rightarrow> Contract \<Rightarrow> Ctx \<Rightarrow> Checkpointer \<Rightarrow> eventOptions \<Rightarrow> ('w, err + BlockSession) op" where
  "block_open api ev c ctx cp q =
     do { g \<leftarrow> gateway api c;
          case g of
            Inl e \<Rightarrow> State_Monad.return (Inl e)
          | Inr (gw, release) \<Rightarrow>
              do { a \<leftarrow> alloc;
                   poke (\<lambda>w. w\<lparr>stopped := (stopped w)(a := False)\<rparr>);
                   u \<leftarrow> outside (Network_BlockEvents ev gw (ctChannel c) (WithCancel ctx)
                          ((case eoStartBlock q of Some n \<Rightarrow> [WithStartBlock n] | None \<Rightarrow> []) @ [WithCheckpoint cp]));
                   case u of
                     Inl e \<Rightarrow> do { session_end api a release;
                                   State_Monad.return (Inl (classifyErr api e '''' phaseEvaluate True)) }
                   | Inr blocks \<Rightarrow>
                       do { emit (EStreamOpen a);
                            State_Monad.return (Inr \<lparr>bsAddr = a, bsBlocks = blocks, bsRelease = release\<rparr>) } } }"

text \<open>
  One turn of the loop over the channel: None if a block was handled and recorded, after which the
  backoff starts anew, or the result of the session.
\<close>

definition block_next :: "'w api \<Rightarrow> 'w eapi \<Rightarrow> Ctx \<Rightarrow> Checkpointer \<Rightarrow> 'w BlockHandler \<Rightarrow> BlockSession \<Rightarrow> ('w, err option option) op" where
  "block_next api ev ctx cp handle s =
     do { r \<leftarrow> outside (recv_block ev (bsBlocks s));
          case r of
            None \<Rightarrow> do { session_end api (bsAddr s) (bsRelease s); State_Monad.return (Some None) }
          | Some b \<Rightarrow>
              do { emit (EHandleBlock b);
                   herr \<leftarrow> outside (handle ctx b);
                   case herr of
                     Some e \<Rightarrow> do { session_end api (bsAddr s) (bsRelease s);
                                    State_Monad.return (Some (Some (HandlerError e))) }
                   | None \<Rightarrow>
                       do { emit (ECheckpointBlock (Block_Number ev b));
                            cerr \<leftarrow> outside (CheckpointBlock ev cp (Block_Number ev b));
                            case cerr of
                              Some e \<Rightarrow> do { session_end api (bsAddr s) (bsRelease s);
                                             State_Monad.return (Some (Some (HandlerError e))) }
                            | None \<Rightarrow> State_Monad.return None } } }"

definition block_step :: "'w api \<Rightarrow> 'w eapi \<Rightarrow> Contract \<Rightarrow> Ctx \<Rightarrow> Checkpointer \<Rightarrow> 'w BlockHandler \<Rightarrow> EventOption list \<Rightarrow>
    bpoint \<times> Duration \<Rightarrow> ('w, bpoint \<times> Duration) op" where
  "block_step api ev c ctx cp handle opts st =
     (let q = event_options c opts; (p, backoff) = st in
      case p of
        BConnecting \<Rightarrow>
          do { r \<leftarrow> block_open api ev c ctx cp q;
               State_Monad.return (case r of Inl e \<Rightarrow> BEnded (Some e) | Inr s \<Rightarrow> BStreaming s, backoff) }
      | BStreaming s \<Rightarrow>
          do { r \<leftarrow> block_next api ev ctx cp handle s;
               State_Monad.return (case r of None \<Rightarrow> (BStreaming s, eoMinBackoff q) | Some e \<Rightarrow> (BEnded e, backoff)) }
      | BEnded err \<Rightarrow>
          do { ended \<leftarrow> outside (ctx_ended ev ctx);
               if ended then State_Monad.return (BReturned None, backoff)
               else case errors_As as_HandlerError err of
                 Some e \<Rightarrow> State_Monad.return (BReturned (Some e), backoff)
               | None \<Rightarrow>
                   if err \<noteq> None \<and> \<not> reconnectable err then State_Monad.return (BReturned err, backoff)
                   else do { n \<leftarrow> inspect (BlockNumber ev cp);
                             log_line (ctCfg c) LevelError ''fabricsdk: block stream ended; reconnecting''
                               [(''block'', LNum n), (''retryIn'', LStr (Duration_String backoff))];
                             ok \<leftarrow> sleepCtx ev ctx backoff;
                             State_Monad.return (if \<not> ok then (BReturned None, backoff)
                               else (BConnecting, next_backoff (eoMaxBackoff q) backoff)) } }
      | BReturned r \<Rightarrow> State_Monad.return (p, backoff))"

definition breturned :: "bpoint \<times> Duration \<Rightarrow> err option option" where
  "breturned st = (case fst st of BReturned r \<Rightarrow> Some r | _ \<Rightarrow> None)"

definition ListenBlocks :: "'w api \<Rightarrow> 'w eapi \<Rightarrow> nat \<Rightarrow> Contract \<Rightarrow> Ctx \<Rightarrow> Checkpointer option \<Rightarrow>
    'w BlockHandler option \<Rightarrow> EventOption list \<Rightarrow> ('w, err option option) op" where
  "ListenBlocks api ev fuel c ctx cp handle opts =
     (case (cp, handle) of
        (Some cp', Some handle') \<Rightarrow>
          do { st \<leftarrow> iterate (block_step api ev c ctx cp' handle' opts) fuel
                        (BConnecting, eoMinBackoff (event_options c opts));
               State_Monad.return (breturned st) }
      | _ \<Rightarrow> State_Monad.return (Some (Some (configError
               (ErrorString ''ListenBlocks needs a checkpointer and a handler'')))))"

definition FabricClient_ListenBlocks :: "'w api \<Rightarrow> 'w eapi \<Rightarrow> nat \<Rightarrow> FabricClient \<Rightarrow> Ctx \<Rightarrow> Checkpointer option \<Rightarrow>
    'w BlockHandler option \<Rightarrow> EventOption list \<Rightarrow> ('w, err option option) op" where
  "FabricClient_ListenBlocks api ev fuel fc ctx cp handle opts =
     ListenBlocks api ev fuel (FabricClient_Contract fc) ctx cp handle opts"

section \<open>Step functions\<close>

text \<open>
  What a listener's step function promises: a state that has returned stays as it is and does
  nothing. Then more fuel never changes a result.
\<close>

locale stepper =
  fixes step :: "'s \<Rightarrow> ('w, 's) op" and final :: "'s \<Rightarrow> bool"
  assumes final_idle: "final s \<Longrightarrow> run_state (step s) w = (s, w)"
begin

lemma iterate_final: "final s \<Longrightarrow> run_state (iterate step n s) w = (s, w)"
  by (induction n) (simp_all add: final_idle)

lemma iterate_add:
  "run_state (iterate step (n + m) s) w = (case run_state (iterate step n s) w of (t, v) \<Rightarrow> run_state (iterate step m t) v)"
  by (induction n arbitrary: s w) (simp_all split: prod.splits)

lemma more_fuel:
  assumes "run_state (iterate step n s) w = (t, v)" "final t" "n \<le> m"
  shows "run_state (iterate step m s) w = (t, v)"
  using iterate_add [of n "m - n" s w] assms by (simp add: iterate_final)

end

text \<open>A step function with an invariant of its state and the world.\<close>

locale stepper_invariant = stepper step final
  for step :: "'s \<Rightarrow> ('w, 's) op" and final :: "'s \<Rightarrow> bool" +
  fixes inv :: "'s \<Rightarrow> 'w world \<Rightarrow> bool"
  assumes step_keeps: "inv s w \<Longrightarrow> inv (fst (run_state (step s) w)) (snd (run_state (step s) w))"
begin

lemma iterate_keeps:
  "inv s w \<Longrightarrow> inv (fst (run_state (iterate step n s) w)) (snd (run_state (iterate step n s) w))"
proof (induction n arbitrary: s w)
  case (Suc n)
  from Suc.IH [OF step_keeps [OF Suc.prems]] show ?case by (simp add: split_beta)
qed simp

end

text \<open>The fields of the steps by program point.\<close>

lemma event_step_Returned: "run_state (event_step api ev c ctx cp h opts (Returned r, b)) w = ((Returned r, b), w)"
  by (simp add: event_step_def)

lemma block_step_Returned: "run_state (block_step api ev c ctx cp h opts (BReturned r, b)) w = ((BReturned r, b), w)"
  by (simp add: block_step_def block_next_def)

lemma event_step_backoff:
  "snd (fst (run_state (event_step api ev c ctx cp h opts (p, b)) w)) \<in>
     {b, eoMinBackoff (event_options c opts), next_backoff (eoMaxBackoff (event_options c opts)) b}"
  by (cases p) (auto simp: event_step_def Let_def split_beta run_simps sleepCtx_def split: option.splits)

lemma block_step_backoff:
  "snd (fst (run_state (block_step api ev c ctx cp h opts (p, b)) w)) \<in>
     {b, eoMinBackoff (event_options c opts), next_backoff (eoMaxBackoff (event_options c opts)) b}"
  by (cases p) (auto simp: block_step_def block_next_def Let_def split_beta run_simps sleepCtx_def split: option.splits)

text \<open>Backoffs within the range of the options, as long as doubling does not overflow.\<close>

definition backoff_ok :: "Contract \<Rightarrow> EventOption list \<Rightarrow> Duration \<Rightarrow> bool" where
  "backoff_ok c opts b =
     (eoMaxBackoff (event_options c opts) < 2 ^ 62 \<longrightarrow>
      eoMinBackoff (event_options c opts) \<le> b \<and> b \<le> eoMaxBackoff (event_options c opts))"

lemma event_options_range: "0 < eoMinBackoff (event_options c opts)" "eoMinBackoff (event_options c opts) \<le> eoMaxBackoff (event_options c opts)"
  by (auto simp: event_options_def Let_def Second_def)

lemma next_backoff_eq:
  assumes "0 < b" "b \<le> mx" "mx < 2 ^ 62"
  shows "next_backoff mx b = min (2 * b) mx"
proof -
  have "signed_take_bit 63 (b * 2) = b * 2"
    using assms by (intro signed_take_bit_int_eq_self) auto
  then show ?thesis by (simp add: next_backoff_def mult.commute)
qed

lemma backoff_ok_next:
  assumes "backoff_ok c opts b"
  shows "backoff_ok c opts (eoMinBackoff (event_options c opts))" "backoff_ok c opts (next_backoff (eoMaxBackoff (event_options c opts)) b)"
  using assms event_options_range [of c opts] next_backoff_eq [of b "eoMaxBackoff (event_options c opts)"]
  by (auto simp: backoff_ok_def)

interpretation events_loop: stepper_invariant "event_step api ev c ctx cp h opts" "\<lambda>st. returned st \<noteq> None"
    "\<lambda>st w. backoff_ok c opts (snd st)" for api ev c ctx cp h opts
proof unfold_locales
  fix st :: "lpoint \<times> Duration" and w :: "'a world"
  show "returned st \<noteq> None \<Longrightarrow> run_state (event_step api ev c ctx cp h opts st) w = (st, w)"
    by (cases st) (auto simp: returned_def event_step_Returned split: lpoint.splits)
  show "backoff_ok c opts (snd st) \<Longrightarrow> backoff_ok c opts (snd (fst (run_state (event_step api ev c ctx cp h opts st) w)))"
    using event_step_backoff [of api ev c ctx cp h opts "fst st" "snd st" w] backoff_ok_next [of c opts "snd st"] by auto
qed

interpretation blocks_loop: stepper_invariant "block_step api ev c ctx cp h opts" "\<lambda>st. breturned st \<noteq> None"
    "\<lambda>st w. backoff_ok c opts (snd st)" for api ev c ctx cp h opts
proof unfold_locales
  fix st :: "bpoint \<times> Duration" and w :: "'a world"
  show "breturned st \<noteq> None \<Longrightarrow> run_state (block_step api ev c ctx cp h opts st) w = (st, w)"
    by (cases st) (auto simp: breturned_def block_step_Returned split: bpoint.splits)
  show "backoff_ok c opts (snd st) \<Longrightarrow> backoff_ok c opts (snd (fst (run_state (block_step api ev c ctx cp h opts st) w)))"
    using block_step_backoff [of api ev c ctx cp h opts "fst st" "snd st" w] backoff_ok_next [of c opts "snd st"] by auto
qed

section \<open>Positions in the ledger\<close>

text \<open>
  What the listener relies on, as the Gateway client and the checkpointer interface document it.
  \<open>ledger\<close> lists the events of the chaincode in the order of the ledger, \<open>pos\<close> is the number of
  them that the checkpointer has recorded as processed, if it has a position, and \<open>cur\<close> the number
  of the event a channel yields next. A subscription with the checkpointer resumes at its
  position; a channel yields the events in ledger order; a successful checkpoint of an event
  moves the position after it; nothing else moves either.
\<close>

definition keeps :: "('w \<Rightarrow> nat option) \<Rightarrow> (nat \<Rightarrow> 'w \<Rightarrow> nat) \<Rightarrow> ('w \<Rightarrow> 'a \<times> 'w) \<Rightarrow> bool" where
  "keeps pos cur f = (\<forall>x. pos (snd (f x)) = pos x \<and> (\<forall>u. cur u (snd (f x)) = cur u x))"

definition event_feed :: "'w api \<Rightarrow> 'w eapi \<Rightarrow> Checkpointer \<Rightarrow> 'w EventHandler \<Rightarrow> (nat \<Rightarrow> GatewayEvent) \<Rightarrow>
    ('w \<Rightarrow> nat option) \<Rightarrow> (nat \<Rightarrow> 'w \<Rightarrow> nat) \<Rightarrow> bool" where
  "event_feed api ev cp handle ledger pos cur =
     ((\<forall>gw ch cx cc os x r x'. Network_ChaincodeEvents ev gw ch cx cc os x = (r, x') \<longrightarrow> pos x' = pos x \<and>
         (\<forall>u k. r = Inr u \<and> WithCheckpoint cp \<in> set os \<and> pos x = Some k \<longrightarrow> cur u x' = k)) \<and>
      (\<forall>u x r x'. recv_event ev u x = (r, x') \<longrightarrow> pos x' = pos x \<and>
         (\<forall>g. r = Some g \<longrightarrow> g = ledger (cur u x) \<and> cur u x' = Suc (cur u x))) \<and>
      (\<forall>k x r x'. CheckpointTransaction ev cp (geBlockNumber (ledger k)) (geTransactionID (ledger k)) x = (r, x') \<longrightarrow>
         pos x' = (if r = None then Some (Suc k) else pos x) \<and> (\<forall>u. cur u x' = cur u x)) \<and>
      (\<forall>cx. keeps pos cur (ctx_ended ev cx)) \<and> (\<forall>u. keeps pos cur (select_send ev u)) \<and>
      (\<forall>cx d. keeps pos cur (timer_fires ev cx d)) \<and> (\<forall>cx e. keeps pos cur (handle cx e)) \<and>
      (\<forall>i os. keeps pos cur (client_Connect api i os)) \<and> (\<forall>g. keeps pos cur (Gateway_Close api g)))"

lemma event_feedD:
  assumes "event_feed api ev cp handle ledger pos cur"
  shows "Network_ChaincodeEvents ev gw ch cx cc os x = (r, x') \<Longrightarrow> pos x' = pos x"
    "Network_ChaincodeEvents ev gw ch cx cc os x = (Inr u, x') \<Longrightarrow> WithCheckpoint cp \<in> set os \<Longrightarrow> pos x = Some k \<Longrightarrow> cur u x' = k"
    "recv_event ev u x = (e, x') \<Longrightarrow> pos x' = pos x"
    "recv_event ev u x = (Some g, x') \<Longrightarrow> g = ledger (cur u x) \<and> cur u x' = Suc (cur u x)"
    "CheckpointTransaction ev cp (geBlockNumber (ledger k)) (geTransactionID (ledger k)) x = (m, x') \<Longrightarrow>
       pos x' = (if m = None then Some (Suc k) else pos x) \<and> cur u x' = cur u x"
  using assms [unfolded event_feed_def, THEN conjunct1] apply blast
  using assms [unfolded event_feed_def, THEN conjunct1] apply blast
  using assms [unfolded event_feed_def, THEN conjunct2, THEN conjunct1] apply blast
  using assms [unfolded event_feed_def, THEN conjunct2, THEN conjunct1] apply blast
  using assms [unfolded event_feed_def, THEN conjunct2, THEN conjunct2, THEN conjunct1] apply simp
  done

lemma event_feed_keeps:
  assumes "event_feed api ev cp handle ledger pos cur"
  shows "pos (snd (ctx_ended ev cx x)) = pos x" "cur u (snd (ctx_ended ev cx x)) = cur u x"
    "pos (snd (select_send ev v x)) = pos x" "cur u (snd (select_send ev v x)) = cur u x"
    "pos (snd (timer_fires ev cx d x)) = pos x"
    "pos (snd (handle cx e x)) = pos x" "cur u (snd (handle cx e x)) = cur u x"
    "pos (snd (client_Connect api i os x)) = pos x"
    "pos (release_ext api r x) = pos x"
  using assms by (auto simp: event_feed_def keeps_def release_ext_def split: release.splits)

fun handled :: "effect list \<Rightarrow> ChaincodeEvent list" where
  "handled [] = []"
| "handled (EHandle e # es) = e # handled es"
| "handled (_ # es) = handled es"

lemma handled_append [simp]: "handled (a @ b) = handled a @ handled b"
  by (induction a rule: handled.induct) auto

lemma handled_none [simp]: "handled (opens r) = []" "handled (closes r) = []" "handled (log_effects cfg lv m kv) = []"
proof -
  have "handled (map (\<lambda>(b, ll). ELog b ll) xs) = []" for xs by (induction xs) auto
  then show "handled (opens r) = []" "handled (closes r) = []" "handled (log_effects cfg lv m kv) = []"
    by (cases r; simp add: log_effects_def split: option.splits)+
qed

lemma gateway_pos:
  assumes "\<And>i os x. pos (snd (client_Connect api i os x)) = pos x"
  shows "pos (ext (snd (run_state (gateway api c) w))) = pos (ext w)"
  using assms by (auto simp: gateway_def connect_def split: option.splits sum.splits)

lemma last_checkpointer: "WithCheckpoint cp \<in> set (stream_options (event_options c (opts @ [WithCheckpointer (Some cp)])))"
  by (simp add: stream_options_def event_options_def Let_def WithCheckpointer_def)

lemma ChaincodeEvents_resumes:
  assumes feed: "event_feed api ev cp handle ledger pos cur" and pos: "pos (ext w) = Some k"
    and run: "run_state (ChaincodeEvents api ev c ctx (opts @ [WithCheckpointer (Some cp)])) w = (r, w')"
  shows "pos (ext w') = Some k \<and> (\<exists>es. trace w' = trace w @ es \<and> handled es = []) \<and>
    (\<forall>s. r = Inr s \<longrightarrow> cur (esUpstream s) (ext w') = k)"
proof -
  note keeps = event_feed_keeps [OF feed]
  note gw = gateway_pos [of pos api c w, OF keeps(8)]
  show ?thesis
  proof (cases rule: gateway_cases [of api c w])
    case (refused e x)
    with run gw pos show ?thesis by (auto simp: ChaincodeEvents_def Let_def)
  next
    case (ok g rel x)
    let ?q = "event_options c (opts @ [WithCheckpointer (Some cp)])"
    obtain u y where u: "Network_ChaincodeEvents ev g (ctChannel c) (WithCancel ctx) (eoChaincode ?q) (stream_options ?q) x = (u, y)"
      by fastforce
    have x: "pos x = Some k" using gw pos ok(1) by simp
    with event_feedD(1) [OF feed u] have y: "pos y = Some k" by simp
    show ?thesis
    proof (cases u)
      case (Inl e)
      with run ok(1) u y keeps(9) show ?thesis by (auto simp: ChaincodeEvents_def Let_def run_simps stop_def)
    next
      case (Inr v)
      with event_feedD(2) [OF feed _ last_checkpointer x] u have "cur v y = k" by blast
      with Inr run ok(1) u y show ?thesis by (auto simp: ChaincodeEvents_def Let_def run_simps)
    qed
  qed
qed

text \<open>
  The invariant of a listener that started in a world \<open>w0\<close> at position \<open>k0\<close>: the handler got the
  events from \<open>k0\<close> on, and the position is after the last of them, except that the last one is
  not recorded when the listener returned an error.
\<close>

definition at_position :: "('w \<Rightarrow> nat option) \<Rightarrow> (nat \<Rightarrow> 'w \<Rightarrow> nat) \<Rightarrow> nat \<Rightarrow> nat \<Rightarrow> lpoint \<Rightarrow> 'w \<Rightarrow> bool" where
  "at_position pos cur k0 k p x =
     (case p of
        Streaming s \<Rightarrow> pos x = Some k \<and> cur (esUpstream s) x = k
      | Returned (Some e) \<Rightarrow> pos x = Some k \<or> k0 < k \<and> pos x = Some (k - 1)
      | _ \<Rightarrow> pos x = Some k)"

definition followed :: "(nat \<Rightarrow> GatewayEvent) \<Rightarrow> ('w \<Rightarrow> nat option) \<Rightarrow> (nat \<Rightarrow> 'w \<Rightarrow> nat) \<Rightarrow> 'w world \<Rightarrow> nat \<Rightarrow>
    lpoint \<times> Duration \<Rightarrow> 'w world \<Rightarrow> bool" where
  "followed ledger pos cur w0 k0 st w =
     (\<exists>k es. k0 \<le> k \<and> trace w = trace w0 @ es \<and> handled es = map (\<lambda>i. convert (ledger i)) [k0..<k] \<and>
        at_position pos cur k0 k (fst st) (ext w))"

lemma followedI:
  assumes "followed ledger pos cur w0 k0 (p, b) w" and "trace w' = trace w @ es" and "handled es = []"
    and "\<And>k. k0 \<le> k \<Longrightarrow> at_position pos cur k0 k p (ext w) \<Longrightarrow> at_position pos cur k0 k p' (ext w')"
  shows "followed ledger pos cur w0 k0 (p', b') w'"
proof -
  from assms(1) obtain k fs where "k0 \<le> k" "trace w = trace w0 @ fs"
    "handled fs = map (\<lambda>i. convert (ledger i)) [k0..<k]" "at_position pos cur k0 k p (ext w)"
    by (auto simp: followed_def)
  with assms(2-) show ?thesis unfolding followed_def by (intro exI [of _ k] exI [of _ "fs @ es"]) simp
qed

lemma stream_recv_pos:
  assumes feed: "event_feed api ev cp handle ledger pos cur"
    and run: "run_state (stream_recv api ev s) w = (r, w')"
  shows "pos (ext w') = pos (ext w) \<and> (\<exists>es. trace w' = trace w @ es \<and> handled es = []) \<and>
    (\<forall>e. r = Some e \<longrightarrow> e = convert (ledger (cur (esUpstream s) (ext w))) \<and> cur (esUpstream s) (ext w') = Suc (cur (esUpstream s) (ext w)))"
proof -
  note keeps = event_feed_keeps [OF feed]
  obtain e x where e: "recv_event ev (esUpstream s) (ext w) = (e, x)" by fastforce
  obtain c y where c: "ctx_ended ev (esCtx s) x = (c, y)" by fastforce
  obtain snt z where z: "select_send ev (esUpstream s) y = (snt, z)" by fastforce
  note run' = run [simplified run_stream_recv e c z Let_def prod.case]
  have y: "pos y = pos (ext w)" "cur u y = cur u x" for u
    using event_feedD(3) [OF feed e] keeps(1) [of "esCtx s" x] keeps(2) [of _ "esCtx s" x] by (simp_all add: c)
  have z: "pos z = pos y" "cur u z = cur u y" for u
    using keeps(3) [of "esUpstream s" y] keeps(4) [of _ "esUpstream s" y] by (simp_all add: z)
  show ?thesis
  proof (cases e)
    case None
    with run' y keeps(9) show ?thesis by auto
  next
    case (Some g)
    from event_feedD(4) [OF feed e [unfolded Some]]
    have "g = ledger (cur (esUpstream s) (ext w))" "cur (esUpstream s) x = Suc (cur (esUpstream s) (ext w))" by blast+
    with Some run' y z keeps(9) show ?thesis by (auto split: if_splits)
  qed
qed

lemma followed_streaming:
  assumes feed: "event_feed api ev cp handle ledger pos cur" and inv: "followed ledger pos cur w0 k0 (Streaming s, b) w"
  shows "followed ledger pos cur w0 k0 (fst (run_state (event_step api ev c ctx cp handle opts (Streaming s, b)) w))
    (snd (run_state (event_step api ev c ctx cp handle opts (Streaming s, b)) w))"
proof -
  note keeps = event_feed_keeps [OF feed]
  obtain r w1 where r: "run_state (stream_recv api ev s) w = (r, w1)" by fastforce
  from stream_recv_pos [OF feed r] obtain es where w1: "pos (ext w1) = pos (ext w)" "trace w1 = trace w @ es" "handled es = []" by auto
  show ?thesis
  proof (cases r)
    case None
    from followedI [OF inv w1(2,3)] w1(1) r None show ?thesis
      by (simp add: event_step_def Let_def EventStream_Err_def at_position_def)
  next
    case (Some e)
    from inv obtain k fs where k: "k0 \<le> k" "trace w = trace w0 @ fs" "handled fs = map (\<lambda>i. convert (ledger i)) [k0..<k]"
      "pos (ext w) = Some k" "cur (esUpstream s) (ext w) = k" by (auto simp: followed_def at_position_def)
    with stream_recv_pos [OF feed r] Some have e: "e = convert (ledger k)" "cur (esUpstream s) (ext w1) = Suc k" by auto
    obtain herr x where h: "handle ctx e (ext w1) = (herr, x)" by fastforce
    with keeps(6) [of ctx e "ext w1"] keeps(7) [of _ ctx e "ext w1"] w1(1) k(4) e(2) have x: "pos x = Some k" "cur (esUpstream s) x = Suc k" by simp_all
    obtain cerr y where cc: "CheckpointTransaction ev cp (evBlockNumber e) (evTxID e) x = (cerr, y)" by fastforce
    then have "CheckpointTransaction ev cp (geBlockNumber (ledger k)) (geTransactionID (ledger k)) x = (cerr, y)"
      by (simp add: e(1) convert_def)
    from event_feedD(5) [OF feed this] x have y: "pos y = (if cerr = None then Some (Suc k) else Some k)" "cur (esUpstream s) y = Suc k" by auto
    have "map (\<lambda>i. convert (ledger i)) [k0..<Suc k] = handled (fs @ es @ [EHandle e])" using k(1,3) w1(3) e(1) by simp
    then show ?thesis using k w1 x y r Some h cc
      unfolding followed_def
      by (intro exI [of _ "Suc k"])
        (auto simp: event_step_def Let_def run_simps EventStream_Close_def stop_def at_position_def split: option.splits)
  qed
qed

lemma event_step_followed:
  assumes feed: "event_feed api ev cp handle ledger pos cur" and inv: "followed ledger pos cur w0 k0 st w"
  shows "followed ledger pos cur w0 k0 (fst (run_state (event_step api ev c ctx cp handle opts st) w))
    (snd (run_state (event_step api ev c ctx cp handle opts st) w))"
proof -
  note keeps = event_feed_keeps [OF feed]
  obtain p b where st: "st = (p, b)" by fastforce
  show ?thesis
  proof (cases p)
    case Connecting
    obtain r w1 where r: "run_state (ChaincodeEvents api ev c ctx (opts @ [WithCheckpointer (Some cp)])) w = (r, w1)" by fastforce
    from inv obtain k where k: "pos (ext w) = Some k" by (auto simp: followed_def st Connecting at_position_def)
    from ChaincodeEvents_resumes [OF feed k r] obtain es where
      w1: "pos (ext w1) = Some k" "trace w1 = trace w @ es" "handled es = []" "\<forall>s. r = Inr s \<longrightarrow> cur (esUpstream s) (ext w1) = k" by blast
    show ?thesis
      using followedI [OF inv [unfolded st Connecting] w1(2,3)] w1(1,4) k r
      by (cases r) (simp_all add: st Connecting event_step_def Let_def at_position_def)
  next
    case (Streaming s)
    with followed_streaming [OF feed] inv st show ?thesis by blast
  next
    case (StreamEnded err)
    let ?logs = "log_effects (ctCfg c) LevelError ''fabricsdk: chaincode event stream ended; reconnecting''
       [(''chaincode'', LStr (eoChaincode (event_options c opts))), (''block'', LNum (BlockNumber ev cp (snd (ctx_ended ev ctx (ext w))))),
        (''retryIn'', LStr (Duration_String b))]"
    from inv have inv': "followed ledger pos cur w0 k0 (StreamEnded err, b) w" by (simp add: st StreamEnded)
    show ?thesis
      using followedI [OF inv', of _ "[]"] followedI [OF inv', of _ "?logs @ [ESleep b]"] keeps(1,5)
      by (auto simp: st StreamEnded event_step_def Let_def run_simps sleepCtx_def at_position_def split: option.splits)
  next
    case (Returned r)
    with inv show ?thesis by (simp add: st event_step_Returned)
  qed
qed

interpretation events_position: stepper_invariant "event_step api ev c ctx cp h opts" "\<lambda>st. returned st \<noteq> None"
    "\<lambda>st w. event_feed api ev cp h ledger pos cur \<longrightarrow> followed ledger pos cur w0 k0 st w"
    for api ev c ctx cp h opts ledger pos cur w0 k0
  by unfold_locales (use event_step_followed in blast)

lemma listener_positions:
  assumes "event_feed api ev cp handle ledger pos cur" and "pos (ext w) = Some k0"
    and "run_state (ListenChaincodeEvents api ev n c ctx (Some cp) (Some handle) opts) w = (r, w')"
  shows "trace w' = trace w @ added w w' \<and> (\<exists>k\<ge>k0. handled (added w w') = map (\<lambda>i. convert (ledger i)) [k0..<k] \<and>
    (pos (ext w') = Some k \<or> k0 < k \<and> pos (ext w') = Some (k - 1) \<and> (\<exists>e. r = Some (Some e))))"
proof -
  let ?run = "run_state (iterate (event_step api ev c ctx cp handle opts) n (Connecting, eoMinBackoff (event_options c opts))) w"
  have "followed ledger pos cur w k0 (Connecting, eoMinBackoff (event_options c opts)) w"
    using assms(2) by (auto simp: followed_def at_position_def)
  with events_position.iterate_keeps assms(1) have inv: "followed ledger pos cur w k0 (fst ?run) (snd ?run)" by metis
  from assms(3) have "r = returned (fst ?run)" "w' = snd ?run"
    by (simp_all add: ListenChaincodeEvents_def split_beta)
  with inv show ?thesis
    by (auto simp: followed_def at_position_def returned_def split: lpoint.splits option.splits)
qed

section \<open>Properties of the event listener\<close>

text \<open>
  C5: no event is skipped and none is handled twice. If the checkpointer has a position, then
  however often the stream drops and is reopened and wherever the listener is stopped, the
  handler has been called with the chaincode's events in ledger order from that position on,
  each exactly once, and the recorded position is after the last event handled; only if the
  listener returned an error may the last event be handled and not recorded, and it will then be
  delivered again.
\<close>

theorem listener_follows_ledger:
  assumes "event_feed api ev cp handle ledger pos cur" and "pos (ext w) = Some k0"
    and "run_state (ListenChaincodeEvents api ev n c ctx (Some cp) (Some handle) opts) w = (r, w')"
  shows "\<exists>k\<ge>k0. handled (added w w') = map (\<lambda>i. convert (ledger i)) [k0..<k] \<and>
    (pos (ext w') = Some k \<or> k0 < k \<and> pos (ext w') = Some (k - 1) \<and> (\<exists>e. r = Some (Some e)))"
  using listener_positions [OF assms] by blast


section \<open>Concrete runs\<close>

lemma demo_feed: "event_feed demo_api demo_eapi (memoryCheckpointer 0) (\<lambda>cx e x. (None, x)) demo_ledger dPos (\<lambda>u. dCur)"
  by (auto simp: event_feed_def keeps_def demo_api_def calm_api_over_def demo_eapi_def demo_ledger_def demo_open_def demo_recv_def
      split: option.splits if_splits)

theorem listener_follows_ledger_witness:
  "\<exists>k\<ge>0. handled (added (demo_world (Some 0) [2]) (snd (run_state (ListenChaincodeEvents demo_api demo_eapi 10 example_contract Background
       (Some (memoryCheckpointer 0)) (Some (\<lambda>cx e x. (None, x))) []) (demo_world (Some 0) [2]))))
     = map (\<lambda>i. convert (demo_ledger i)) [0..<k]"
proof -
  obtain r w' where run: "run_state (ListenChaincodeEvents demo_api demo_eapi 10 example_contract Background
       (Some (memoryCheckpointer 0)) (Some (\<lambda>cx e x. (None, x))) []) (demo_world (Some 0) [2]) = (r, w')" by fastforce
  have "dPos (ext (demo_world (Some 0) [2])) = Some 0" by (simp add: demo_world_def)
  from listener_follows_ledger [OF demo_feed this run] run show ?thesis by auto
qed

lemma demo_simps:
  "Network_ChaincodeEvents demo_eapi gw ch cx cc os x = demo_open x"
  "recv_event demo_eapi u x = (case demo_recv x of (b, y) \<Rightarrow> (if b then Some (demo_ledger (dCur x)) else None, y))"
  "ctx_ended demo_eapi cx x = (dCur x = 4, x)"
  "timer_fires demo_eapi cx d x = (True, x\<lparr>dTip := Suc (dTip x)\<rparr>)"
  "CheckpointTransaction demo_eapi (memoryCheckpointer m) n t x = (None, x\<lparr>dPos := Some (Suc (length t))\<rparr>)"
  by (simp_all add: demo_eapi_def)

lemmas demo_run = demo_simps demo_open_def demo_recv_def demo_ledger_def demo_world_def event_step_def ChaincodeEvents_def
  gateway_def run_stream_recv sleepCtx_def EventStream_Err_def stream_closed_error_def convert_def run_simps

text \<open>
  Without a position and without \<open>FromBlock\<close>, an event committed between two streams is skipped: the
  first stream drops before an event, event 0 is committed while the listener sleeps, and the
  second stream starts after it.
\<close>

lemma run_iterate_numeral:
  "run_state (iterate step (numeral v) s) w = (case run_state (step s) w of (t, w') \<Rightarrow> run_state (iterate step (pred_numeral v) t) w')"
  "run_state (iterate step (Suc 0) s) w = run_state (step s) w"
  by (simp_all add: numeral_eq_Suc)

lemma fresh_checkpoint_skips_event:
  "handled (trace (snd (run_state (iterate (event_step demo_api demo_eapi example_contract Background
       (memoryCheckpointer 0) (\<lambda>cx e x. (None, x)) []) 5 (Connecting, Second)) (demo_world None [0])))) = [convert (demo_ledger 1)]"
  by (simp add: run_iterate_numeral demo_run Let_def reconnectable_def release_ext_def del: iterate.simps(2))


text \<open>
  C33: the delay between connections. Whatever the options, the backoff range of a listener is
  positive and not empty. As long as its maximum is below \<open>2\<^sup>6\<^sup>2\<close> nanoseconds, so that doubling
  cannot overflow, every delay of both listeners stays in the range; a delay is doubled up to
  the maximum, and a handled event or block resets it to the minimum.
\<close>

theorem backoff_bounded:
  "0 < eoMinBackoff (event_options c opts) \<and> eoMinBackoff (event_options c opts) \<le> eoMaxBackoff (event_options c opts) \<and>
   (eoMaxBackoff (event_options c opts) < 2 ^ 62 \<longrightarrow>
     snd (fst (run_state (iterate (event_step api ev c ctx cp h opts) n (Connecting, eoMinBackoff (event_options c opts))) w))
       \<in> {eoMinBackoff (event_options c opts)..eoMaxBackoff (event_options c opts)} \<and>
     snd (fst (run_state (iterate (block_step api ev c ctx cp h' opts) n (BConnecting, eoMinBackoff (event_options c opts))) w))
       \<in> {eoMinBackoff (event_options c opts)..eoMaxBackoff (event_options c opts)} \<and>
     (\<forall>b \<in> {eoMinBackoff (event_options c opts)..eoMaxBackoff (event_options c opts)}.
        next_backoff (eoMaxBackoff (event_options c opts)) b = min (2 * b) (eoMaxBackoff (event_options c opts))))"
proof -
  let ?q = "event_options c opts"
  note range = event_options_range [of c opts]
  have "backoff_ok c opts (snd (fst (run_state (iterate (event_step api ev c ctx cp h opts) n (Connecting, eoMinBackoff ?q)) w)))"
    using range by (intro events_loop.iterate_keeps) (simp add: backoff_ok_def)
  moreover have "backoff_ok c opts (snd (fst (run_state (iterate (block_step api ev c ctx cp h' opts) n (BConnecting, eoMinBackoff ?q)) w)))"
    using range by (intro blocks_loop.iterate_keeps) (simp add: backoff_ok_def)
  moreover have "next_backoff (eoMaxBackoff ?q) b = min (2 * b) (eoMaxBackoff ?q)"
    if "b \<in> {eoMinBackoff ?q..eoMaxBackoff ?q}" "eoMaxBackoff ?q < 2 ^ 62" for b
    using that range by (intro next_backoff_eq) auto
  ultimately show ?thesis using range by (simp add: backoff_ok_def)
qed

theorem backoff_bounded_witness:
  "snd (fst (run_state (iterate (event_step demo_api demo_eapi example_contract Background (memoryCheckpointer 0) (\<lambda>cx e x. (None, x))
      [RetryBackoff 5 40]) 9 (Connecting, 5)) (demo_world None [0, 1, 2, 3]))) \<in> {5..40}"
proof -
  have q: "eoMinBackoff (event_options example_contract [RetryBackoff 5 40]) = 5" "eoMaxBackoff (event_options example_contract [RetryBackoff 5 40]) = 40"
    by (simp_all add: event_options_def RetryBackoff_def Let_def)
  then show ?thesis
    using backoff_bounded [of example_contract "[RetryBackoff 5 40]" demo_api demo_eapi Background "memoryCheckpointer 0"
        "\<lambda>cx e x. (None, x)" 9 "demo_world None [0, 1, 2, 3]"] by simp
qed

text \<open>With a maximum from \<open>2\<^sup>6\<^sup>2\<close> nanoseconds on, doubling can overflow to a negative delay.\<close>

lemma backoff_overflows: "next_backoff (2 ^ 63 - 1) (2 ^ 62) = - (2 ^ 63)"
  by (simp add: next_backoff_def signed_take_bit_eq_take_bit_shift)

text \<open>
  A listener's result does not depend on how long one watches it. Once \<open>ListenChaincodeEvents\<close> or
  \<open>ListenBlocks\<close> has returned within some number of steps, it has returned the same result in the
  same world for every larger number; a nil checkpointer or handler is refused at once.
\<close>

theorem listener_result_stable:
  assumes "n \<le> m"
  shows "(\<forall>r w'. run_state (ListenChaincodeEvents api ev n c ctx cp h opts) w = (Some r, w') \<longrightarrow>
      run_state (ListenChaincodeEvents api ev m c ctx cp h opts) w = (Some r, w')) \<and>
    (\<forall>r w'. run_state (ListenBlocks api ev n c ctx cp h' opts) w = (Some r, w') \<longrightarrow>
      run_state (ListenBlocks api ev m c ctx cp h' opts) w = (Some r, w')) \<and>
    (cp = None \<or> h = None \<longrightarrow> (\<exists>e. run_state (ListenChaincodeEvents api ev n c ctx cp h opts) w = (Some (Some e), w) \<and> KindOf (Some e) = KindConfig)) \<and>
    (cp = None \<or> h' = None \<longrightarrow> (\<exists>e. run_state (ListenBlocks api ev n c ctx cp h' opts) w = (Some (Some e), w) \<and> KindOf (Some e) = KindConfig))"
proof (intro conjI allI impI)
  fix r w'
  assume run: "run_state (ListenChaincodeEvents api ev n c ctx cp h opts) w = (Some r, w')"
  show "run_state (ListenChaincodeEvents api ev m c ctx cp h opts) w = (Some r, w')"
  proof (cases "cp = None \<or> h = None")
    case False
    then obtain cp' h0 where some: "cp = Some cp'" "h = Some h0" by auto
    obtain st v where st: "run_state (iterate (event_step api ev c ctx cp' h0 opts) n (Connecting, eoMinBackoff (event_options c opts))) w = (st, v)"
      by fastforce
    with run some have "returned st = Some r" "v = w'" by (simp_all add: ListenChaincodeEvents_def)
    with events_loop.more_fuel [OF st _ assms] some show ?thesis by (simp add: ListenChaincodeEvents_def)
  qed (use run in \<open>auto simp: ListenChaincodeEvents_def split: option.splits\<close>)
next
  fix r w'
  assume run: "run_state (ListenBlocks api ev n c ctx cp h' opts) w = (Some r, w')"
  show "run_state (ListenBlocks api ev m c ctx cp h' opts) w = (Some r, w')"
  proof (cases "cp = None \<or> h' = None")
    case False
    then obtain cp' h0 where some: "cp = Some cp'" "h' = Some h0" by auto
    obtain st v where st: "run_state (iterate (block_step api ev c ctx cp' h0 opts) n (BConnecting, eoMinBackoff (event_options c opts))) w = (st, v)"
      by fastforce
    with run some have "breturned st = Some r" "v = w'" by (simp_all add: ListenBlocks_def)
    with blocks_loop.more_fuel [OF st _ assms] some show ?thesis by (simp add: ListenBlocks_def)
  qed (use run in \<open>auto simp: ListenBlocks_def split: option.splits\<close>)
qed (auto simp: ListenChaincodeEvents_def ListenBlocks_def split: option.splits)

theorem listener_result_stable_witness:
  "\<exists>e. run_state (ListenChaincodeEvents demo_api demo_eapi 0 example_contract Background None None []) (demo_world None []) =
     (Some (Some e), demo_world None []) \<and> KindOf (Some e) = KindConfig"
  using listener_result_stable [of 0 0 demo_api demo_eapi example_contract Background None None "[]" "demo_world None []"] by blast

section \<open>Properties of the block listener\<close>

text \<open>What the block listener relies on, as in \<open>event_feed\<close>; \<open>ledger\<close> lists the blocks of the channel.\<close>

definition block_feed :: "'w api \<Rightarrow> 'w eapi \<Rightarrow> Checkpointer \<Rightarrow> 'w BlockHandler \<Rightarrow> (nat \<Rightarrow> nat) \<Rightarrow>
    ('w \<Rightarrow> nat option) \<Rightarrow> (nat \<Rightarrow> 'w \<Rightarrow> nat) \<Rightarrow> bool" where
  "block_feed api ev cp handle ledger pos cur =
     ((\<forall>gw ch cx os x r x'. Network_BlockEvents ev gw ch cx os x = (r, x') \<longrightarrow> pos x' = pos x \<and>
         (\<forall>u k. r = Inr u \<and> WithCheckpoint cp \<in> set os \<and> pos x = Some k \<longrightarrow> cur u x' = k)) \<and>
      (\<forall>u x r x'. recv_block ev u x = (r, x') \<longrightarrow> pos x' = pos x \<and>
         (\<forall>b. r = Some b \<longrightarrow> b = ledger (cur u x) \<and> cur u x' = Suc (cur u x))) \<and>
      (\<forall>k x r x'. pos x = Some k \<and> CheckpointBlock ev cp (Block_Number ev (ledger k)) x = (r, x') \<longrightarrow>
         pos x' = (if r = None then Some (Suc k) else pos x) \<and> (\<forall>u. cur u x' = cur u x)) \<and>
      (\<forall>cx. keeps pos cur (ctx_ended ev cx)) \<and> (\<forall>cx d. keeps pos cur (timer_fires ev cx d)) \<and>
      (\<forall>cx b. keeps pos cur (handle cx b)) \<and>
      (\<forall>i os. keeps pos cur (client_Connect api i os)) \<and> (\<forall>g. keeps pos cur (Gateway_Close api g)))"

lemma block_feedD:
  assumes "block_feed api ev cp handle ledger pos cur"
  shows "Network_BlockEvents ev gw ch cx os x = (r, x') \<Longrightarrow> pos x' = pos x"
    "Network_BlockEvents ev gw ch cx os x = (Inr u, x') \<Longrightarrow> WithCheckpoint cp \<in> set os \<Longrightarrow> pos x = Some k \<Longrightarrow> cur u x' = k"
    "recv_block ev u x = (e, x') \<Longrightarrow> pos x' = pos x"
    "recv_block ev u x = (Some b, x') \<Longrightarrow> b = ledger (cur u x) \<and> cur u x' = Suc (cur u x)"
    "pos x = Some k \<Longrightarrow> CheckpointBlock ev cp (Block_Number ev (ledger k)) x = (m, x') \<Longrightarrow>
       pos x' = (if m = None then Some (Suc k) else pos x) \<and> cur u x' = cur u x"
  using assms [unfolded block_feed_def, THEN conjunct1] apply blast
  using assms [unfolded block_feed_def, THEN conjunct1] apply blast
  using assms [unfolded block_feed_def, THEN conjunct2, THEN conjunct1] apply blast
  using assms [unfolded block_feed_def, THEN conjunct2, THEN conjunct1] apply blast
  using assms [unfolded block_feed_def, THEN conjunct2, THEN conjunct2, THEN conjunct1] apply simp
  done

lemma block_feed_keeps:
  assumes "block_feed api ev cp handle ledger pos cur"
  shows "pos (snd (ctx_ended ev cx x)) = pos x" "pos (snd (timer_fires ev cx d x)) = pos x"
    "pos (snd (handle cx b x)) = pos x" "cur u (snd (handle cx b x)) = cur u x"
    "pos (snd (client_Connect api i os x)) = pos x" "pos (release_ext api r x) = pos x"
  using assms by (auto simp: block_feed_def keeps_def release_ext_def split: release.splits)

fun handled_blocks :: "effect list \<Rightarrow> nat list" where
  "handled_blocks [] = []"
| "handled_blocks (EHandleBlock b # es) = b # handled_blocks es"
| "handled_blocks (_ # es) = handled_blocks es"

lemma handled_blocks_append [simp]: "handled_blocks (a @ b) = handled_blocks a @ handled_blocks b"
  by (induction a rule: handled_blocks.induct) auto

lemma handled_blocks_none [simp]:
  "handled_blocks (opens r) = []" "handled_blocks (closes r) = []" "handled_blocks (log_effects cfg lv m kv) = []"
proof -
  have "handled_blocks (map (\<lambda>(b, ll). ELog b ll) xs) = []" for xs by (induction xs) auto
  then show "handled_blocks (opens r) = []" "handled_blocks (closes r) = []" "handled_blocks (log_effects cfg lv m kv) = []"
    by (cases r; simp add: log_effects_def split: option.splits)+
qed

definition at_block :: "('w \<Rightarrow> nat option) \<Rightarrow> (nat \<Rightarrow> 'w \<Rightarrow> nat) \<Rightarrow> nat \<Rightarrow> nat \<Rightarrow> bpoint \<Rightarrow> 'w \<Rightarrow> bool" where
  "at_block pos cur k0 k p x =
     (case p of
        BConnecting \<Rightarrow> pos x = Some k
      | BStreaming s \<Rightarrow> pos x = Some k \<and> cur (bsBlocks s) x = k
      | BEnded err \<Rightarrow> pos x = Some k \<or> errors_As as_HandlerError err \<noteq> None \<and> k0 < k \<and> pos x = Some (k - 1)
      | BReturned r \<Rightarrow> pos x = Some k \<or> k0 < k \<and> pos x = Some (k - 1))"

definition followed_blocks :: "(nat \<Rightarrow> nat) \<Rightarrow> ('w \<Rightarrow> nat option) \<Rightarrow> (nat \<Rightarrow> 'w \<Rightarrow> nat) \<Rightarrow> 'w world \<Rightarrow> nat \<Rightarrow>
    bpoint \<times> Duration \<Rightarrow> 'w world \<Rightarrow> bool" where
  "followed_blocks ledger pos cur w0 k0 st w =
     (\<exists>k es. k0 \<le> k \<and> trace w = trace w0 @ es \<and> handled_blocks es = map ledger [k0..<k] \<and>
        at_block pos cur k0 k (fst st) (ext w))"

lemma followed_blocksI:
  assumes "followed_blocks ledger pos cur w0 k0 (p, b) w" and "trace w' = trace w @ es" and "handled_blocks es = []"
    and "\<And>k. k0 \<le> k \<Longrightarrow> at_block pos cur k0 k p (ext w) \<Longrightarrow> at_block pos cur k0 k p' (ext w')"
  shows "followed_blocks ledger pos cur w0 k0 (p', b') w'"
proof -
  from assms(1) obtain k fs where "k0 \<le> k" "trace w = trace w0 @ fs"
    "handled_blocks fs = map ledger [k0..<k]" "at_block pos cur k0 k p (ext w)"
    by (auto simp: followed_blocks_def)
  with assms(2-) show ?thesis unfolding followed_blocks_def by (intro exI [of _ k] exI [of _ "fs @ es"]) simp
qed

lemma block_open_resumes:
  assumes feed: "block_feed api ev cp handle ledger pos cur" and pos: "pos (ext w) = Some k"
    and run: "run_state (block_open api ev c ctx cp q) w = (r, w')"
  shows "pos (ext w') = Some k \<and> (\<exists>es. trace w' = trace w @ es \<and> handled_blocks es = []) \<and>
    (\<forall>s. r = Inr s \<longrightarrow> cur (bsBlocks s) (ext w') = k)"
proof -
  note keeps = block_feed_keeps [OF feed]
  note gw = gateway_pos [of pos api c w, OF keeps(5)]
  show ?thesis
  proof (cases rule: gateway_cases [of api c w])
    case (refused e x)
    with run gw pos show ?thesis by (auto simp: block_open_def)
  next
    case (ok g rel x)
    let ?os = "(case eoStartBlock q of Some n \<Rightarrow> [WithStartBlock n] | None \<Rightarrow> []) @ [WithCheckpoint cp]"
    obtain u y where u: "Network_BlockEvents ev g (ctChannel c) (WithCancel ctx) ?os x = (u, y)" by fastforce
    have x: "pos x = Some k" using gw pos ok(1) by simp
    with block_feedD(1) [OF feed u] have y: "pos y = Some k" by simp
    show ?thesis
    proof (cases u)
      case (Inl e)
      with run ok(1) u y keeps(6) show ?thesis by (auto simp: block_open_def session_end_def run_simps stop_def)
    next
      case (Inr v)
      with block_feedD(2) [OF feed _ _ x] u have "cur v y = k" by simp
      with Inr run ok(1) u y show ?thesis by (auto simp: block_open_def run_simps)
    qed
  qed
qed

lemma followed_blocks_streaming:
  assumes feed: "block_feed api ev cp handle ledger pos cur" and inv: "followed_blocks ledger pos cur w0 k0 (BStreaming s, b) w"
  shows "followed_blocks ledger pos cur w0 k0 (fst (run_state (block_step api ev c ctx cp handle opts (BStreaming s, b)) w))
    (snd (run_state (block_step api ev c ctx cp handle opts (BStreaming s, b)) w))"
proof -
  note keeps = block_feed_keeps [OF feed]
  obtain r x where r: "recv_block ev (bsBlocks s) (ext w) = (r, x)" by fastforce
  note x = block_feedD(3) [OF feed r]
  show ?thesis
  proof (cases r)
    case None
    from followed_blocksI [OF inv, of _ "closes (bsRelease s)"] x r None keeps(6) show ?thesis
      by (simp add: block_step_def block_next_def Let_def session_end_def stop_def run_simps at_block_def)
  next
    case (Some e)
    from inv obtain k fs where k: "k0 \<le> k" "trace w = trace w0 @ fs" "handled_blocks fs = map ledger [k0..<k]"
      "pos (ext w) = Some k" "cur (bsBlocks s) (ext w) = k" by (auto simp: followed_blocks_def at_block_def)
    with block_feedD(4) [OF feed r [unfolded Some]] have e: "e = ledger k" "cur (bsBlocks s) x = Suc k" by auto
    obtain herr y where h: "handle ctx e x = (herr, y)" by fastforce
    with keeps(3) [of ctx e x] keeps(4) [of _ ctx e x] x k(4) e(2) have y: "pos y = Some k" "cur (bsBlocks s) y = Suc k" by simp_all
    obtain cerr z where cc: "CheckpointBlock ev cp (Block_Number ev e) y = (cerr, z)" by fastforce
    from block_feedD(5) [OF feed y(1) this [unfolded e(1)]] y
    have z: "pos z = (if cerr = None then Some (Suc k) else Some k)" "cur (bsBlocks s) z = Suc k" by auto
    have as: "errors_As as_HandlerError (Some (HandlerError h)) = Some h" for h by (simp add: errors_As_def)
    have "map ledger [k0..<Suc k] = handled_blocks (fs @ [EHandleBlock e])" using k(1,3) e(1) by simp
    then show ?thesis using k y z r Some h cc keeps(6)
      unfolding followed_blocks_def
      by (intro exI [of _ "Suc k"])
        (cases herr; cases cerr; auto simp: block_step_def block_next_def Let_def run_simps session_end_def stop_def at_block_def as)
  qed
qed

lemma block_step_followed:
  assumes feed: "block_feed api ev cp handle ledger pos cur" and inv: "followed_blocks ledger pos cur w0 k0 st w"
  shows "followed_blocks ledger pos cur w0 k0 (fst (run_state (block_step api ev c ctx cp handle opts st) w))
    (snd (run_state (block_step api ev c ctx cp handle opts st) w))"
proof -
  note keeps = block_feed_keeps [OF feed]
  obtain p b where st: "st = (p, b)" by fastforce
  show ?thesis
  proof (cases p)
    case BConnecting
    obtain r w1 where r: "run_state (block_open api ev c ctx cp (event_options c opts)) w = (r, w1)" by fastforce
    from inv obtain k where k: "pos (ext w) = Some k" by (auto simp: followed_blocks_def st BConnecting at_block_def)
    from block_open_resumes [OF feed k r] obtain es where
      w1: "pos (ext w1) = Some k" "trace w1 = trace w @ es" "handled_blocks es = []" "\<forall>s. r = Inr s \<longrightarrow> cur (bsBlocks s) (ext w1) = k" by blast
    show ?thesis
      using followed_blocksI [OF inv [unfolded st BConnecting] w1(2,3)] w1(1,4) k r
      by (cases r) (simp_all add: st BConnecting block_step_def block_next_def Let_def at_block_def)
  next
    case (BStreaming s)
    with followed_blocks_streaming [OF feed] inv st show ?thesis by blast
  next
    case (BEnded err)
    let ?logs = "log_effects (ctCfg c) LevelError ''fabricsdk: block stream ended; reconnecting''
       [(''block'', LNum (BlockNumber ev cp (snd (ctx_ended ev ctx (ext w))))), (''retryIn'', LStr (Duration_String b))]"
    from inv have inv': "followed_blocks ledger pos cur w0 k0 (BEnded err, b) w" by (simp add: st BEnded)
    show ?thesis
      using followed_blocksI [OF inv', of _ "[]"] followed_blocksI [OF inv', of _ "?logs @ [ESleep b]"] keeps(1,2)
      by (auto simp: st BEnded block_step_def block_next_def Let_def run_simps sleepCtx_def at_block_def split: option.splits)
  next
    case (BReturned r)
    with inv show ?thesis by (simp add: st block_step_Returned)
  qed
qed

interpretation blocks_position: stepper_invariant "block_step api ev c ctx cp h opts" "\<lambda>st. breturned st \<noteq> None"
    "\<lambda>st w. block_feed api ev cp h ledger pos cur \<longrightarrow> followed_blocks ledger pos cur w0 k0 st w"
    for api ev c ctx cp h opts ledger pos cur w0 k0
  by unfold_locales (use block_step_followed in blast)

text \<open>
  No block is skipped and none is handled twice. If the checkpointer has a position, then
  however often the stream drops, the handler has been called with the channel's blocks in ledger
  order from that position on, each exactly once; the recorded position is after the last block
  handled or, when its handler or checkpoint failed, at it.
\<close>

theorem block_listener_follows_ledger:
  assumes "block_feed api ev cp handle ledger pos cur" and "pos (ext w) = Some k0"
    and "run_state (ListenBlocks api ev n c ctx (Some cp) (Some handle) opts) w = (r, w')"
  shows "\<exists>k\<ge>k0. handled_blocks (added w w') = map ledger [k0..<k] \<and>
    (pos (ext w') = Some k \<or> k0 < k \<and> pos (ext w') = Some (k - 1))"
proof -
  let ?run = "run_state (iterate (block_step api ev c ctx cp handle opts) n (BConnecting, eoMinBackoff (event_options c opts))) w"
  have "followed_blocks ledger pos cur w k0 (BConnecting, eoMinBackoff (event_options c opts)) w"
    using assms(2) by (auto simp: followed_blocks_def at_block_def)
  with blocks_position.iterate_keeps assms(1) have inv: "followed_blocks ledger pos cur w k0 (fst ?run) (snd ?run)" by metis
  from assms(3) have "w' = snd ?run" by (simp add: ListenBlocks_def split_beta)
  with inv show ?thesis
    by (cases "fst (fst ?run)") (auto simp: followed_blocks_def at_block_def)
qed

definition demo_block_eapi :: "demo eapi" where
  "demo_block_eapi = demo_eapi\<lparr>User_CheckpointBlock := (\<lambda>u n x. (None, x\<lparr>dPos := map_option Suc (dPos x)\<rparr>))\<rparr>"

lemma demo_block_feed:
  "block_feed demo_api demo_block_eapi (UserCheckpointer 0) (\<lambda>cx b x. (None, x)) (\<lambda>k. k) dPos (\<lambda>u. dCur)"
  by (auto simp: block_feed_def keeps_def demo_api_def calm_api_over_def demo_block_eapi_def demo_eapi_def demo_open_def demo_recv_def
      split: option.splits if_splits)

theorem block_listener_follows_ledger_witness:
  "\<exists>k\<ge>0. handled_blocks (added (demo_world (Some 0) [2]) (snd (run_state (ListenBlocks demo_api demo_block_eapi 10 example_contract Background
       (Some (UserCheckpointer 0)) (Some (\<lambda>cx b x. (None, x))) []) (demo_world (Some 0) [2])))) = [0..<k]"
proof -
  obtain r w' where run: "run_state (ListenBlocks demo_api demo_block_eapi 10 example_contract Background
       (Some (UserCheckpointer 0)) (Some (\<lambda>cx b x. (None, x))) []) (demo_world (Some 0) [2]) = (r, w')" by fastforce
  have "dPos (ext (demo_world (Some 0) [2])) = Some 0" by (simp add: demo_world_def)
  from block_listener_follows_ledger [OF demo_block_feed this run] run show ?thesis by auto
qed

definition ended_for_good :: "'w eapi \<Rightarrow> Ctx \<Rightarrow> bool" where
  "ended_for_good ev ctx =
     ((\<forall>x. fst (ctx_ended ev ctx x)) \<and> (\<forall>u x. fst (recv_event ev u x) = None) \<and> (\<forall>u x. fst (recv_block ev u x) = None))"

lemma event_ended_step:
  assumes "ended_for_good ev ctx"
  shows "\<exists>w'. run_state (event_step api ev c ctx cp h opts (StreamEnded err, b)) w = ((Returned None, b), w')"
    "\<exists>e w'. run_state (event_step api ev c ctx cp h opts (Streaming s, b)) w = ((StreamEnded e, b), w')"
proof -
  show "\<exists>w'. run_state (event_step api ev c ctx cp h opts (StreamEnded err, b)) w = ((Returned None, b), w')"
    using assms by (simp add: ended_for_good_def event_step_def Let_def)
  obtain x where "recv_event ev (esUpstream s) (ext w) = (None, x)"
    using assms by (metis ended_for_good_def prod.collapse)
  then show "\<exists>e w'. run_state (event_step api ev c ctx cp h opts (Streaming s, b)) w = ((StreamEnded e, b), w')"
    by (simp add: event_step_def Let_def run_stream_recv EventStream_Err_def split_beta)
qed

lemma block_ended_step:
  assumes "ended_for_good ev ctx"
  shows "\<exists>w'. run_state (block_step api ev c ctx cp h opts (BEnded err, b)) w = ((BReturned None, b), w')"
    "\<exists>w'. run_state (block_step api ev c ctx cp h opts (BStreaming s, b)) w = ((BEnded None, b), w')"
  using assms by (simp_all add: ended_for_good_def block_step_def block_next_def Let_def session_end_def stop_def run_simps)

lemma event_connect_step:
  "\<exists>e s w'. run_state (event_step api ev c ctx cp h opts (Connecting, b)) w = ((StreamEnded e, b), w') \<or>
     run_state (event_step api ev c ctx cp h opts (Connecting, b)) w = ((Streaming s, b), w')"
  by (auto simp: event_step_def Let_def split: prod.splits sum.splits)

lemma block_connect_step:
  "\<exists>e s w'. run_state (block_step api ev c ctx cp h opts (BConnecting, b)) w = ((BEnded e, b), w') \<or>
     run_state (block_step api ev c ctx cp h opts (BConnecting, b)) w = ((BStreaming s, b), w')"
  by (auto simp: block_step_def block_next_def Let_def split: prod.splits sum.splits)

lemma run_iterate_Suc:
  "run_state (step s) w = (t, w') \<Longrightarrow> run_state (iterate step (Suc n) s) w = run_state (iterate step n t) w'"
  by simp

lemma event_stops:
  assumes "ended_for_good ev ctx"
  shows "\<exists>w'. run_state (iterate (event_step api ev c ctx cp h opts) (Suc n) (StreamEnded e, b)) w = ((Returned None, b), w')"
    "\<exists>w'. run_state (iterate (event_step api ev c ctx cp h opts) (Suc (Suc n)) (Streaming s, b)) w = ((Returned None, b), w')"
    "\<exists>w'. run_state (iterate (event_step api ev c ctx cp h opts) (Suc (Suc (Suc n))) (Connecting, b)) w = ((Returned None, b), w')"
proof -
  let ?step = "event_step api ev c ctx cp h opts"
  have fin: "returned (Returned None, b) \<noteq> None" by (simp add: returned_def)
  have 1: "\<exists>w'. run_state (iterate ?step (Suc n) (StreamEnded e, b)) w = ((Returned None, b), w')" for n e w
    using event_ended_step(1) [OF assms, of api c cp h opts e b w] events_loop.iterate_final [OF fin]
    by (metis run_iterate_Suc)
  have 2: "\<exists>w'. run_state (iterate ?step (Suc (Suc n)) (Streaming s, b)) w = ((Returned None, b), w')" for n s w
    using event_ended_step(2) [OF assms, of api c cp h opts s b w] 1 by (metis run_iterate_Suc)
  show "\<exists>w'. run_state (iterate ?step (Suc n) (StreamEnded e, b)) w = ((Returned None, b), w')" by (rule 1)
  show "\<exists>w'. run_state (iterate ?step (Suc (Suc n)) (Streaming s, b)) w = ((Returned None, b), w')" by (rule 2)
  show "\<exists>w'. run_state (iterate ?step (Suc (Suc (Suc n))) (Connecting, b)) w = ((Returned None, b), w')"
    using event_connect_step [of api ev c ctx cp h opts b w] 1 2 by (metis run_iterate_Suc)
qed

lemma block_stops:
  assumes "ended_for_good ev ctx"
  shows "\<exists>w'. run_state (iterate (block_step api ev c ctx cp h opts) (Suc n) (BEnded e, b)) w = ((BReturned None, b), w')"
    "\<exists>w'. run_state (iterate (block_step api ev c ctx cp h opts) (Suc (Suc n)) (BStreaming s, b)) w = ((BReturned None, b), w')"
    "\<exists>w'. run_state (iterate (block_step api ev c ctx cp h opts) (Suc (Suc (Suc n))) (BConnecting, b)) w = ((BReturned None, b), w')"
proof -
  let ?step = "block_step api ev c ctx cp h opts"
  have fin: "breturned (BReturned None, b) \<noteq> None" by (simp add: breturned_def)
  have 1: "\<exists>w'. run_state (iterate ?step (Suc n) (BEnded e, b)) w = ((BReturned None, b), w')" for n e w
    using block_ended_step(1) [OF assms, of api c cp h opts e b w] blocks_loop.iterate_final [OF fin]
    by (metis run_iterate_Suc)
  have 2: "\<exists>w'. run_state (iterate ?step (Suc (Suc n)) (BStreaming s, b)) w = ((BReturned None, b), w')" for n s w
    using block_ended_step(2) [OF assms, of api c cp h opts s b w] 1 by (metis run_iterate_Suc)
  show "\<exists>w'. run_state (iterate ?step (Suc n) (BEnded e, b)) w = ((BReturned None, b), w')" by (rule 1)
  show "\<exists>w'. run_state (iterate ?step (Suc (Suc n)) (BStreaming s, b)) w = ((BReturned None, b), w')" by (rule 2)
  show "\<exists>w'. run_state (iterate ?step (Suc (Suc (Suc n))) (BConnecting, b)) w = ((BReturned None, b), w')"
    using block_connect_step [of api ev c ctx cp h opts b w] 1 2 by (metis run_iterate_Suc)
qed

text \<open>
  C34: a listener stops when its context ends. If the context has ended for good and the
  subscriptions then deliver nothing, as the Gateway client documents for an ended context, both
  listeners return nil within three steps from wherever they are between events, whatever the
  state of the connection.
\<close>

theorem listeners_stop_with_context:
  assumes "ended_for_good ev ctx" and "\<forall>r. p \<noteq> Returned r" and "\<forall>r. q \<noteq> BReturned r"
  shows "returned (fst (run_state (iterate (event_step api ev c ctx cp h opts) 3 (p, b)) w)) = Some None \<and>
    breturned (fst (run_state (iterate (block_step api ev c ctx cp h' opts) 3 (q, b)) w)) = Some None"
proof
  have 3: "(3 :: nat) = Suc (Suc (Suc 0))" by simp
  have "\<exists>w'. run_state (iterate (event_step api ev c ctx cp h opts) 3 (p, b)) w = ((Returned None, b), w')"
    unfolding 3 using assms(2) by (cases p) (simp_all del: iterate.simps add: event_stops [OF assms(1)])
  then show "returned (fst (run_state (iterate (event_step api ev c ctx cp h opts) 3 (p, b)) w)) = Some None"
    by (auto simp: returned_def)
  have "\<exists>w'. run_state (iterate (block_step api ev c ctx cp h' opts) 3 (q, b)) w = ((BReturned None, b), w')"
    unfolding 3 using assms(3) by (cases q) (simp_all del: iterate.simps add: block_stops [OF assms(1)])
  then show "breturned (fst (run_state (iterate (block_step api ev c ctx cp h' opts) 3 (q, b)) w)) = Some None"
    by (auto simp: breturned_def)
qed

definition quiet_eapi :: "demo eapi" where
  "quiet_eapi = demo_eapi\<lparr>ctx_ended := (\<lambda>cx x. (True, x)), recv_event := (\<lambda>u x. (None, x)), recv_block := (\<lambda>u x. (None, x))\<rparr>"

theorem listeners_stop_with_context_witness:
  "returned (fst (run_state (iterate (event_step demo_api quiet_eapi example_other Background (memoryCheckpointer 0) (\<lambda>cx e x. (None, x)) [])
      3 (Connecting, Second)) (demo_world None []))) = Some None"
proof -
  have "ended_for_good quiet_eapi Background" by (simp add: ended_for_good_def quiet_eapi_def)
  from listeners_stop_with_context [OF this, of Connecting BConnecting] show ?thesis by simp
qed

text \<open>
  \<open>ListenBlocks\<close> looks at its context before it looks at a handler's error: an error that the handler
  returned is lost when the context has ended, while \<open>ListenChaincodeEvents\<close> returns it.
\<close>

lemma ListenBlocks_drops_handler_error:
  assumes "fst (ctx_ended ev ctx (ext w))"
  shows "fst (fst (run_state (block_step api ev c ctx cp h opts (BEnded (Some (HandlerError e)), b)) w)) = BReturned None"
  using assms by (simp add: block_step_def block_next_def Let_def)

end
