(* ===== verification/Examples.thy ===== *)
theory Examples
  imports Listeners
begin

text \<open>
  The two programs under \<open>src/examples\<close>, which put the components together: \<open>basic\<close> builds a client,
  submits one transaction, resolves an open outcome, and reads; \<open>events\<close> follows chaincode events
  with a checkpoint file. The environment is a function; what is printed is returned as a list.
  Shown: \<open>basic\<close> never submits twice and asks about exactly the transaction whose outcome is open,
  what it leaves open, and that a restart of \<open>events\<close> resumes where it stopped.
\<close>

section \<open>How a program ends\<close>

text \<open>
  \<open>log.Fatalf\<close> prints and ends the program at once: no deferred call runs. Each of its calls is a
  constructor with the values it prints; so is each line printed to the standard output.
\<close>

datatype exit =
  Exit
| FatalEnv string
| FatalConnect err
| FatalOutcomeUnknown string "err + TxStatus"
| FatalCreateAsset err
| FatalReadAsset err
| FatalCheckpoint err
| FatalListener err

datatype stdout =
  PCommitted string uint64
| PAsset bytes
| PMissing
| PUnexpected Kind err
| PHeight uint64
| PListening uint64 string
| PStopped

definition mustEnv :: "(string \<Rightarrow> string) \<Rightarrow> string \<Rightarrow> exit + string" where
  "mustEnv getenv key = (let v = getenv key in if v = '''' then Inl (FatalEnv key) else Inr v)"

text \<open>The configuration both programs read from the environment; the fields not named are zero.\<close>

definition zero_config :: Config where
  "zero_config =
     \<lparr>PeerEndpoint = '''', PeerHostOverride = '''', TLSCertPath = '''', ClientTLSCertPath = '''', ClientTLSKeyPath = '''',
      KeepAlive = None, DialOptions = [], cfgIdentity = None, cfgMSPID = '''', CertPath = '''', KeyPath = '''',
      ChannelName = '''', ChaincodeName = '''', ContractName = '''', EvaluateTimeout = 0, EndorseTimeout = 0,
      SubmitTimeout = 0, CommitStatusTimeout = 0, StrictErrorCodes = False, cfgLogger = None, cfgObserver = None\<rparr>"

text \<open>The rest of the program runs only if the variable is set.\<close>

definition with_env :: "(string \<Rightarrow> string) \<Rightarrow> string \<Rightarrow> (string \<Rightarrow> exit + 'a) \<Rightarrow> exit + 'a" where
  "with_env getenv key k = (case mustEnv getenv key of Inl x \<Rightarrow> Inl x | Inr v \<Rightarrow> k v)"

definition env_config :: "(string \<Rightarrow> string) \<Rightarrow> exit + Config" where
  "env_config getenv =
     with_env getenv ''PEER_ENDPOINT'' (\<lambda>peer.
     (let override = getenv ''PEER_HOST_OVERRIDE'' in
     with_env getenv ''TLS_CERT_PATH'' (\<lambda>tls.
     with_env getenv ''CERT_PATH'' (\<lambda>cert.
     with_env getenv ''KEY_PATH'' (\<lambda>key.
     with_env getenv ''MSP_ID'' (\<lambda>msp.
     with_env getenv ''CHANNEL'' (\<lambda>channel.
     with_env getenv ''CHAINCODE'' (\<lambda>chaincode.
       Inr (zero_config\<lparr>PeerEndpoint := peer, PeerHostOverride := override, TLSCertPath := tls, CertPath := cert,
         KeyPath := key, cfgMSPID := msp, ChannelName := channel, ChaincodeName := chaincode\<rparr>)))))))))"

section \<open>The basic example\<close>

text \<open>
  \<open>getenv\<close> is the environment. The program reads the clock for its deadline and for the name of the
  asset. The deferred \<open>Close\<close> runs where \<open>main\<close> returns, and nowhere else.
\<close>

definition read_missing :: "err + bytes \<Rightarrow> stdout list" where
  "read_missing r =
     (if IsNotFound (err_of r) then [PMissing]
      else case r of Inl e \<Rightarrow> [PUnexpected (KindOf (Some e)) e] | Inr _ \<Rightarrow> [])"

definition report_height :: "err + uint64 \<Rightarrow> stdout list" where
  "report_height r = (case r of Inl e \<Rightarrow> [] | Inr h \<Rightarrow> [PHeight h])"

text \<open>What the program does after the asset was committed.\<close>

definition basic_reads :: "'w api \<Rightarrow> FabricClient \<Rightarrow> Ctx option \<Rightarrow> string \<Rightarrow> ('w, stdout list \<times> exit) op" where
  "basic_reads api fc ctx assetID =
     do { raw \<leftarrow> FabricClient_Evaluate api fc ctx ''ReadAsset'' [assetID];
          case raw of
            Inl e \<Rightarrow> State_Monad.return ([], FatalReadAsset e)
          | Inr b \<Rightarrow>
              do { r \<leftarrow> FabricClient_Evaluate api fc ctx ''ReadAsset'' [''does-not-exist''];
                   h \<leftarrow> FabricClient_Height api fc ctx;
                   _ \<leftarrow> Close api fc;
                   State_Monad.return ([PAsset b] @ read_missing r @ report_height h, Exit) } }"

text \<open>What the program does when \<open>CreateAsset\<close> failed: with an open outcome it asks for the status and never submits again.\<close>

definition basic_failed :: "'w api \<Rightarrow> FabricClient \<Rightarrow> Ctx option \<Rightarrow> err \<Rightarrow> ('w, stdout list \<times> exit) op" where
  "basic_failed api fc ctx e =
     (case asError (Some e) of
        Some (fe, _) \<Rightarrow>
          if eOutcomeUnknown fe
          then do { st \<leftarrow> FabricClient_TxStatus api fc ctx (eTxID fe);
                    State_Monad.return ([], FatalOutcomeUnknown (eTxID fe) st) }
          else State_Monad.return ([], FatalCreateAsset e)
      | None \<Rightarrow> State_Monad.return ([], FatalCreateAsset e))"

definition basic_main :: "'w api \<Rightarrow> (string \<Rightarrow> string) \<Rightarrow> ('w, stdout list \<times> exit) op" where
  "basic_main api getenv =
     (case env_config getenv of
        Inl x \<Rightarrow> State_Monad.return ([], x)
      | Inr cfg \<Rightarrow>
          do { r \<leftarrow> New api cfg;
               case r of
                 Inl e \<Rightarrow> State_Monad.return ([], FatalConnect e)
               | Inr fc \<Rightarrow>
                   do { t \<leftarrow> now api;
                        let ctx = Some (WithTimeout Background t (2 * 60 * Second));
                        u \<leftarrow> now api;
                        let assetID = ''asset-'' @ show_int u;
                        res \<leftarrow> FabricClient_Submit api fc ctx ''CreateAsset'' [assetID, ''blue'', ''5'', ''Tomoko'', ''300''];
                        case res of
                          Inl e \<Rightarrow> basic_failed api fc ctx e
                        | Inr tr \<Rightarrow>
                            do { (out, x) \<leftarrow> basic_reads api fc ctx assetID;
                                 State_Monad.return ([PCommitted (trTxID tr) (trBlockNumber tr)] @ out, x) } } })"

section \<open>The events example\<close>

text \<open>
  The context ends when the process is told to stop; which is the outside's to say. The handler
  prints the event and never fails. \<open>main\<close> has returned if the listener has, within the steps given;
  then the checkpointer and the client are closed, in this order.
\<close>

definition print_event :: "'w EventHandler" where
  "print_event ctx e x = (None, x)"

definition checkpointer_close :: "'w eapi \<Rightarrow> Checkpointer \<Rightarrow> ('w, unit) op" where
  "checkpointer_close ev cp =
     (case cp of
        FileCheckpointer f \<Rightarrow> do { emit (ECheckpointerClose f); _ \<leftarrow> outside (File_Close ev f); State_Monad.return () }
      | _ \<Rightarrow> State_Monad.return ())"

definition events_main :: "'w api \<Rightarrow> 'w eapi \<Rightarrow> nat \<Rightarrow> (string \<Rightarrow> string) \<Rightarrow> ('w, stdout list \<times> exit option) op" where
  "events_main api ev fuel getenv =
     (case env_config getenv of
        Inl x \<Rightarrow> State_Monad.return ([], Some x)
      | Inr cfg \<Rightarrow>
          do { r \<leftarrow> New api cfg;
               case r of
                 Inl e \<Rightarrow> State_Monad.return ([], Some (FatalConnect e))
               | Inr fc \<Rightarrow>
                   do { k \<leftarrow> NewFileCheckpointer ev ''checkpoint.json'';
                        case k of
                          Inl e \<Rightarrow> State_Monad.return ([], Some (FatalCheckpoint e))
                        | Inr cp \<Rightarrow>
                            do { n \<leftarrow> inspect (BlockNumber ev cp);
                                 tx \<leftarrow> inspect (TransactionID ev cp);
                                 r \<leftarrow> FabricClient_ListenChaincodeEvents api ev fuel fc (CallerCtx 0 None) (Some cp)
                                         (Some print_event) [FromBlock 0];
                                 case r of
                                   None \<Rightarrow> State_Monad.return ([PListening n tx], None)
                                 | Some (Some e) \<Rightarrow> State_Monad.return ([PListening n tx], Some (FatalListener e))
                                 | Some None \<Rightarrow>
                                     do { checkpointer_close ev cp;
                                          _ \<leftarrow> Close api fc;
                                          State_Monad.return ([PListening n tx, PStopped], Some Exit) } } } })"

section \<open>The client's default handle\<close>

text \<open>A client that is open and was made before anything the world will allocate.\<close>

definition ready :: "FabricClient \<Rightarrow> 'w world \<Rightarrow> bool" where
  "ready fc w = (built fc w \<and> fcAddr fc < fresh w)"

fun is_resource :: "effect \<Rightarrow> bool" where
  "is_resource (EConnOpen c) = True"
| "is_resource (EConnClose c) = True"
| "is_resource (EGatewayOpen g) = True"
| "is_resource (EGatewayClose g) = True"
| "is_resource _ = False"

fun is_submit :: "effect \<Rightarrow> bool" where
  "is_submit (ESubmit t c) = True"
| "is_submit _ = False"

text \<open>The connections and Gateways opened and closed, and the transactions sent to the orderer.\<close>

definition resources :: "effect list \<Rightarrow> effect list" where
  "resources tr = filter is_resource tr"

definition submits :: "effect list \<Rightarrow> effect list" where
  "submits tr = filter is_submit tr"

lemma resources_simps [simp]:
  "resources [] = []" "resources (a @ b) = resources a @ resources b"
  "resources (e # es) = (if is_resource e then e # resources es else resources es)"
  "submits [] = []" "submits (a @ b) = submits a @ submits b"
  "submits (e # es) = (if is_submit e then e # submits es else submits es)"
  by (simp_all add: resources_def submits_def)

lemma hooks_quiet: "calls es = [] \<Longrightarrow> resources es = [] \<and> submits es = []"
proof (induction es)
  case (Cons e es)
  then show ?case by (cases e) (auto split: if_splits)
qed simp

lemma observe_quiet [simp]:
  assumes "usable (ctCfg c)"
  shows "resources (observe_effects api c op fn t d err) = []" "submits (observe_effects api c op fn t d err) = []"
  using hooks_quiet observe_effects_usable(1) [OF assms] by blast+

lemma log_quiet [simp]:
  assumes "usable cfg"
  shows "resources (log_effects cfg lv msg kv) = []" "submits (log_effects cfg lv msg kv) = []"
  using hooks_quiet log_effects_usable(1) [OF assms] by blast+

lemma committed_quiet [simp]:
  assumes "usable (ctCfg (pContract p))"
  shows "resources (committed_log p st) = []" "submits (committed_log p st) = []"
  using assms by (simp_all add: committed_log_def)

lemma resources_none [simp]: "resources (map (\<lambda>(b, ll). ELog b ll) xs) = []" "submits (map (\<lambda>(b, ll). ELog b ll) xs) = []"
  by (induction xs) auto

lemma submits_rpcs: "submits tr = submits (rpcs tr)"
proof (induction tr)
  case (Cons e es)
  then show ?case by (cases e) auto
qed simp

lemma default_handle [simp]:
  "own (FabricClient_Contract fc)" "ctFc (FabricClient_Contract fc) = fc" "ctChannel (FabricClient_Contract fc) = ChannelName (fcCfg fc)"
  by (simp_all add: own_def FabricClient_Contract_def)

lemma ready_usable: "ready fc w \<Longrightarrow> usable (fcCfg fc) \<and> \<not> closed w (fcAddr fc)"
  by (simp add: ready_def built_def)

lemma default_Evaluate:
  assumes "ready fc w" and "run_state (EvaluateWith api (FabricClient_Contract fc) ctx fn opts) w = (res, w')"
  shows "ready fc w' \<and> (\<exists>es. trace w' = trace w @ es \<and> resources es = [] \<and> submits es = [])"
proof -
  let ?w = "w\<lparr>ext := snd (time_Now api (ext w))\<rparr>"
  note us = ready_usable [OF assms(1)]
  show ?thesis
    by (cases rule: evaluate_body_cases [of api "FabricClient_Contract fc" ctx fn opts ?w])
      (use assms us in \<open>auto simp: run_EvaluateWith ready_def built_def\<close>)
qed

lemma default_qscc:
  assumes "ready fc w" and "run_state (qscc api (FabricClient_Contract fc) ctx fn args) w = (res, w')"
  shows "ready fc w' \<and> (\<exists>es ref. trace w' = trace w @ es \<and> resources es = [] \<and> submits es = [] \<and>
     EProposal ref fn [WithArguments args] \<in> set es \<and> crChannel ref = ChannelName (fcCfg fc) \<and> crChaincode ref = ''qscc'')"
proof -
  note us = ready_usable [OF assms(1)]
  show ?thesis
    by (cases rule: qscc_cases [of api "FabricClient_Contract fc" ctx fn args w])
      (use assms us in \<open>auto simp: ready_def built_def\<close>)
qed

lemma default_TxStatus:
  assumes "ready fc w" and "run_state (FabricClient_TxStatus api fc ctx t) w = (res, w')"
  shows "ready fc w' \<and> (\<exists>es ref. trace w' = trace w @ es \<and> resources es = [] \<and> submits es = [] \<and>
     EProposal ref ''GetTransactionByID'' [WithArguments [ChannelName (fcCfg fc), t]] \<in> set es \<and>
     crChannel ref = ChannelName (fcCfg fc) \<and> crChaincode ref = ''qscc'')"
proof -
  let ?w = "w\<lparr>ext := snd (time_Now api (ext w))\<rparr>"
  have "ready fc ?w" using assms(1) by (simp add: ready_def built_def)
  moreover obtain raw v where "run_state (qscc api (FabricClient_Contract fc) ctx ''GetTransactionByID'' [ChannelName (fcCfg fc), t]) ?w = (raw, v)"
    by fastforce
  ultimately show ?thesis using default_qscc [of fc ?w api ctx _ _ raw v] ready_usable [OF assms(1)] assms(2)
    by (fastforce simp: FabricClient_TxStatus_def run_TxStatus ready_def built_def)
qed

lemma default_Height:
  assumes "ready fc w" and "run_state (FabricClient_Height api fc ctx) w = (res, w')"
  shows "ready fc w' \<and> (\<exists>es. trace w' = trace w @ es \<and> resources es = [] \<and> submits es = [])"
proof -
  obtain raw v where q: "run_state (qscc api (FabricClient_Contract fc) ctx ''GetChainInfo'' [ChannelName (fcCfg fc)]) w = (raw, v)"
    by fastforce
  then have "w' = v" using assms(2) by (auto simp: FabricClient_Height_def Height_def split: sum.splits)
  with default_qscc [OF assms(1) q] show ?thesis by blast
qed

lemma default_Submit:
  assumes "ready fc w" and "run_state (SubmitWith api (FabricClient_Contract fc) ctx fn opts) w = (res, w')"
  shows "ready fc w' \<and> (\<exists>es. trace w' = trace w @ es \<and> resources es = [] \<and>
     submission api (FabricClient_Contract fc) ctx fn (proposalOptions opts) (rpcs es) res)"
proof -
  let ?c = "FabricClient_Contract fc"
  note us = ready_usable [OF assms(1)]
  have "ready fc w' \<and> (\<exists>es. trace w' = trace w @ es \<and> resources es = [])"
  proof (cases rule: SubmitAsync_cases [of api ?c ctx fn opts w])
    case (ok pend x g r p y d tx y' d' m)
    define w1 where "w1 = snd (run_state (SubmitAsync api ?c ctx fn opts) w)"
    have w1: "trace w1 = trace w @ proposed ?c fn opts g r @ endorse_effects api ?c ctx fn p y d None
         @ submit_effects api ?c ctx fn (Proposal_TransactionID api p) tx y' d' None" "ready fc w1" "fresh w \<le> fresh w1"
      using assms(1) by (simp_all add: w1_def ok(1) ready_def built_def)
    have run: "run_state (SubmitWith api ?c ctx fn opts) w = run_state (Wait api pend ctx) w1"
      by (simp add: SubmitWith_def ok(1) w1_def)
    have r: "r = NoRelease" "pAddr pend \<noteq> fcAddr fc" using ok(6) assms(1) by (simp_all add: ok(2) ready_def)
    show ?thesis
      by (cases rule: Wait_cases [of api pend ctx w1])
        (use w1 assms(2) us r ok(2) in \<open>auto simp: run effects ready_def built_def\<close>)
  qed (use assms us in \<open>auto simp: SubmitWith_def effects ready_def built_def\<close>)
  moreover have "submission api ?c ctx fn (proposalOptions opts) (rpcs (added w w')) res"
    using SubmitWith_submission [of ?c api ctx fn opts w] us by (simp add: assms(2))
  ultimately show ?thesis by auto
qed

lemma submission_submits: "submission api c ctx fn os tr res \<Longrightarrow> length (submits tr) \<le> 1"
  by (induction rule: submission.induct) simp_all

section \<open>What the basic example does\<close>

lemma env_config_cases:
  obtains (unset) key where "env_config getenv = Inl (FatalEnv key)" "getenv key = ''''"
  | (set) cfg where "env_config getenv = Inr cfg" "ChannelName cfg = getenv ''CHANNEL''" "cfgIdentity cfg = None"
proof (cases "env_config getenv")
  case (Inl x)
  then have "\<exists>key. x = FatalEnv key \<and> getenv key = ''''"
    by (auto simp: env_config_def with_env_def mustEnv_def Let_def split: sum.splits if_splits)
  with Inl show thesis using that(1) by blast
next
  case (Inr cfg)
  then have "ChannelName cfg = getenv ''CHANNEL''" "cfgIdentity cfg = None"
    by (auto simp: env_config_def with_env_def mustEnv_def Let_def zero_config_def split: sum.splits if_splits)
  with Inr show thesis by (rule that(2))
qed

lemma ready_ext [simp]: "ready fc (w\<lparr>ext := x\<rparr>) = ready fc w"
  by (simp add: ready_def built_def)

lemma ready_Close:
  assumes "ready fc w" "fcOwnedConn fc = Some (fcConn fc)"
  shows "\<exists>es. trace (snd (run_state (Close api fc) w)) = trace w @ es \<and>
    resources es = [EGatewayClose (fcGw fc), EConnClose (fcConn fc)] \<and> submits es = []"
  using assms by (auto simp: ready_def run_Close run_close_body built_def split: option.splits)

text \<open>The run of the program once it has its client, from a world in which that is ready.\<close>

lemma basic_reads_run:
  assumes "ready fc w" "fcOwnedConn fc = Some (fcConn fc)" and "run_state (basic_reads api fc ctx a) w = ((out, x), w')"
  shows "\<exists>es. trace w' = trace w @ es \<and> submits es = [] \<and> (\<forall>t n. PCommitted t n \<notin> set out) \<and>
    (x = Exit \<and> resources es = [EGatewayClose (fcGw fc), EConnClose (fcConn fc)] \<or>
     (\<exists>e. x = FatalReadAsset e) \<and> resources es = [])"
proof -
  let ?ev = "\<lambda>k. EvaluateWith api (FabricClient_Contract fc) ctx ''ReadAsset'' [Args [k]]"
  note ops = basic_reads_def FabricClient_Evaluate_def Evaluate_def
  obtain raw w1 where e1: "run_state (?ev a) w = (raw, w1)" by fastforce
  from default_Evaluate [OF assms(1) e1] obtain es1 where
    w1: "ready fc w1" "trace w1 = trace w @ es1" "resources es1 = []" "submits es1 = []" by blast
  show ?thesis
  proof (cases raw)
    case (Inl e)
    with assms(3) e1 w1 show ?thesis by (auto simp: ops)
  next
    case (Inr b)
    obtain r w2 where e2: "run_state (?ev ''does-not-exist'') w1 = (r, w2)" by fastforce
    from default_Evaluate [OF w1(1) e2] obtain es2 where
      w2: "ready fc w2" "trace w2 = trace w1 @ es2" "resources es2 = []" "submits es2 = []" by blast
    obtain h w3 where e3: "run_state (FabricClient_Height api fc ctx) w2 = (h, w3)" by fastforce
    from default_Height [OF w2(1) e3] obtain es3 where
      w3: "ready fc w3" "trace w3 = trace w2 @ es3" "resources es3 = []" "submits es3 = []" by blast
    obtain ce w4 where e4: "run_state (Close api fc) w3 = (ce, w4)" by fastforce
    from ready_Close [OF w3(1) assms(2), of api] obtain es4 where
      w4: "trace w4 = trace w3 @ es4" "resources es4 = [EGatewayClose (fcGw fc), EConnClose (fcConn fc)]" "submits es4 = []"
      by (auto simp: e4)
    have "PCommitted t n \<notin> set ([PAsset b] @ read_missing r @ report_height h)" for t n
      by (auto simp: read_missing_def report_height_def split: sum.splits)
    moreover have "out = [PAsset b] @ read_missing r @ report_height h" "x = Exit" "w' = w4"
      using assms(3) Inr e1 e2 e3 e4 by (simp_all add: ops)
    ultimately show ?thesis using w1 w2 w3 w4 by simp
  qed
qed

lemma basic_failed_run:
  assumes "ready fc w" and "run_state (basic_failed api fc ctx e) w = ((out, x), w')"
  shows "out = [] \<and> (\<exists>es. trace w' = trace w @ es \<and> submits es = [] \<and> resources es = [] \<and>
    (if IsOutcomeUnknown (Some e)
     then (\<exists>st ref. x = FatalOutcomeUnknown (TxIDOf (Some e)) st \<and> crChaincode ref = ''qscc'' \<and>
        EProposal ref ''GetTransactionByID'' [WithArguments [ChannelName (fcCfg fc), TxIDOf (Some e)]] \<in> set es)
     else x = FatalCreateAsset e))"
proof (cases "IsOutcomeUnknown (Some e)")
  case True
  then obtain fe cc where fe: "asError (Some e) = Some (fe, cc)" "eOutcomeUnknown fe" "TxIDOf (Some e) = eTxID fe"
    by (auto simp: IsOutcomeUnknown_def TxIDOf_def split: option.splits)
  obtain st v where st: "run_state (FabricClient_TxStatus api fc ctx (eTxID fe)) w = (st, v)" by fastforce
  from default_TxStatus [OF assms(1) st] obtain es ref where
    "trace v = trace w @ es" "resources es = []" "submits es = []"
    "EProposal ref ''GetTransactionByID'' [WithArguments [ChannelName (fcCfg fc), eTxID fe]] \<in> set es" "crChaincode ref = ''qscc''" by blast
  with True fe st assms(2) show ?thesis by (auto simp: basic_failed_def)
next
  case False
  with assms(2) show ?thesis
    by (auto simp: basic_failed_def IsOutcomeUnknown_def split: option.splits)
qed

lemma run_Submit_own:
  "run_state (FabricClient_Submit api fc ctx fn args) w = run_state (SubmitWith api (FabricClient_Contract fc) ctx fn [Args args]) w"
  by (simp add: FabricClient_Submit_def Submit_def)

text \<open>Up to the submission: what the basic example does once its client stands, and how it goes on.\<close>

definition basic_rest :: "'w api \<Rightarrow> FabricClient \<Rightarrow> Ctx option \<Rightarrow> string \<Rightarrow> err + TxResult \<Rightarrow> ('w, stdout list \<times> exit) op" where
  "basic_rest api fc ctx a res =
     (case res of
        Inl e \<Rightarrow> basic_failed api fc ctx e
      | Inr tr \<Rightarrow> do { (out, x) \<leftarrow> basic_reads api fc ctx a; State_Monad.return ([PCommitted (trTxID tr) (trBlockNumber tr)] @ out, x) })"

lemma basic_main_run:
  assumes "env_config getenv = Inr cfg" and "run_state (New api cfg) w = (Inr fc, w1)"
  obtains ctx a args x where "x = snd (time_Now api (snd (time_Now api (ext w1))))"
    "\<And>res w3. run_state (SubmitWith api (FabricClient_Contract fc) ctx ''CreateAsset'' [Args args]) (w1\<lparr>ext := x\<rparr>) = (res, w3) \<Longrightarrow>
       run_state (basic_main api getenv) w = run_state (basic_rest api fc ctx a res) w3"
proof -
  define ctx where "ctx = Some (WithTimeout Background (fst (time_Now api (ext w1))) (2 * 60 * Second))"
  define a where "a = ''asset-'' @ show_int (fst (time_Now api (snd (time_Now api (ext w1)))))"
  show thesis
    by (rule that [of _ ctx "[a, ''blue'', ''5'', ''Tomoko'', ''300'']" a], rule refl)
      (use assms in \<open>auto simp: basic_main_def basic_rest_def run_now Let_def ctx_def a_def run_Submit_own split: sum.splits\<close>)
qed

lemma basic_main_submits:
  assumes "run_state (basic_main api getenv) w = ((out, x), w')" and cfg: "env_config getenv = Inr cfg"
    and new: "run_state (New api cfg) w = (Inr fc, w1)" "built fc w1" "fcAddr fc < fresh w1"
  obtains ctx a args es res w3 where "ready fc w3" "trace w3 = trace w1 @ es" "resources es = []"
    "submission api (FabricClient_Contract fc) ctx ''CreateAsset'' args (rpcs es) res"
    "run_state (basic_rest api fc ctx a res) w3 = ((out, x), w')"
proof -
  from basic_main_run [OF cfg new(1)] obtain ctx a args y where
    run: "\<And>res w3. run_state (SubmitWith api (FabricClient_Contract fc) ctx ''CreateAsset'' [Args args]) (w1\<lparr>ext := y\<rparr>) = (res, w3) \<Longrightarrow>
       run_state (basic_main api getenv) w = run_state (basic_rest api fc ctx a res) w3" by metis
  have ready: "ready fc (w1\<lparr>ext := y\<rparr>)" using new by (simp add: ready_def built_def)
  obtain res w3 where sub: "run_state (SubmitWith api (FabricClient_Contract fc) ctx ''CreateAsset'' [Args args]) (w1\<lparr>ext := y\<rparr>) = (res, w3)"
    by fastforce
  from default_Submit [OF ready sub] run [OF sub] assms(1) show thesis by (auto intro: that)
qed

lemma basic_main_cases:
  assumes "run_state (basic_main api getenv) w = ((out, x), w')"
  obtains (env) key where "x = FatalEnv key" "getenv key = ''''" "out = []" "w' = w"
  | (connect) e where "x = FatalConnect e" "out = []" "KindOf (Some e) = KindConfig"
      "trace w' = trace w \<or> (\<exists>c. trace w' = trace w @ [EConnOpen c, EConnClose c])"
  | (failed) c g logs es es' e fc ctx a where "added w w' = [EConnOpen c, EGatewayOpen g] @ map (\<lambda>(b, ll). ELog b ll) logs @ es @ es'"
      "resources es = []" "submission api (FabricClient_Contract fc) ctx ''CreateAsset'' a (rpcs es) (Inl e)" "out = []"
      "submits es' = []" "resources es' = []"
      "if IsOutcomeUnknown (Some e)
       then (\<exists>st ref. x = FatalOutcomeUnknown (TxIDOf (Some e)) st \<and> crChaincode ref = ''qscc'' \<and>
          EProposal ref ''GetTransactionByID'' [WithArguments [getenv ''CHANNEL'', TxIDOf (Some e)]] \<in> set es')
       else x = FatalCreateAsset e"
  | (committed) c g logs es es' tr out' fc ctx a where "added w w' = [EConnOpen c, EGatewayOpen g] @ map (\<lambda>(b, ll). ELog b ll) logs @ es @ es'"
      "resources es = []" "submission api (FabricClient_Contract fc) ctx ''CreateAsset'' a (rpcs es) (Inr tr)"
      "out = [PCommitted (trTxID tr) (trBlockNumber tr)] @ out'" "submits es' = []" "\<forall>t n. PCommitted t n \<notin> set out'"
      "x = Exit \<and> resources es' = [EGatewayClose g, EConnClose c] \<or> (\<exists>e. x = FatalReadAsset e) \<and> resources es' = []"
proof (cases rule: env_config_cases [of getenv])
  case (unset key)
  with assms show thesis by (intro that(1)) (auto simp: basic_main_def)
next
  case (set cfg)
  show thesis
  proof (cases rule: New_cases [of api cfg w])
    case (early e w1)
    with set assms show thesis by (intro that(2) [of e]) (auto simp: basic_main_def)
  next
    case (late e w1 c)
    with set assms show thesis by (intro that(2) [of e]) (auto simp: basic_main_def)
  next
    case new: (ok fc w1 logs)
    obtain ctx a args es res w3 where
      w3: "ready fc w3" "trace w3 = trace w1 @ es" "resources es = []"
        "submission api (FabricClient_Contract fc) ctx ''CreateAsset'' args (rpcs es) res"
      and run: "run_state (basic_rest api fc ctx a res) w3 = ((out, x), w')"
      by (rule basic_main_submits [OF assms set(1) new(1,2,7)])
    have tr3: "trace w3 = trace w @ [EConnOpen (fcConn fc), EGatewayOpen (fcGw fc)] @ map (\<lambda>(b, ll). ELog b ll) logs @ es"
      using w3(2) new(6) by simp
    show thesis
    proof (cases res)
      case (Inl e)
      with run have "run_state (basic_failed api fc ctx e) w3 = ((out, x), w')" by (simp add: basic_rest_def)
      from basic_failed_run [OF w3(1) this] obtain es' where
        f: "out = []" "trace w' = trace w3 @ es'" "submits es' = []" "resources es' = []"
          "if IsOutcomeUnknown (Some e)
           then (\<exists>st ref. x = FatalOutcomeUnknown (TxIDOf (Some e)) st \<and> crChaincode ref = ''qscc'' \<and>
              EProposal ref ''GetTransactionByID'' [WithArguments [ChannelName (fcCfg fc), TxIDOf (Some e)]] \<in> set es')
           else x = FatalCreateAsset e" by blast
      have ch: "ChannelName (fcCfg fc) = getenv ''CHANNEL''" using new(4) set(2) by simp
      show thesis
        by (rule that(3) [OF _ w3(3) w3(4) [unfolded Inl] f(1,3,4) f(5) [unfolded ch]]) (use f(2) tr3 in simp)
    next
      case (Inr tr)
      obtain o' y v where reads: "run_state (basic_reads api fc ctx a) w3 = ((o', y), v)" by (metis prod.exhaust)
      with run Inr have o: "out = [PCommitted (trTxID tr) (trBlockNumber tr)] @ o'" "y = x" "v = w'" by (simp_all add: basic_rest_def)
      from basic_reads_run [OF w3(1) new(3) reads] obtain es' where "trace w' = trace w3 @ es'" "submits es' = []" "\<forall>t n. PCommitted t n \<notin> set o'"
        "x = Exit \<and> resources es' = [EGatewayClose (fcGw fc), EConnClose (fcConn fc)] \<or> (\<exists>e. x = FatalReadAsset e) \<and> resources es' = []"
        unfolding o by blast
      with o(1) tr3 w3(3,4) Inr show thesis
        by (intro that(4) [where es = es and es' = es' and tr = tr and logs = logs and c = "fcConn fc" and g = "fcGw fc" and out' = o']) simp_all
    qed
  qed
qed

text \<open>
  C10: the basic example never submits a transaction twice. It sends at most one transaction to the
  orderer. If that call fails with an open outcome, the program ends by asking \<open>qscc\<close> on its channel
  about exactly the transaction it sent; it reports a plain failure only if the outcome is not
  open, and a committed transaction only if the peer reported that one as valid, with its block.
\<close>

theorem basic_never_resubmits:
  assumes "gateway_errors_opaque api" and "run_state (basic_main api getenv) w = ((out, x), w')"
  shows "length (submits (added w w')) \<le> 1 \<and>
    (\<forall>id st. x = FatalOutcomeUnknown id st \<longrightarrow> submits (added w w') \<noteq> [] \<and>
       (\<exists>p c1 ref. EEndorse p c1 \<in> set (added w w') \<and> id = Proposal_TransactionID api p \<and> crChaincode ref = ''qscc'' \<and>
          EProposal ref ''GetTransactionByID'' [WithArguments [getenv ''CHANNEL'', id]] \<in> set (added w w'))) \<and>
    (\<forall>e. x = FatalCreateAsset e \<longrightarrow> \<not> IsOutcomeUnknown (Some e)) \<and>
    (\<forall>t n. PCommitted t n \<in> set out \<longrightarrow>
       (\<exists>p c1 m c3 y st. EEndorse p c1 \<in> set (added w w') \<and> t = Proposal_TransactionID api p \<and> ECommitStatus m c3 \<in> set (added w w') \<and>
          fst (Commit_Status api m c3 y) = Inr st \<and> csSuccessful st \<and> n = csBlockNumber st))"
  using assms(2)
proof (cases rule: basic_main_cases)
  case (connect e)
  then show ?thesis by (auto simp: added_def)
next
  case (failed c g logs es es' e fc ctx a)
  have len: "length (submits (added w w')) \<le> 1"
    using submission_submits [OF failed(3)] by (simp add: failed(1,5) submits_rpcs [of es])
  have mem: "r \<in> set (rpcs es) \<Longrightarrow> r \<in> set (added w w')" for r by (simp add: failed(1) set_rpcs)
  note facts = submission_error_facts [OF assms(1) failed(3)]
  show ?thesis
  proof (cases "IsOutcomeUnknown (Some e)")
    case True
    with facts obtain p c1 tx c2 where p: "ESubmit tx c2 \<in> set (rpcs es)" "EEndorse p c1 \<in> set (rpcs es)"
      "TxIDOf (Some e) = Proposal_TransactionID api p" by (auto split: if_splits)
    from p(1) have "submits (added w w') \<noteq> []" using mem by (force simp: submits_def filter_empty_conv)
    moreover from True failed(7) obtain st ref where
      x: "x = FatalOutcomeUnknown (Proposal_TransactionID api p) st" "crChaincode ref = ''qscc''"
        "EProposal ref ''GetTransactionByID'' [WithArguments [getenv ''CHANNEL'', Proposal_TransactionID api p]] \<in> set es'"
      unfolding p(3) by auto
    moreover from x(3) have "EProposal ref ''GetTransactionByID'' [WithArguments [getenv ''CHANNEL'', Proposal_TransactionID api p]] \<in> set (added w w')"
      by (simp add: failed(1))
    ultimately show ?thesis using mem [OF p(2)] len failed(4) by auto
  next
    case False
    with failed(4,7) len show ?thesis by simp
  qed
next
  case (committed c g logs es es' tr out' fc ctx a)
  have len: "length (submits (added w w')) \<le> 1"
    using submission_submits [OF committed(3)] by (simp add: committed(1,5) submits_rpcs [of es])
  have mem: "r \<in> set (rpcs es) \<Longrightarrow> r \<in> set (added w w')" for r by (simp add: committed(1) set_rpcs)
  from committed(3) obtain p c1 m c3 y st where "EEndorse p c1 \<in> set (rpcs es)" "trTxID tr = Proposal_TransactionID api p"
      "ECommitStatus m c3 \<in> set (rpcs es)" "fst (Commit_Status api m c3 y) = Inr st" "csSuccessful st" "trBlockNumber tr = csBlockNumber st"
    by (rule submission_ok) (auto split: if_splits)
  with mem committed(4,6) have "\<forall>t n. PCommitted t n \<in> set out \<longrightarrow>
       (\<exists>p c1 m c3 y st. EEndorse p c1 \<in> set (added w w') \<and> t = Proposal_TransactionID api p \<and> ECommitStatus m c3 \<in> set (added w w') \<and>
          fst (Commit_Status api m c3 y) = Inr st \<and> csSuccessful st \<and> n = csBlockNumber st)"
    by (metis append_Cons append_Nil set_ConsD stdout.inject(1))
  with committed(7) len show ?thesis by auto
qed (simp add: added_def)

text \<open>
  What the basic example leaves open. When \<open>main\<close> returns, it has closed the one Gateway and the
  one connection it opened; a failing start leaves nothing open. Every other end of the program
  is by \<open>log.Fatalf\<close>, which skips the deferred \<open>Close\<close>: both are left to the operating system.
\<close>

theorem basic_releases:
  assumes "run_state (basic_main api getenv) w = ((out, x), w')"
  shows "case x of
      Exit \<Rightarrow> \<exists>c g. resources (added w w') = [EConnOpen c, EGatewayOpen g, EGatewayClose g, EConnClose c]
    | FatalEnv key \<Rightarrow> getenv key = '''' \<and> w' = w
    | FatalConnect e \<Rightarrow> KindOf (Some e) = KindConfig \<and> resources (added w w') \<in> {[]} \<union> {[EConnOpen c, EConnClose c] | c. True}
    | _ \<Rightarrow> \<exists>c g. resources (added w w') = [EConnOpen c, EGatewayOpen g]"
  using assms
proof (cases rule: basic_main_cases)
  case (failed c g logs es es' e fc ctx a)
  then show ?thesis by (auto split: if_splits)
qed (auto simp: added_def)

text \<open>An environment in which every variable has a value.\<close>

definition example_env :: "string \<Rightarrow> string" where
  "example_env key = (if key = ''PEER_HOST_OVERRIDE'' then '''' else ''value'')"

definition example_env_config :: Config where
  "example_env_config = zero_config\<lparr>PeerEndpoint := ''value'', TLSCertPath := ''value'', CertPath := ''value'',
     KeyPath := ''value'', cfgMSPID := ''value'', ChannelName := ''value'', ChaincodeName := ''value''\<rparr>"

lemma example_env_config: "env_config example_env = Inr example_env_config"
  by (simp add: env_config_def with_env_def mustEnv_def example_env_def example_env_config_def zero_config_def)

lemma example_env_valid: "validate example_env_config True = None"
proof -
  have "\<not> blank ''value''" by code_simp
  then show ?thesis by (simp add: validate_def problems_def example_env_config_def zero_config_def)
qed

lemma example_env_files:
  "TLSCertPath (withDefaults example_env_config) = ''value''" "ClientTLSCertPath (withDefaults example_env_config) = ''''"
  "CertPath (withDefaults example_env_config) = ''value''" "KeyPath (withDefaults example_env_config) = ''value''"
  "cfgIdentity example_env_config = None" "cfgMSPID (withDefaults example_env_config) = ''value''"
  by (simp_all add: withDefaults_def Let_def example_env_config_def zero_config_def)

lemma example_New: "\<exists>fc w'. run_state (New lost_peer_api example_env_config) calm_world = (Inr fc, w')"
proof -
  have "TrimSpace ''value'' \<noteq> []" by code_simp
  then show ?thesis
    by (simp add: New_def example_env_valid Let_def transportCredentials_def example_env_files build_def LoadIdentity_def readPEMPath_def
        IdentityFromPEM_def checkKeyMatchesCert_def NewIdentity_def connect_def lost_peer_api_def calm_defs run_log_line_effects)
qed

lemma lost_peer_unknown:
  assumes "\<not> closed w (fcAddr fc)"
  shows "\<exists>e w'. run_state (FabricClient_Submit lost_peer_api fc ctx fn args) w = (Inl e, w') \<and> IsOutcomeUnknown (Some e)"
proof -
  have own: "run_state (gateway lost_peer_api (FabricClient_Contract fc)) w = (Inr (fcGw fc, NoRelease), w)"
    using assms by (simp add: gateway_def FabricClient_Contract_def)
  have e: "IsOutcomeUnknown (Some (classifyErr lost_peer_api (gateway_error codes_Unavailable ''peer down'' []) t phaseCommitStatus True))" for t
    by (simp add: classifyErr_opaque gateway_error_opaque classified_outcome)
  show ?thesis
    by (simp add: run_Submit_own SubmitWith_def SubmitAsync_def own endorse_phase_def submit_phase_def Wait_def wait_body_def now_def Let_def run_simps e)
qed

lemma example_lost:
  "\<exists>out id st w'. run_state (basic_main lost_peer_api example_env) calm_world = ((out, FatalOutcomeUnknown id st), w')"
proof -
  from example_New obtain fc w1 where new: "run_state (New lost_peer_api example_env_config) calm_world = (Inr fc, w1)" by blast
  have "\<not> closed w1 (fcAddr fc)"
    using new by (cases rule: New_cases [of lost_peer_api example_env_config calm_world]) (auto simp: built_def)
  let ?ctx = "Some (WithTimeout Background (fst (time_Now lost_peer_api (ext w1))) (2 * 60 * Second))"
  let ?w2 = "w1\<lparr>ext := snd (time_Now lost_peer_api (snd (time_Now lost_peer_api (ext w1))))\<rparr>"
  let ?a = "''asset-'' @ show_int (fst (time_Now lost_peer_api (snd (time_Now lost_peer_api (ext w1)))))"
  from lost_peer_unknown [of ?w2 fc ?ctx "''CreateAsset''" "[?a, ''blue'', ''5'', ''Tomoko'', ''300'']"] \<open>\<not> closed w1 (fcAddr fc)\<close>
  obtain e w3 where sub: "run_state (FabricClient_Submit lost_peer_api fc ?ctx ''CreateAsset'' [?a, ''blue'', ''5'', ''Tomoko'', ''300'']) ?w2 = (Inl e, w3)"
    and un: "IsOutcomeUnknown (Some e)" by auto
  from un obtain fe cc where "asError (Some e) = Some (fe, cc)" "eOutcomeUnknown fe"
    by (auto simp: IsOutcomeUnknown_def split: option.splits)
  with sub new example_env_config show ?thesis
    by (simp add: basic_main_def run_now Let_def basic_failed_def split_beta)
qed

theorem basic_never_resubmits_witness:
  "\<exists>out id st w' ref. run_state (basic_main lost_peer_api example_env) calm_world = ((out, FatalOutcomeUnknown id st), w') \<and>
     length (submits (added calm_world w')) \<le> 1 \<and>
     EProposal ref ''GetTransactionByID'' [WithArguments [''value'', id]] \<in> set (added calm_world w')"
proof -
  from example_lost obtain out id st w' where run: "run_state (basic_main lost_peer_api example_env) calm_world = ((out, FatalOutcomeUnknown id st), w')"
    by blast
  have "example_env ''CHANNEL'' = ''value''" by (simp add: example_env_def)
  with basic_never_resubmits [OF lost_peer_api_opaque run] run show ?thesis by metis
qed

theorem basic_releases_witness:
  "\<exists>w' c g. run_state (basic_main lost_peer_api (\<lambda>_. [])) calm_world = (([], FatalEnv ''PEER_ENDPOINT''), calm_world) \<and>
     snd (run_state (basic_main lost_peer_api example_env) calm_world) = w' \<and>
     resources (added calm_world w') = [EConnOpen c, EGatewayOpen g]"
proof -
  from example_lost obtain out id st w' where run: "run_state (basic_main lost_peer_api example_env) calm_world = ((out, FatalOutcomeUnknown id st), w')"
    by blast
  have "run_state (basic_main lost_peer_api (\<lambda>_. [])) calm_world = (([], FatalEnv ''PEER_ENDPOINT''), calm_world)"
    by (simp add: basic_main_def env_config_def with_env_def mustEnv_def)
  with basic_releases [OF run] run show ?thesis by auto
qed

section \<open>What the events example does\<close>

text \<open>
  What the program relies on across restarts, beside what its listener does (\<open>event_feed\<close>): the
  checkpoint file, opened by whatever process, is the one checkpointer \<open>f\<close>; opening it, and
  connecting and closing, move no position.
\<close>

definition program_feed :: "'w api \<Rightarrow> 'w eapi \<Rightarrow> nat \<Rightarrow> (nat \<Rightarrow> GatewayEvent) \<Rightarrow> ('w \<Rightarrow> nat option) \<Rightarrow> (nat \<Rightarrow> 'w \<Rightarrow> nat) \<Rightarrow> bool" where
  "program_feed api ev f ledger pos cur =
     (event_feed api ev (FileCheckpointer f) print_event ledger pos cur \<and>
      (\<forall>path x. pos (snd (File_New ev path x)) = pos x \<and> (\<forall>f'. fst (File_New ev path x) = Inr f' \<longrightarrow> f' = f)) \<and>
      (\<forall>x. pos (snd (File_Close ev f x)) = pos x) \<and> (\<forall>t os x. pos (snd (grpc_NewClient api t os x)) = pos x) \<and>
      (\<forall>c x. pos (snd (Conn_Close api c x)) = pos x) \<and> (\<forall>k x. pos (snd (call_close api k x)) = pos x))"

lemma program_feedD:
  assumes "program_feed api ev f ledger pos cur"
  shows "event_feed api ev (FileCheckpointer f) print_event ledger pos cur"
    "pos (snd (File_New ev path x)) = pos x" "fst (File_New ev path x) = Inr f' \<Longrightarrow> f' = f"
    "pos (snd (File_Close ev f x)) = pos x" "pos (snd (grpc_NewClient api t os x)) = pos x"
    "pos (snd (Conn_Close api c x)) = pos x" "pos (snd (call_close api k x)) = pos x"
  using assms unfolding program_feed_def by blast+

lemma program_feed_gateways:
  assumes "program_feed api ev f ledger pos cur"
  shows "pos (snd (client_Connect api i co x)) = pos x" "pos (snd (Gateway_Close api g x)) = pos x"
proof -
  note keeps = event_feed_keeps(8,9) [OF program_feedD(1) [OF assms]]
  show "pos (snd (client_Connect api i co x)) = pos x" by (rule keeps(1))
  from keeps(2) [of "CloseGateway g" x] show "pos (snd (Gateway_Close api g x)) = pos x" by (simp add: release_ext_def)
qed

lemma LoadIdentity_ext: "ext (snd (run_state (LoadIdentity api m c k) w)) = ext w"
  by (auto simp: LoadIdentity_def IdentityFromPEM_def NewIdentity_def split: sum.splits option.splits)

lemma Identity_Close_pos:
  assumes "\<And>k x. pos (snd (call_close api k x)) = pos x"
  shows "pos (ext (snd (run_state (Identity_Close api i) w))) = pos (ext w)"
  using assms by (cases i) (auto simp: Identity_Close_def split: option.splits)

lemma connect_pos:
  assumes "\<And>i os x. pos (snd (client_Connect api i os x)) = pos x"
  shows "pos (ext (snd (run_state (connect api cfg conn h i) w))) = pos (ext w)"
  using assms by (auto simp: connect_def split: sum.splits)

lemma build_pos:
  assumes "\<And>i os x. pos (snd (client_Connect api i os x)) = pos x" "\<And>k x. pos (snd (call_close api k x)) = pos x"
  shows "pos (ext (snd (run_state (build api cfg conn h) w))) = pos (ext w)"
proof -
  let ?load = "case cfgIdentity cfg of
                        Some i \<Rightarrow> State_Monad.return (Inr (i, False))
                      | None \<Rightarrow> do { r \<leftarrow> LoadIdentity api (cfgMSPID cfg) (CertPath cfg) (KeyPath cfg);
                                      State_Monad.return (map_sum id (\<lambda>i. (i, True)) r) }"
  have "ext (snd (run_state ?load w)) = ext w"
    using LoadIdentity_ext [of api "cfgMSPID cfg" "CertPath cfg" "KeyPath cfg" w] by (auto split: option.splits prod.splits)
  then obtain r w1 where load: "run_state ?load w = (r, w1)" "ext w1 = ext w" by (cases "run_state ?load w") auto
  show ?thesis
  proof (cases r)
    case (Inr io)
    obtain i owns where io: "io = (i, owns)" by fastforce
    obtain q w2 where q: "run_state (connect api cfg conn h i) w1 = (q, w2)" by fastforce
    have "pos (ext w2) = pos (ext w1)" using connect_pos [of pos api cfg conn h i w1, OF assms(1)] by (simp add: q)
    with load Inr io q Identity_Close_pos [of pos api _ w2, OF assms(2)] show ?thesis
      by (cases q) (auto simp: build_def split_beta)
  qed (use load in \<open>simp add: build_def\<close>)
qed

text \<open>What starting and closing the client keeps of the outside.\<close>

lemma New_keeps:
  assumes "\<And>t os x. pos (snd (grpc_NewClient api t os x)) = pos x" "\<And>c x. pos (snd (Conn_Close api c x)) = pos x"
    "\<And>k x. pos (snd (call_close api k x)) = pos x" "\<And>i co x. pos (snd (client_Connect api i co x)) = pos x"
  shows "pos (ext (snd (run_state (New api cfg) w))) = pos (ext w)"
proof -
  note b = build_pos [of pos api, OF assms(4,3)]
  show ?thesis
  proof (cases "validate cfg True")
    case None
    show ?thesis
    proof (cases "transportCredentials api (withDefaults cfg) (ext w)")
      case (Inr ch)
      obtain creds h where ch: "ch = (creds, h)" by fastforce
      obtain r x where r: "grpc_NewClient api (grpcTarget (PeerEndpoint (withDefaults cfg))) (dialOptions (withDefaults cfg) creds) (ext w) = (r, x)"
        by fastforce
      from assms(1) [of "grpcTarget (PeerEndpoint (withDefaults cfg))" "dialOptions (withDefaults cfg) creds" "ext w"] have x: "pos x = pos (ext w)"
        unfolding r by simp
      show ?thesis
      proof (cases r)
        case (Inr conn)
        obtain q w2 where q: "run_state (build api (withDefaults cfg) conn h) (w\<lparr>ext := x, trace := trace w @ [EConnOpen conn]\<rparr>) = (q, w2)"
          by fastforce
        from b [of "withDefaults cfg" conn h "w\<lparr>ext := x, trace := trace w @ [EConnOpen conn]\<rparr>"] x have "pos (ext w2) = pos (ext w)" by (simp add: q)
        with assms(2) show ?thesis
          using None \<open>transportCredentials api (withDefaults cfg) (ext w) = _\<close> ch r [simplified] Inr q
          by (cases q) (auto simp: New_def Let_def run_log_line_effects split: prod.splits)
      qed (use None Inr ch r x in \<open>simp add: New_def Let_def\<close>)
    qed (use None in \<open>simp add: New_def Let_def\<close>)
  qed (simp add: New_def)
qed

lemma Close_keeps:
  assumes "\<And>g x. pos (snd (Gateway_Close api g x)) = pos x" "\<And>c x. pos (snd (Conn_Close api c x)) = pos x"
    "\<And>k x. pos (snd (call_close api k x)) = pos x"
  shows "pos (ext (snd (run_state (Close api fc) w))) = pos (ext w)"
proof -
  note ic = Identity_Close_pos [of pos api, OF assms(3)]
  show ?thesis
    using assms(1,2) ic [of "Some (fcId fc)"] by (auto simp: run_Close close_body_def split_beta split: option.splits)
qed

lemma New_trace: "\<exists>es. trace (snd (run_state (New api cfg) w)) = trace w @ es \<and> handled es = []"
proof -
  have "handled (map (\<lambda>(b, ll). ELog b ll) logs) = []" for logs by (induction logs) auto
  then show ?thesis by (cases rule: New_cases [of api cfg w]) auto
qed

lemma Close_trace_handled: "\<exists>es. trace (snd (run_state (Close api fc) w)) = trace w @ es \<and> handled es = []"
  by (auto simp: run_Close run_close_body split: option.splits)

text \<open>The program from the moment its listener starts, and before.\<close>

lemma events_main_cases:
  assumes "run_state (events_main api ev n getenv) w = ((out, x), w')"
  obtains (env) z where "w' = w" "x = Some z" "env_config getenv = Inl z"
  | (connect) cfg e where "run_state (New api cfg) w = (Inl e, w')" "x = Some (FatalConnect e)"
  | (checkpoint) cfg fc v e where "run_state (New api cfg) w = (Inr fc, v)" "x = Some (FatalCheckpoint e)" "w' = v\<lparr>ext := snd (File_New ev ''checkpoint.json'' (ext v))\<rparr>"
  | (listen) cfg fc v f res w3 where "run_state (New api cfg) w = (Inr fc, v)" "fst (File_New ev ''checkpoint.json'' (ext v)) = Inr f"
      "run_state (ListenChaincodeEvents api ev n (FabricClient_Contract fc) (CallerCtx 0 None) (Some (FileCheckpointer f))
         (Some print_event) [FromBlock 0]) (v\<lparr>ext := snd (File_New ev ''checkpoint.json'' (ext v))\<rparr>) = (res, w3)"
      "case res of
         None \<Rightarrow> x = None \<and> w' = w3
       | Some (Some e) \<Rightarrow> x = Some (FatalListener e) \<and> w' = w3
       | Some None \<Rightarrow> x = Some Exit \<and> w' = snd (run_state (Close api fc)
           (w3\<lparr>trace := trace w3 @ [ECheckpointerClose f], ext := snd (File_Close ev f (ext w3))\<rparr>))"
proof (cases "env_config getenv")
  case (Inl z)
  with assms show thesis by (intro that(1)) (simp_all add: events_main_def)
next
  case cfg: (Inr cfg)
  obtain r v where new: "run_state (New api cfg) w = (r, v)" by (cases "run_state (New api cfg) w")
  show thesis
  proof (cases r)
    case (Inl e)
    with assms cfg new show thesis by (intro that(2) [of cfg e]) (simp_all add: events_main_def)
  next
    case fc: (Inr fc)
    obtain r2 y where fl: "File_New ev ''checkpoint.json'' (ext v) = (r2, y)" by (cases "File_New ev ''checkpoint.json'' (ext v)")
    show thesis
    proof (cases r2)
      case (Inl e)
      with assms cfg new fc fl show thesis by (intro that(3) [of cfg fc v "configError e"]) (simp_all add: events_main_def NewFileCheckpointer_def)
    next
      case f: (Inr f)
      let ?L = "ListenChaincodeEvents api ev n (FabricClient_Contract fc) (CallerCtx 0 None) (Some (FileCheckpointer f)) (Some print_event) [FromBlock 0]"
      obtain res w3 where listen: "run_state ?L (v\<lparr>ext := y\<rparr>) = (res, w3)" by (cases "run_state ?L (v\<lparr>ext := y\<rparr>)")
      note eqs = events_main_def NewFileCheckpointer_def FabricClient_ListenChaincodeEvents_def checkpointer_close_def
        cfg new [unfolded fc] fl [unfolded f] listen
      show thesis
        by (rule that(4) [of cfg fc v f res w3])
          (use assms in \<open>simp_all add: eqs split_beta split: option.splits prod.splits\<close>)
    qed
  qed
qed

lemma events_main_run:
  assumes feed: "program_feed api ev f ledger pos cur" and pos: "pos (ext w) = Some k0"
    and run: "run_state (events_main api ev n getenv) w = ((out, x), w')" and ok: "\<forall>e. x \<noteq> Some (FatalListener e)"
  shows "\<exists>k\<ge>k0. handled (added w w') = map (\<lambda>i. convert (ledger i)) [k0..<k] \<and> pos (ext w') = Some k"
proof -
  note D = program_feedD [OF feed] and G = program_feed_gateways [OF feed]
  have none: ?thesis if "pos (ext w') = Some k0" "trace w' = trace w @ es" "handled es = []" for es
    using that by (intro exI [of _ k0]) simp
  have new: "pos (ext (snd (run_state (New api cfg) w))) = Some k0" for cfg using New_keeps [of pos api, OF D(5-7) G(1)] pos by simp
  from run show ?thesis
  proof (cases rule: events_main_cases)
    case (env z)
    with pos none [of "[]"] show ?thesis by simp
  next
    case (connect cfg e)
    with New_trace [of api cfg w] new [of cfg] none show ?thesis by auto
  next
    case (checkpoint cfg fc v e)
    moreover from New_trace [of api cfg w] obtain es where "trace v = trace w @ es" "handled es = []" by (auto simp: checkpoint(1))
    ultimately show ?thesis using none [of es] D(2) [of "''checkpoint.json''" "ext v"] new [of cfg] by simp
  next
    case (listen cfg fc v f' res w3)
    have f': "f' = f" using D(3) [OF listen(2)] .
    let ?w2 = "v\<lparr>ext := snd (File_New ev ''checkpoint.json'' (ext v))\<rparr>"
    have "pos (ext ?w2) = Some k0" using D(2) [of "''checkpoint.json''" "ext v"] new [of cfg] listen(1) by simp
    from listener_positions [OF D(1) this listen(3) [unfolded f']] obtain k es2 where k: "k0 \<le> k" "trace w3 = trace ?w2 @ es2"
      "handled es2 = map (\<lambda>i. convert (ledger i)) [k0..<k]"
      "pos (ext w3) = Some k \<or> k0 < k \<and> pos (ext w3) = Some (k - 1) \<and> (\<exists>e. res = Some (Some e))" by blast
    from listen(4) ok have res: "\<forall>e. res \<noteq> Some (Some e)" by auto
    with k(4) have pos3: "pos (ext w3) = Some k" by blast
    have rest: "\<exists>es. trace w' = trace w3 @ es \<and> handled es = [] \<and> pos (ext w') = Some k"
    proof (cases res)
      case None
      with listen(4) pos3 show ?thesis by simp
    next
      case (Some r)
      with res have "r = None" by (cases r) simp_all
      let ?w4 = "w3\<lparr>trace := trace w3 @ [ECheckpointerClose f], ext := snd (File_Close ev f (ext w3))\<rparr>"
      from listen(4) Some \<open>r = None\<close> f' have w': "w' = snd (run_state (Close api fc) ?w4)" by simp
      from Close_trace_handled [of api fc ?w4] obtain es where "trace w' = trace ?w4 @ es" "handled es = []" unfolding w' by blast
      moreover have "pos (ext w') = Some k" using Close_keeps [of pos api fc ?w4, OF G(2) D(6,7)] D(4) pos3 by (simp add: w')
      ultimately show ?thesis by (intro exI [of _ "ECheckpointerClose f # es"]) simp
    qed
    from New_trace [of api cfg w] obtain es1 where es1: "trace v = trace w @ es1" "handled es1 = []" by (auto simp: listen(1))
    from rest obtain es where es: "trace w' = trace w3 @ es" "handled es = []" "pos (ext w') = Some k" by blast
    have "added w w' = es1 @ es2 @ es" using es1(1) k(2) es(1) by simp
    with k(1,3) es es1(2) show ?thesis by (intro exI [of _ k]) simp
  qed
qed


lemma demo_program_feed: "program_feed demo_api demo_eapi 0 demo_ledger dPos (\<lambda>u. dCur)"
proof -
  have "event_feed demo_api demo_eapi (FileCheckpointer 0) print_event demo_ledger dPos (\<lambda>u. dCur)"
    by (auto simp: event_feed_def keeps_def print_event_def demo_api_def calm_api_over_def demo_eapi_def demo_ledger_def demo_open_def demo_recv_def
        split: option.splits if_splits)
  then show ?thesis by (auto simp: program_feed_def demo_api_def calm_api_over_def demo_eapi_def)
qed

text \<open>
  In the demonstration feed the listener has not returned after two steps, a connection and at
  most one event.
\<close>

lemma demo_two_steps:
  assumes "\<not> closed w (fcAddr fc)"
  shows "fst (run_state (ListenChaincodeEvents demo_api demo_eapi 2 (FabricClient_Contract fc) ctx (Some (FileCheckpointer 0))
     (Some print_event) [FromBlock 0]) w) = None"
proof -
  have gw: "run_state (gateway demo_api (FabricClient_Contract fc)) w = (Inr (fcGw fc, NoRelease), w)"
    using assms(1) by (simp add: gateway_def FabricClient_Contract_def)
  show ?thesis
    by (auto simp: ListenChaincodeEvents_def run_iterate_numeral event_step_def Let_def ChaincodeEvents_def gw demo_simps demo_open_def
        run_stream_recv demo_recv_def print_event_def run_simps returned_def demo_eapi_def EventStream_Err_def split: option.splits if_splits)
qed

lemma demo_running:
  assumes "run_state (events_main demo_api demo_eapi 2 getenv) w = ((out, x), w')"
  shows "x \<noteq> Some (FatalListener e)"
  using assms
proof (cases rule: events_main_cases)
  case (env z)
  then show ?thesis by (cases rule: env_config_cases [of getenv]) auto
next
  case (listen cfg fc v f res w3)
  have "\<not> closed v (fcAddr fc)"
    using listen(1) by (cases rule: New_cases [of demo_api cfg w]) (auto simp: built_def)
  moreover have "f = 0" "snd (File_New demo_eapi ''checkpoint.json'' (ext v)) = ext v" using listen(2) by (simp_all add: demo_eapi_def)
  ultimately have "res = None" using demo_two_steps [of v fc "CallerCtx 0 None"] listen(3) by simp
  with listen(4) show ?thesis by simp
qed simp_all


end
