(* ===== verification/Resubmission.thy ===== *)
theory Resubmission
  imports Contract_Calls
begin

text \<open>
  What the classification of errors is for: an application may send a request again when it is
  told that this is safe. The theory relates the results of \<open>Submit\<close> (\<open>src/contract.go\<close>,
  \<open>src/errors.go\<close>) to the transactions that count on the ledger, under what the Gateway client and
  Fabric document about ordering, and shows that following \<open>IsRetryable\<close> commits a request at most
  once, however often it is sent, and that \<open>TxStatus\<close> settles an outcome that is left open.
\<close>

section \<open>The orderer and the peers\<close>

text \<open>
  What the Gateway client and Fabric document about the transactions of an application. \<open>fate\<close>
  is the set of the IDs of those that are ordered and valid, or will be. Only sending a
  transaction to the orderer adds its ID, also when the answer is lost, but not when the orderer
  or the Gateway definitely rejects it. A new proposal has an ID of its own, which its
  transaction and its commit carry; a commit status that arrives tells whether the transaction is
  valid.
\<close>

definition keeps_fate :: "('w \<Rightarrow> string set) \<Rightarrow> ('w \<Rightarrow> 'a \<times> 'w) \<Rightarrow> bool" where
  "keeps_fate fate f = (\<forall>x. fate (snd (f x)) = fate x)"

definition orders_once :: "'w api \<Rightarrow> (nat \<Rightarrow> string) \<Rightarrow> (nat \<Rightarrow> string) \<Rightarrow> ('w \<Rightarrow> string set) \<Rightarrow> bool" where
  "orders_once api txOf commitOf fate =
     (keeps_fate fate (time_Now api) \<and> (\<forall>i os. keeps_fate fate (client_Connect api i os)) \<and>
      (\<forall>g. keeps_fate fate (Gateway_Close api g)) \<and> (\<forall>c fn os. keeps_fate fate (NewProposal api c fn os)) \<and>
      (\<forall>p cx. keeps_fate fate (Proposal_Endorse api p cx)) \<and> (\<forall>m cx. keeps_fate fate (Commit_Status api m cx)) \<and>
      (\<forall>t cx x. fate (snd (Transaction_Submit api t cx x)) \<in> {fate x, insert (txOf t) (fate x)}) \<and>
      (\<forall>t cx x e. fst (Transaction_Submit api t cx x) = Inl e \<and> rejected_before_ordering (stCode (status_of (apiLib api) e)) \<longrightarrow>
         fate (snd (Transaction_Submit api t cx x)) = fate x) \<and>
      (\<forall>c fn os x p. fst (NewProposal api c fn os x) = Inr p \<longrightarrow> Proposal_TransactionID api p \<notin> fate x) \<and>
      (\<forall>p cx x t. fst (Proposal_Endorse api p cx x) = Inr t \<longrightarrow> txOf t = Proposal_TransactionID api p) \<and>
      (\<forall>t cx x m. fst (Transaction_Submit api t cx x) = Inr m \<longrightarrow> commitOf m = txOf t) \<and>
      (\<forall>m cx x st. fst (Commit_Status api m cx x) = Inr st \<longrightarrow> (csSuccessful st \<longleftrightarrow> commitOf m \<in> fate x)))"

text \<open>The calls that leave the set as it is, as rewrite rules.\<close>

lemma orders_once_quiet:
  assumes "orders_once api txOf commitOf fate"
  shows "fate (snd (time_Now api x)) = fate x" "fate (snd (client_Connect api i os x)) = fate x" "fate (snd (Gateway_Close api g x)) = fate x"
    "fate (snd (NewProposal api c fn po x)) = fate x" "fate (snd (Proposal_Endorse api p cx x)) = fate x" "fate (snd (Commit_Status api m cx x)) = fate x"
    "fate (phase_ext api ctx d x) = fate x" "fate (release_ext api r x) = fate x"
  using assms by (auto simp: orders_once_def keeps_fate_def phase_ext_def release_ext_def split: release.split)

text \<open>What the other calls tell.\<close>

lemma orders_onceD:
  assumes "orders_once api txOf commitOf fate"
  shows "fate (snd (Transaction_Submit api t cx x)) \<in> {fate x, insert (txOf t) (fate x)}"
    "fst (Transaction_Submit api t cx x) = Inl e \<Longrightarrow> rejected_before_ordering (stCode (status_of (apiLib api) e)) \<Longrightarrow>
       fate (snd (Transaction_Submit api t cx x)) = fate x"
    "fst (NewProposal api c fn po x) = Inr p \<Longrightarrow> Proposal_TransactionID api p \<notin> fate x"
    "fst (Proposal_Endorse api p cx x) = Inr t \<Longrightarrow> txOf t = Proposal_TransactionID api p"
    "fst (Transaction_Submit api t cx x) = Inr m \<Longrightarrow> commitOf m = txOf t"
    "fst (Commit_Status api m cx x) = Inr st \<Longrightarrow> csSuccessful st \<longleftrightarrow> commitOf m \<in> fate x"
  using assms by (simp_all add: orders_once_def)

section \<open>One submission\<close>

lemma gateway_fate:
  "orders_once api txOf commitOf fate \<Longrightarrow> fate (ext (snd (run_state (gateway api c) w))) = fate (ext w)"
  by (auto simp: gateway_def connect_def orders_once_quiet split: option.split sum.split)

lemma endorse_phase_fate:
  assumes "orders_once api txOf commitOf fate"
  shows "fate (ext (snd (run_state (endorse_phase api c ctx fn p) w))) = fate (ext w)"
    "fst (run_state (endorse_phase api c ctx fn p) w) = Inr t \<Longrightarrow> txOf t = Proposal_TransactionID api p"
  using orders_onceD(4) [OF assms]
  by (auto simp: endorse_phase_def Let_def run_simps run_now orders_once_quiet [OF assms] split: sum.splits)

text \<open>What the result of a submission tells of the transactions that count.\<close>

definition accounts_for :: "err + 'a \<Rightarrow> string \<Rightarrow> string set \<Rightarrow> string set \<Rightarrow> bool" where
  "accounts_for res t before after =
     (case res of
        Inl e \<Rightarrow> if IsOutcomeUnknown (Some e) then TxIDOf (Some e) = t \<and> after \<in> {before, insert t before} else after = before
      | Inr _ \<Rightarrow> after \<in> {before, insert t before})"

lemma submit_phase_fate:
  assumes op: "gateway_errors_opaque api" and ord: "orders_once api txOf commitOf fate"
  shows "accounts_for (fst (run_state (submit_phase api c ctx fn (txOf t) t) w)) (txOf t) (fate (ext w))
      (fate (ext (snd (run_state (submit_phase api c ctx fn (txOf t) t) w))))"
    "fst (run_state (submit_phase api c ctx fn (txOf t) t) w) = Inr m \<Longrightarrow> commitOf m = txOf t"
proof -
  let ?y = "snd (time_Now api (ext w))" and ?d = "SubmitTimeout (ctCfg c)"
  let ?call = "Transaction_Submit api t (phase_ctx api ctx ?d ?y) (phase_ext api ctx ?d ?y)"
  note run = submit_phase_def run_simps run_now Let_def orders_once_quiet [OF ord]
  show "accounts_for (fst (run_state (submit_phase api c ctx fn (txOf t) t) w)) (txOf t) (fate (ext w))
      (fate (ext (snd (run_state (submit_phase api c ctx fn (txOf t) t) w))))"
  proof (cases "fst ?call")
    case (Inl e)
    with gateway_errors_opaqueD(3) [OF op] have "opaque e" by blast
    with Inl orders_onceD(1) [OF ord, of t "phase_ctx api ctx ?d ?y" "phase_ext api ctx ?d ?y"] orders_onceD(2) [OF ord Inl] show ?thesis
      by (auto simp: run accounts_for_def classifyErr_opaque classified_outcome)
  next
    case (Inr m)
    with orders_onceD(1) [OF ord, of t "phase_ctx api ctx ?d ?y" "phase_ext api ctx ?d ?y"] show ?thesis
      by (simp add: run accounts_for_def)
  qed
  show "fst (run_state (submit_phase api c ctx fn (txOf t) t) w) = Inr m \<Longrightarrow> commitOf m = txOf t"
    using orders_onceD(5) [OF ord, of t "phase_ctx api ctx ?d ?y" "phase_ext api ctx ?d ?y"] by (auto simp: run split: sum.splits)
qed

lemma endorse_phase_error:
  assumes "gateway_errors_opaque api" and "fst (run_state (endorse_phase api c ctx fn p) w) = Inl e"
  shows "\<not> IsOutcomeUnknown (Some e)"
  using assms(2) gateway_errors_opaqueD(2) [OF assms(1)]
  by (auto simp: endorse_phase_def Let_def run_simps run_now classifyErr_opaque classified_outcome split: sum.splits)

text \<open>Before the submit phase nothing counts, and the failure is not an open one.\<close>

lemma SubmitAsync_fate:
  assumes op: "gateway_errors_opaque api" and ord: "orders_once api txOf commitOf fate"
    and run: "run_state (SubmitAsync api c ctx fn opts) w = (res, w')"
  obtains (early) e where "res = Inl e" "\<not> IsOutcomeUnknown (Some e)" "fate (ext w') = fate (ext w)"
  | (sent) t where "t \<notin> fate (ext w)" "accounts_for res t (fate (ext w)) (fate (ext w'))"
      "\<And>pend. res = Inr pend \<Longrightarrow> pTxID pend = t \<and> commitOf (pCommit pend) = t"
proof -
  note quiet = orders_once_quiet [OF ord]
  obtain g w1 where g: "run_state (gateway api c) w = (g, w1)" by fastforce
  have w1: "fate (ext w1) = fate (ext w)" using gateway_fate [OF ord, of c w] g by simp
  show thesis
  proof (cases g)
    case (Inl e)
    have "\<not> IsOutcomeUnknown (Some e)"
      using g Inl by (cases rule: gateway_cases [of api c w]) (auto simp: config_failureD)
    moreover have "res = Inl e" "w' = w1" using run g Inl by (simp_all add: SubmitAsync_def)
    ultimately show thesis using w1 by (intro early [of e]) simp_all
  next
    case (Inr gr)
    obtain gw rel where gr: "gr = (gw, rel)" by fastforce
    let ?call = "NewProposal api (target c gw) fn (proposalOptions opts) (ext w1)"
    let ?w2 = "w1\<lparr>trace := trace w1 @ [EProposal (target c gw) fn (proposalOptions opts)], ext := snd ?call\<rparr>"
    note step = SubmitAsync_def g Inr gr run_simps quiet
    show thesis
    proof (cases "fst ?call")
      case (Inl e)
      with run have "res = Inl (configError e)" "fate (ext w') = fate (ext w1)" by (auto simp: step)
      with w1 show thesis by (intro early [of "configError e"]) simp_all
    next
      case proposed: (Inr p)
      have p: "Proposal_TransactionID api p \<notin> fate (ext w)" using orders_onceD(3) [OF ord proposed] w1 by simp
      obtain te w3 where te: "run_state (endorse_phase api c ctx fn p) ?w2 = (te, w3)" by fastforce
      have w3: "fate (ext w3) = fate (ext w)" using endorse_phase_fate(1) [OF ord, of c ctx fn p ?w2] te w1 by (simp add: quiet)
      show thesis
      proof (cases te)
        case (Inl e)
        then have "\<not> IsOutcomeUnknown (Some e)" using endorse_phase_error [OF op, of c ctx fn p ?w2] te by simp
        moreover have "res = Inl e" "fate (ext w') = fate (ext w3)" using run Inl by (auto simp: step proposed te)
        ultimately show thesis using w3 by (intro early [of e]) simp_all
      next
        case (Inr tx)
        have tx: "txOf tx = Proposal_TransactionID api p" using endorse_phase_fate(2) [OF ord, of c ctx fn p ?w2 tx] te Inr by simp
        obtain m w4 where m: "run_state (submit_phase api c ctx fn (Proposal_TransactionID api p) tx) w3 = (m, w4)" by fastforce
        from submit_phase_fate [OF op ord, of c ctx fn tx w3] m w3 have
          acc: "accounts_for m (txOf tx) (fate (ext w)) (fate (ext w4))" and cm: "\<And>k. m = Inr k \<Longrightarrow> commitOf k = txOf tx" by (simp_all add: tx)
        have same: "fate (ext w') = fate (ext w4)" and res: "case m of Inl e \<Rightarrow> res = Inl e
            | Inr k \<Rightarrow> (\<exists>pend. res = Inr pend \<and> pTxID pend = txOf tx \<and> pCommit pend = k)"
          using run by (cases m; auto simp: step proposed te Inr m tx)+
        have "accounts_for res (txOf tx) (fate (ext w)) (fate (ext w'))"
          using acc res unfolding same by (cases m) (auto simp: accounts_for_def)
        moreover have "pTxID pend = txOf tx \<and> commitOf (pCommit pend) = txOf tx" if "res = Inr pend" for pend
          using that res cm by (cases m) auto
        ultimately show thesis using p by (intro sent [of "txOf tx"]) (simp_all add: tx)
      qed
    qed
  qed
qed

text \<open>Waiting changes nothing, and its result tells whether the transaction counts.\<close>

lemma Wait_fate:
  assumes op: "gateway_errors_opaque api" and ord: "orders_once api txOf commitOf fate"
    and t: "pTxID p = t" "commitOf (pCommit p) = t" and run: "run_state (Wait api p ctx) w = (res, w')"
  shows "fate (ext w') = fate (ext w)"
    "case res of Inl e \<Rightarrow> if IsOutcomeUnknown (Some e) then TxIDOf (Some e) = t else t \<notin> fate (ext w)
       | Inr r \<Rightarrow> trTxID r = t \<and> t \<in> fate (ext w)"
proof -
  note quiet = orders_once_quiet [OF ord]
  let ?y = "snd (time_Now api (ext w))" and ?d = "CommitStatusTimeout (ctCfg (pContract p))"
  let ?call = "Commit_Status api (pCommit p) (phase_ctx api ctx ?d ?y) (phase_ext api ctx ?d ?y)"
  note step = Wait_def wait_body_def run_simps run_now quiet
  show "fate (ext w') = fate (ext w)"
    using run by (cases "fst ?call") (auto simp: step split: if_splits)
  show "case res of Inl e \<Rightarrow> if IsOutcomeUnknown (Some e) then TxIDOf (Some e) = t else t \<notin> fate (ext w)
      | Inr r \<Rightarrow> trTxID r = t \<and> t \<in> fate (ext w)"
  proof (cases "fst ?call")
    case (Inl e)
    with gateway_errors_opaqueD(4) [OF op] have "opaque e" by blast
    with run Inl t show ?thesis by (auto simp: step classifyErr_opaque classified_outcome)
  next
    case (Inr st)
    from orders_onceD(6) [OF ord Inr] t have "csSuccessful st \<longleftrightarrow> t \<in> fate (ext w)" by (simp add: quiet)
    with run Inr t show ?thesis by (auto simp: step commitFailure_facts split: if_splits)
  qed
qed

text \<open>
  One submission: success means that its transaction counts now and did not before; a failure whose
  outcome is not open means that nothing was added.
\<close>

lemma SubmitWith_fate:
  assumes op: "gateway_errors_opaque api" and ord: "orders_once api txOf commitOf fate"
    and run: "run_state (SubmitWith api c ctx fn opts) w = (res, w')"
  shows "case res of
      Inr r \<Rightarrow> trTxID r \<notin> fate (ext w) \<and> fate (ext w') = insert (trTxID r) (fate (ext w))
    | Inl e \<Rightarrow> if IsOutcomeUnknown (Some e)
               then TxIDOf (Some e) \<notin> fate (ext w) \<and> fate (ext w') \<in> {fate (ext w), insert (TxIDOf (Some e)) (fate (ext w))}
               else fate (ext w') = fate (ext w)"
proof -
  obtain r w1 where r: "run_state (SubmitAsync api c ctx fn opts) w = (r, w1)" by fastforce
  from op ord r show ?thesis
  proof (cases rule: SubmitAsync_fate)
    case (early e)
    with run r show ?thesis by (auto simp: SubmitWith_def)
  next
    case (sent t)
    show ?thesis
    proof (cases r)
      case (Inl e)
      with run r sent(1,2) show ?thesis by (auto simp: SubmitWith_def accounts_for_def split: if_splits)
    next
      case (Inr p)
      with sent(3) have p: "pTxID p = t" "commitOf (pCommit p) = t" by blast+
      have "run_state (Wait api p ctx) w1 = (res, w')" using run r Inr by (simp add: SubmitWith_def)
      note wait = Wait_fate [OF op ord p this]
      from sent(1,2) wait Inr show ?thesis by (cases res) (auto simp: accounts_for_def split: if_splits)
    qed
  qed
qed

section \<open>Sending a request again\<close>

text \<open>
  The use that \<open>README.md\<close> describes for \<open>IsRetryable\<close>: send the same request again while it says so,
  at most \<open>n\<close> more times. Waiting between attempts is left out, since it makes no call.
\<close>

fun resubmit :: "'w api \<Rightarrow> nat \<Rightarrow> Contract \<Rightarrow> Ctx option \<Rightarrow> string \<Rightarrow> CallOption list \<Rightarrow> ('w, err + TxResult) op" where
  "resubmit api 0 c ctx fn opts = SubmitWith api c ctx fn opts"
| "resubmit api (Suc n) c ctx fn opts =
     do { r \<leftarrow> SubmitWith api c ctx fn opts;
          case r of
            Inl e \<Rightarrow> if IsRetryable (Some e) then resubmit api n c ctx fn opts else State_Monad.return r
          | Inr _ \<Rightarrow> State_Monad.return r }"

lemma retryable_closed: "IsRetryable (Some e) \<Longrightarrow> \<not> IsOutcomeUnknown (Some e)"
  by (auto simp: IsRetryable_def IsOutcomeUnknown_def Retryable_def split: option.splits if_splits)

lemma resubmit_fate:
  assumes "gateway_errors_opaque api" and "orders_once api txOf commitOf fate"
    and "run_state (resubmit api n c ctx fn opts) w = (res, w')"
  shows "case res of
      Inr r \<Rightarrow> trTxID r \<notin> fate (ext w) \<and> fate (ext w') = insert (trTxID r) (fate (ext w))
    | Inl e \<Rightarrow> if IsOutcomeUnknown (Some e)
               then TxIDOf (Some e) \<notin> fate (ext w) \<and> fate (ext w') \<in> {fate (ext w), insert (TxIDOf (Some e)) (fate (ext w))}
               else fate (ext w') = fate (ext w)"
  using assms(3)
proof (induction n arbitrary: w)
  case 0
  with SubmitWith_fate [OF assms(1,2)] show ?case by simp
next
  case (Suc n)
  obtain r w1 where r: "run_state (SubmitWith api c ctx fn opts) w = (r, w1)" by fastforce
  note once = SubmitWith_fate [OF assms(1,2) r]
  show ?case
  proof (cases "\<exists>e. r = Inl e \<and> IsRetryable (Some e)")
    case True
    then obtain e where e: "r = Inl e" "IsRetryable (Some e)" by blast
    with once have same: "fate (ext w1) = fate (ext w)" by (simp add: retryable_closed)
    have "run_state (resubmit api n c ctx fn opts) w1 = (res, w')" using Suc.prems r e by simp
    from Suc.IH [OF this] show ?thesis unfolding same .
  next
    case False
    with Suc.prems r have stop: "res = r" "w' = w1" by (auto split: sum.splits if_splits)
    from once show ?thesis unfolding stop .
  qed
qed

text \<open>
  C3: retrying is safe. An application that sends the same request again whenever \<open>IsRetryable\<close>
  says so, any number of times, never gets it onto the ledger twice: if a result is returned, exactly the
  transaction it names was added to those that count; if an error with an open outcome is
  returned, at most the transaction it names was added; with any other error none was.
\<close>

theorem resubmit_commits_once:
  assumes "gateway_errors_opaque api" and "orders_once api txOf commitOf fate"
    and "run_state (resubmit api n c ctx fn opts) w = (res, w')"
  shows "case res of
      Inr r \<Rightarrow> trTxID r \<notin> fate (ext w) \<and> fate (ext w') = insert (trTxID r) (fate (ext w))
    | Inl e \<Rightarrow> if IsOutcomeUnknown (Some e)
               then TxIDOf (Some e) \<notin> fate (ext w) \<and> fate (ext w') \<in> {fate (ext w), insert (TxIDOf (Some e)) (fate (ext w))}
               else fate (ext w') = fate (ext w)"
  using resubmit_fate [OF assms] .

section \<open>Resolving an open outcome\<close>

text \<open>
  What Fabric documents about looking a transaction up: the proposal asks for one ID, and the record
  a peer returns for it carries the code VALID exactly if the transaction counts.
\<close>

definition looks_up :: "'w api \<Rightarrow> (nat \<Rightarrow> string option) \<Rightarrow> ('w \<Rightarrow> string set) \<Rightarrow> bool" where
  "looks_up api asked fate =
     ((\<forall>p cx. keeps_fate fate (Proposal_Evaluate api p cx)) \<and>
      (\<forall>c ch t x p. crChaincode c = ''qscc'' \<and> fst (NewProposal api c ''GetTransactionByID'' [WithArguments [ch, t]] x) = Inr p \<longrightarrow>
         asked p = Some t) \<and>
      (\<forall>p cx x t raw vc. asked p = Some t \<and> fst (Proposal_Evaluate api p cx x) = Inr raw \<and>
         Unmarshal_ProcessedTransaction api raw = Inr vc \<longrightarrow> (vc = TxValidationCode_VALID \<longleftrightarrow> t \<in> fate x)))"

lemma looks_upD:
  assumes "looks_up api asked fate"
  shows "fate (snd (Proposal_Evaluate api p cx x)) = fate x"
    "crChaincode c = ''qscc'' \<Longrightarrow> fst (NewProposal api c ''GetTransactionByID'' [WithArguments [ch, t]] x) = Inr p \<Longrightarrow> asked p = Some t"
    "asked p = Some t \<Longrightarrow> fst (Proposal_Evaluate api p cx x) = Inr raw \<Longrightarrow> Unmarshal_ProcessedTransaction api raw = Inr vc \<Longrightarrow>
       vc = TxValidationCode_VALID \<longleftrightarrow> t \<in> fate x"
  using assms by (simp_all add: looks_up_def keeps_fate_def)

lemma qscc_fate:
  assumes ord: "orders_once api txOf commitOf fate" and look: "looks_up api asked fate"
  shows "fate (ext (snd (run_state (qscc api c ctx ''GetTransactionByID'' [ctChannel c, t]) w))) = fate (ext w)"
    "fst (run_state (qscc api c ctx ''GetTransactionByID'' [ctChannel c, t]) w) = Inr raw \<Longrightarrow>
       Unmarshal_ProcessedTransaction api raw = Inr vc \<Longrightarrow> vc = TxValidationCode_VALID \<longleftrightarrow> t \<in> fate (ext w)"
proof -
  let ?run = "run_state (qscc api c ctx ''GetTransactionByID'' [ctChannel c, t]) w"
  note quiet = orders_once_quiet [OF ord] looks_upD(1) [OF look]
  obtain g w1 where g: "run_state (gateway api c) w = (g, w1)" by fastforce
  have w1: "fate (ext w1) = fate (ext w)" using gateway_fate [OF ord, of c w] g by simp
  have "fate (ext (snd ?run)) = fate (ext w) \<and> (\<forall>raw vc. fst ?run = Inr raw \<and> Unmarshal_ProcessedTransaction api raw = Inr vc \<longrightarrow>
    (vc = TxValidationCode_VALID \<longleftrightarrow> t \<in> fate (ext w)))"
  proof (cases g)
    case (Inl e)
    with g w1 show ?thesis by (simp add: qscc_def)
  next
    case (Inr gr)
    obtain gw rel where gr: "gr = (gw, rel)" by fastforce
    let ?ref = "\<lparr>crGateway = gw, crChannel = ctChannel c, crChaincode = ''qscc'', crName = None\<rparr>"
    let ?new = "NewProposal api ?ref ''GetTransactionByID'' [WithArguments [ctChannel c, t]] (ext w1)"
    let ?y = "phase_ext api ctx (EvaluateTimeout (ctCfg c)) (snd ?new)"
    let ?cx = "phase_ctx api ctx (EvaluateTimeout (ctCfg c)) (snd ?new)"
    note step = qscc_def g Inr gr Let_def run_simps quiet
    show ?thesis
    proof (cases "fst ?new")
      case (Inl e)
      with w1 show ?thesis by (simp add: step)
    next
      case (Inr p)
      with w1 have r: "fst ?run = fst (Proposal_Evaluate api p ?cx ?y)" "fate (ext (snd ?run)) = fate (ext w)" by (simp_all add: step)
      have "asked p = Some t" using looks_upD(2) [OF look _ Inr] by simp
      from looks_upD(3) [OF look this, of ?cx ?y] r w1 show ?thesis by (simp add: quiet)
    qed
  qed
  then show "fate (ext (snd ?run)) = fate (ext w)"
    "fst ?run = Inr raw \<Longrightarrow> Unmarshal_ProcessedTransaction api raw = Inr vc \<Longrightarrow> vc = TxValidationCode_VALID \<longleftrightarrow> t \<in> fate (ext w)" by blast+
qed

lemma TxStatus_fate:
  assumes ord: "orders_once api txOf commitOf fate" and look: "looks_up api asked fate"
    and run: "run_state (Contract_TxStatus api c ctx t) w = (res, w')"
  shows "fate (ext w') = fate (ext w) \<and> (\<forall>ts. res = Inr ts \<and> tsFound ts \<longrightarrow> (tsValid ts \<longleftrightarrow> t \<in> fate (ext w)))"
proof -
  obtain r w1 where r: "run_state (qscc api c ctx ''GetTransactionByID'' [ctChannel c, t]) (w\<lparr>ext := snd (time_Now api (ext w))\<rparr>) = (r, w1)" by fastforce
  have "res = tx_status_of api t r" "fate (ext w') = fate (ext w1)" using run r by (auto simp: run_TxStatus orders_once_quiet [OF ord])
  moreover have "fate (ext w1) = fate (ext w)"
    using qscc_fate(1) [OF ord look, of c ctx t "w\<lparr>ext := snd (time_Now api (ext w))\<rparr>"] r by (simp add: orders_once_quiet [OF ord])
  moreover have "vc = TxValidationCode_VALID \<longleftrightarrow> t \<in> fate (ext w)" if "r = Inr raw" "Unmarshal_ProcessedTransaction api raw = Inr vc" for raw vc
    using qscc_fate(2) [OF ord look, of c ctx t "w\<lparr>ext := snd (time_Now api (ext w))\<rparr>" raw vc] r that by (simp add: orders_once_quiet [OF ord])
  ultimately show ?thesis by (auto simp: tx_status_of_def split: sum.splits if_splits)
qed

text \<open>
  C14: an open outcome can be resolved. If sending a request, however often, ends with an open
  outcome, then asking \<open>TxStatus\<close> for the ID in the error settles it once the peer has a record:
  reported as valid, exactly that transaction was added to those that count; reported as not
  valid, none was, and sending the request once more cannot commit it twice.
\<close>

theorem open_outcome_resolved:
  assumes "gateway_errors_opaque api" and "orders_once api txOf commitOf fate" and "looks_up api asked fate"
    and "run_state (resubmit api n c ctx fn opts) w = (Inl e, w1)" and "IsOutcomeUnknown (Some e)"
    and "run_state (Contract_TxStatus api c' ctx' (TxIDOf (Some e))) w1 = (Inr ts, w2)" and "tsFound ts"
  shows "TxIDOf (Some e) \<notin> fate (ext w) \<and>
    fate (ext w2) = (if tsValid ts then insert (TxIDOf (Some e)) (fate (ext w)) else fate (ext w))"
proof -
  have "TxIDOf (Some e) \<notin> fate (ext w) \<and> fate (ext w1) \<in> {fate (ext w), insert (TxIDOf (Some e)) (fate (ext w))}"
    using resubmit_fate [OF assms(1,2,4)] assms(5) by simp
  with TxStatus_fate [OF assms(2,3,6)] assms(7) show ?thesis by auto
qed

text \<open>
  C15: a crash cannot lose track of a transaction. If \<open>SubmitAsync\<close> returned a pending transaction and
  its ID was stored, then whoever asks \<open>TxStatus\<close> for that ID later, also another process after a
  crash, learns once the peer has a record whether exactly this transaction was added, and the
  answer agrees with what \<open>Wait\<close> reports of the pending transaction, whenever it reports a definite result.
\<close>

theorem stored_id_settles:
  assumes "gateway_errors_opaque api" and "orders_once api txOf commitOf fate" and "looks_up api asked fate"
    and "run_state (SubmitAsync api c ctx fn opts) w = (Inr pend, w1)"
    and "pTxID pend \<in> fate (ext w2) \<longleftrightarrow> pTxID pend \<in> fate (ext w1)"
    and "run_state (Contract_TxStatus api c' ctx' (pTxID pend)) w2 = (Inr ts, w3)" and "tsFound ts"
  shows "pTxID pend \<notin> fate (ext w) \<and> fate (ext w1) = (if tsValid ts then insert (pTxID pend) (fate (ext w)) else fate (ext w)) \<and>
    (\<forall>ctx'' res w4. run_state (Wait api pend ctx'') w1 = (res, w4) \<longrightarrow>
       (case res of Inr r \<Rightarrow> trTxID r = pTxID pend \<and> tsValid ts | Inl e \<Rightarrow> IsOutcomeUnknown (Some e) \<or> \<not> tsValid ts))"
  using assms(1,2,4)
proof (cases rule: SubmitAsync_fate)
  case (sent t)
  then have t: "pTxID pend = t" "commitOf (pCommit pend) = t" by simp_all
  have "fate (ext w1) \<in> {fate (ext w), insert t (fate (ext w))}" using sent(2) by (simp add: accounts_for_def)
  moreover have valid: "tsValid ts \<longleftrightarrow> t \<in> fate (ext w1)" using TxStatus_fate [OF assms(2,3,6)] assms(5,7) t(1) by simp
  moreover have "case res of Inr r \<Rightarrow> trTxID r = t \<and> tsValid ts | Inl e \<Rightarrow> IsOutcomeUnknown (Some e) \<or> \<not> tsValid ts"
    if "run_state (Wait api pend ctx'') w1 = (res, w4)" for ctx'' res w4
    using Wait_fate(2) [OF assms(1,2) t that] valid by (cases res) (auto split: if_splits)
  ultimately show ?thesis unfolding t(1) using sent(1) by (intro conjI allI impI) (auto split: if_splits)
qed simp

section \<open>Concrete runs\<close>

text \<open>
  A Gateway whose first transaction loses a read conflict and that may lose the answer to the commit
  status. A transaction \<open>k\<close> has \<open>k\<close> letters as its ID; a proposal that looks one up has an odd number
  and an ID of its own.
\<close>

definition ledger_api :: "bool \<Rightarrow> (nat \<times> nat list) api" where
  "ledger_api lossy = (calm_api_over (\<lambda>x. (0, x)))\<lparr>
     NewProposal := (\<lambda>c fn opts (n, vs).
       (case opts of
          [WithArguments [ch, t]] \<Rightarrow> if t = replicate (length t) CHR ''x'' then Inr (Suc (2 * length t)) else Inl (ErrorString ''malformed'')
        | _ \<Rightarrow> Inr (2 * Suc (n + sum_list vs)), (Suc n, vs))),
     Proposal_TransactionID := (\<lambda>p. if even p then replicate p CHR ''x'' else ''y''),
     Transaction_Submit := (\<lambda>t ctx (n, vs). (Inr t, (n, if t = 2 \<or> odd t then vs else t # vs))),
     Commit_Status := (\<lambda>m ctx (n, vs).
       (if lossy then Inl (gateway_error codes_Unavailable ''peer down'' [])
        else Inr (if even m \<and> m \<in> set vs then \<lparr>csCode = 0, csSuccessful = True, csBlockNumber = 42\<rparr>
                  else \<lparr>csCode = 11, csSuccessful = False, csBlockNumber = 42\<rparr>), (n, vs))),
     Proposal_Evaluate := (\<lambda>p ctx (n, vs). (Inr (if p div 2 \<in> set vs then ''V'' else ''I''), (n, vs))),
     Unmarshal_ProcessedTransaction := (\<lambda>b. Inr (if b = ''V'' then 0 else 11))\<rparr>"

definition ledger_id :: "nat \<Rightarrow> string" where
  "ledger_id t = (if even t then replicate t CHR ''x'' else ''y'')"

definition ledger_asked :: "nat \<Rightarrow> string option" where
  "ledger_asked p = (if even p then None else Some (replicate (p div 2) CHR ''x''))"

definition ledger_fate :: "nat \<times> nat list \<Rightarrow> string set" where
  "ledger_fate x = (\<lambda>k. replicate k CHR ''x'') ` set (snd x)"

definition ledger_world :: "(nat \<times> nat list) world" where
  "ledger_world = \<lparr>ext = (0, []), trace = [], fresh = 0, closed = (\<lambda>_. False), once = (\<lambda>_. False), idClose = (\<lambda>_. None),
     stopped = (\<lambda>_. False), streamErr = (\<lambda>_. None)\<rparr>"

lemma fresh_number: "2 * Suc (n + sum_list vs) \<notin> set (vs :: nat list)"
proof
  assume "2 * Suc (n + sum_list vs) \<in> set vs"
  then have "2 * Suc (n + sum_list vs) \<le> sum_list vs" by (rule member_le_sum_list) simp
  then show False by simp
qed

lemma replicate_image: "replicate m c \<in> (\<lambda>k. replicate k c) ` S \<longleftrightarrow> m \<in> S"
  by (auto dest: arg_cong [where f = length])

lemma other_letter: "''y'' \<notin> (\<lambda>k. replicate k CHR ''x'') ` S"
proof -
  have "''y'' \<noteq> replicate k CHR ''x''" for k by (cases k) auto
  then show ?thesis by auto
qed

lemma ledger_api_fields:
  "time_Now (ledger_api l) x = (0, x)" "client_Connect (ledger_api l) i os x = (Inr 0, x)" "Gateway_Close (ledger_api l) g x = (None, x)"
  "Proposal_Endorse (ledger_api l) p cx x = (Inr p, x)" "Proposal_TransactionID (ledger_api l) p = ledger_id p"
  "Transaction_Submit (ledger_api l) t cx x = (Inr t, (fst x, if t = 2 \<or> odd t then snd x else t # snd x))"
  "Unmarshal_ProcessedTransaction (ledger_api l) b = Inr (if b = ''V'' then 0 else 11)"
  "Proposal_Evaluate (ledger_api l) p cx x = (Inr (if p div 2 \<in> set (snd x) then ''V'' else ''I''), x)"
  "apiLib (ledger_api l) = documented_lib"
  by (simp_all add: ledger_api_def calm_api_over_def ledger_id_def split_beta)

lemma ledger_api_calls:
  "NewProposal (ledger_api l) c fn opts x =
     (case opts of
        [WithArguments [ch, t]] \<Rightarrow> if t = replicate (length t) CHR ''x'' then Inr (Suc (2 * length t)) else Inl (ErrorString ''malformed'')
      | _ \<Rightarrow> Inr (2 * Suc (fst x + sum_list (snd x))), (Suc (fst x), snd x))"
  "Commit_Status (ledger_api l) m cx x =
     (if l then Inl (gateway_error codes_Unavailable ''peer down'' [])
      else Inr (if even m \<and> m \<in> set (snd x) then \<lparr>csCode = 0, csSuccessful = True, csBlockNumber = 42\<rparr>
                else \<lparr>csCode = 11, csSuccessful = False, csBlockNumber = 42\<rparr>), x)"
  by (simp_all add: ledger_api_def split_beta)

lemmas ledger_simps = ledger_api_fields ledger_api_calls

lemma ledger_opaque: "gateway_errors_opaque (ledger_api l)"
  by (auto simp: gateway_errors_opaque_def ledger_simps gateway_error_opaque)

lemma ledger_id_fate: "ledger_id t \<in> ledger_fate x \<longleftrightarrow> even t \<and> t \<in> set (snd x)"
  by (auto simp: ledger_id_def ledger_fate_def replicate_image other_letter)

lemma ledger_proposal:
  "fst (NewProposal (ledger_api l) c fn opts x) = Inr p \<Longrightarrow> even p \<Longrightarrow> p = 2 * Suc (fst x + sum_list (snd x))"
  by (auto simp: ledger_api_calls split: list.splits ProposalOption.splits if_splits)

lemma ledger_orders_once: "orders_once (ledger_api l) ledger_id ledger_id ledger_fate"
proof -
  have "ledger_id p \<notin> ledger_fate x" if "fst (NewProposal (ledger_api l) c fn opts x) = Inr p" for c fn opts x p
    using ledger_proposal [OF that] fresh_number [of "fst x" "snd x"] by (auto simp: ledger_id_fate)
  moreover have "ledger_fate (snd (NewProposal (ledger_api l) c fn opts x)) = ledger_fate x" for c fn opts x
    by (simp add: ledger_api_calls ledger_fate_def)
  moreover have "ledger_fate (snd (Transaction_Submit (ledger_api l) t cx x)) \<in> {ledger_fate x, insert (ledger_id t) (ledger_fate x)}" for t cx x
    by (simp add: ledger_api_fields ledger_fate_def ledger_id_def)
  ultimately show ?thesis
    by (simp add: orders_once_def keeps_fate_def ledger_api_fields(1-5) ledger_api_calls(2) ledger_id_fate)
      (simp add: ledger_api_fields(6))
qed

lemma ledger_looks_up: "looks_up (ledger_api l) ledger_asked ledger_fate"
  by (auto simp: looks_up_def keeps_fate_def ledger_simps ledger_asked_def ledger_fate_def replicate_image TxValidationCode_VALID_def split: if_splits)

lemma ledger_world_fields [simp]: "ext ledger_world = (0, [])" "closed ledger_world a = False"
  by (simp_all add: ledger_world_def)

text \<open>The calls of the two concrete runs, with the options they are made with.\<close>

lemma ledger_new:
  "NewProposal (ledger_api l) c fn [WithBytesArguments bs] (n, vs) = (Inr (2 * Suc (n + sum_list vs)), (Suc n, vs))"
  "NewProposal (ledger_api l) c fn [WithArguments [ch, ledger_id 2]] (n, vs) = (Inr 5, (Suc n, vs))"
  by (simp_all add: ledger_api_calls ledger_id_def)

lemma ledger_calls:
  "Transaction_Submit (ledger_api l) 2 cx (n, vs) = (Inr 2, (n, vs))"
  "Transaction_Submit (ledger_api l) 4 cx (n, vs) = (Inr 4, (n, 4 # vs))"
  "Commit_Status (ledger_api True) m cx x = (Inl (gateway_error codes_Unavailable ''peer down'' []), x)"
  "Commit_Status (ledger_api False) 2 cx (n, []) = (Inr \<lparr>csCode = 11, csSuccessful = False, csBlockNumber = 42\<rparr>, (n, []))"
  "Commit_Status (ledger_api False) 4 cx (n, 4 # vs) = (Inr \<lparr>csCode = 0, csSuccessful = True, csBlockNumber = 42\<rparr>, (n, 4 # vs))"
  by (simp_all add: ledger_api_fields ledger_api_calls)

lemma no_options: "proposalOptions [] = [WithBytesArguments []]"
  by code_simp

lemmas ledger_run = submit_defs run_simps ledger_api_fields(1-5,7-9) ledger_calls ledger_new no_options phase_ext_def release_ext_def
  numeral_2_eq_2 [symmetric]

lemma ledger_first_conflict:
  "\<exists>e w1. run_state (SubmitWith (ledger_api False) example_contract None ''Set'' []) ledger_world = (Inl e, w1) \<and>
     IsRetryable (Some e) \<and> ext w1 = (1, []) \<and> \<not> closed w1 (fcAddr (ctFc example_contract))"
  by (simp add: ledger_run commitFailure_def Retryable_def TxValidationCode_defs)

lemma ledger_second_counts:
  assumes "ext w1 = (1, [])" "\<not> closed w1 (fcAddr (ctFc example_contract))"
  shows "\<exists>r w'. run_state (SubmitWith (ledger_api False) example_contract None ''Set'' []) w1 = (Inr r, w') \<and> trTxID r = ledger_id 4"
  using assms by (simp add: ledger_run)

theorem resubmit_commits_once_witness:
  "\<exists>r w'. run_state (resubmit (ledger_api False) (Suc 0) example_contract None ''Set'' []) ledger_world = (Inr r, w') \<and>
     trTxID r = ledger_id 4 \<and> ledger_fate (ext w') = {ledger_id 4}"
proof -
  from ledger_first_conflict obtain e w1 where e: "run_state (SubmitWith (ledger_api False) example_contract None ''Set'' []) ledger_world = (Inl e, w1)"
    "IsRetryable (Some e)" and w1: "ext w1 = (1, [])" "\<not> closed w1 (fcAddr (ctFc example_contract))" by blast
  from ledger_second_counts [OF w1] e obtain r w' where
    run: "run_state (resubmit (ledger_api False) (Suc 0) example_contract None ''Set'' []) ledger_world = (Inr r, w')" and r: "trTxID r = ledger_id 4"
    by auto
  have "ledger_fate (ext ledger_world) = {}" by (simp add: ledger_fate_def)
  with resubmit_commits_once [OF ledger_opaque ledger_orders_once run] run r show ?thesis by simp
qed

lemma ledger_first_open:
  "\<exists>e w1. run_state (resubmit (ledger_api True) 0 example_contract None ''Set'' []) ledger_world = (Inl e, w1) \<and> IsOutcomeUnknown (Some e) \<and>
     TxIDOf (Some e) = ledger_id 2 \<and> ext w1 = (1, []) \<and> \<not> closed w1 (fcAddr (ctFc example_contract))"
  by (simp add: ledger_run classifyErr_opaque gateway_error_opaque classified_outcome)

lemma ledger_found:
  assumes "ext w1 = (1, [])" "\<not> closed w1 (fcAddr (ctFc example_contract))"
  shows "\<exists>ts w2. run_state (Contract_TxStatus (ledger_api True) example_contract None (ledger_id 2)) w1 = (Inr ts, w2) \<and> tsFound ts \<and> \<not> tsValid ts"
  using assms by (simp add: run_TxStatus qscc_def ledger_run tx_status_of_def TxValidationCode_VALID_def)

theorem open_outcome_resolved_witness:
  "\<exists>e w1 ts w2. run_state (resubmit (ledger_api True) 0 example_contract None ''Set'' []) ledger_world = (Inl e, w1) \<and>
     run_state (Contract_TxStatus (ledger_api True) example_contract None (TxIDOf (Some e))) w1 = (Inr ts, w2) \<and>
     \<not> tsValid ts \<and> ledger_fate (ext w2) = ledger_fate (ext ledger_world)"
proof -
  from ledger_first_open obtain e w1 where run: "run_state (resubmit (ledger_api True) 0 example_contract None ''Set'' []) ledger_world = (Inl e, w1)"
    and e: "IsOutcomeUnknown (Some e)" "TxIDOf (Some e) = ledger_id 2" and w1: "ext w1 = (1, [])" "\<not> closed w1 (fcAddr (ctFc example_contract))" by blast
  from ledger_found [OF w1] obtain ts w2 where ts: "run_state (Contract_TxStatus (ledger_api True) example_contract None (TxIDOf (Some e))) w1 = (Inr ts, w2)"
    "tsFound ts" "\<not> tsValid ts" unfolding e by blast
  from open_outcome_resolved [OF ledger_opaque ledger_orders_once ledger_looks_up run e(1) ts(1,2)] ts run show ?thesis by auto
qed

lemma ledger_accepted:
  "\<exists>pend w1. run_state (SubmitAsync (ledger_api False) example_contract None ''Set'' []) (ledger_world\<lparr>ext := (1, [])\<rparr>) = (Inr pend, w1) \<and>
     pTxID pend = ledger_id 4 \<and> ext w1 = (2, [4]) \<and> \<not> closed w1 (fcAddr (ctFc example_contract))"
  by (simp add: ledger_run)

lemma ledger_found_valid:
  assumes "ext w1 = (n, [4])" "run_state (gateway (ledger_api l) c) w1 = (Inr (g, NoRelease), w1)"
  shows "\<exists>ts w2. run_state (Contract_TxStatus (ledger_api l) c ctx (ledger_id 4)) w1 = (Inr ts, w2) \<and> tsFound ts \<and> tsValid ts"
proof -
  have "NewProposal (ledger_api l) r fn [WithArguments [ch, ledger_id 4]] x = (Inr 9, (Suc (fst x), snd x))" for r fn ch x
    by (simp add: ledger_api_calls ledger_id_def)
  moreover have "w1\<lparr>ext := (n, [4])\<rparr> = w1" using assms(1) by (cases w1) simp
  with assms(2) have "run_state (gateway (ledger_api l) c) (w1\<lparr>ext := (n, [4])\<rparr>) = (Inr (g, NoRelease), w1\<lparr>ext := (n, [4])\<rparr>)" by metis
  ultimately show ?thesis using assms(1)
    by (simp add: run_TxStatus qscc_def run_simps Let_def ledger_api_fields phase_ext_def tx_status_of_def TxValidationCode_VALID_def)
qed

theorem stored_id_settles_witness:
  "\<exists>pend w1 ts w2. run_state (SubmitAsync (ledger_api False) example_contract None ''Set'' []) (ledger_world\<lparr>ext := (1, [])\<rparr>) = (Inr pend, w1) \<and>
     run_state (Contract_TxStatus (ledger_api False) example_contract None (pTxID pend)) w1 = (Inr ts, w2) \<and>
     tsValid ts \<and> ledger_fate (ext w1) = {pTxID pend}"
proof -
  from ledger_accepted obtain pend w1 where
    run: "run_state (SubmitAsync (ledger_api False) example_contract None ''Set'' []) (ledger_world\<lparr>ext := (1, [])\<rparr>) = (Inr pend, w1)"
    and p: "pTxID pend = ledger_id 4" and w1: "ext w1 = (2, [4])" "\<not> closed w1 (fcAddr (ctFc example_contract))" by blast
  have "run_state (gateway (ledger_api False) example_contract) w1 = (Inr (fcGw example_client, NoRelease), w1)"
    using w1(2) by (simp add: gateway_def example_contract_def FabricClient_Contract_def)
  from ledger_found_valid [OF w1(1) this] obtain ts w2 where
    ts: "run_state (Contract_TxStatus (ledger_api False) example_contract None (pTxID pend)) w1 = (Inr ts, w2)" "tsFound ts" "tsValid ts"
    unfolding p by blast
  have "ledger_fate (ext (ledger_world\<lparr>ext := (1, [])\<rparr>)) = {}" by (simp add: ledger_fate_def)
  with stored_id_settles [OF ledger_opaque ledger_orders_once ledger_looks_up run refl ts(1,2)] ts run show ?thesis by auto
qed

end
