(* ===== verification/Basic_Ledger.thy ===== *)
theory Basic_Ledger
  imports Examples Resubmission
begin

text \<open>
  The basic example (\<open>src/examples/basic/main.go\<close>) seen from the ledger: \<open>Examples\<close> shows which calls it makes,
  \<open>Resubmission\<close> what they do to the transactions that count. Together they show that what the
  program prints at its end is true. Operations that leave the ledger alone are found by rules, one
  per construct of the state monad, collected in \<open>spares_intro\<close>.
\<close>

section \<open>Operations that leave the ledger alone\<close>

text \<open>
  An operation spares the ledger if it leaves the transactions that count as they are. Of the code
  outside, beside what \<open>orders_once\<close> and \<open>looks_up\<close> say: connections and signers have no part in
  ordering.
\<close>

definition spares :: "('w \<Rightarrow> string set) \<Rightarrow> ('w, 'a) op \<Rightarrow> bool" where
  "spares fate m = (\<forall>w. fate (ext (snd (run_state m w))) = fate (ext w))"

definition connects_apart :: "'w api \<Rightarrow> ('w \<Rightarrow> string set) \<Rightarrow> bool" where
  "connects_apart api fate =
     ((\<forall>t os. keeps_fate fate (grpc_NewClient api t os)) \<and> (\<forall>c. keeps_fate fate (Conn_Close api c)) \<and>
      (\<forall>c. keeps_fate fate (call_close api c)))"

lemma sparesD: "spares fate m \<Longrightarrow> run_state m w = (a, w') \<Longrightarrow> fate (ext w') = fate (ext w)"
  by (metis spares_def snd_conv)

text \<open>The rules by which the operations of the package are seen to spare the ledger, one per construct.\<close>

named_theorems spares_intro

lemma spares_return [spares_intro]: "spares fate (State_Monad.return a)"
  by (simp add: spares_def)

lemma spares_bind [spares_intro]: "spares fate m \<Longrightarrow> (\<And>a. spares fate (f a)) \<Longrightarrow> spares fate (State_Monad.bind m f)"
  by (simp add: spares_def split_beta)

lemma spares_basic [spares_intro]:
  "spares fate (emit e)" "spares fate (emits es)" "spares fate (inspect g)" "spares fate alloc" "spares fate (peek h)"
  by (simp_all add: spares_def)

lemma spares_poke [spares_intro]: "(\<And>w. ext (g w) = ext w) \<Longrightarrow> spares fate (poke g)"
  by (simp add: spares_def)

lemma spares_outside [spares_intro]: "keeps_fate fate f \<Longrightarrow> spares fate (outside f)"
  by (simp add: spares_def keeps_fate_def)

lemma spares_if [spares_intro]: "spares fate m \<Longrightarrow> spares fate m' \<Longrightarrow> spares fate (if b then m else m')"
  by simp

lemma spares_option [spares_intro]: "spares fate m \<Longrightarrow> (\<And>x. spares fate (f x)) \<Longrightarrow> spares fate (case q of None \<Rightarrow> m | Some x \<Rightarrow> f x)"
  by (cases q) simp_all

lemma spares_sum [spares_intro]: "(\<And>x. spares fate (f x)) \<Longrightarrow> (\<And>y. spares fate (g y)) \<Longrightarrow> spares fate (case s of Inl x \<Rightarrow> f x | Inr y \<Rightarrow> g y)"
  by (cases s) simp_all

lemma spares_prod [spares_intro]: "(\<And>x y. spares fate (f x y)) \<Longrightarrow> spares fate (case p of (x, y) \<Rightarrow> f x y)"
  by (cases p) simp

lemma spares_Let [spares_intro]: "spares fate (f x) \<Longrightarrow> spares fate (let y = x in f y)"
  by simp

lemma spares_once [spares_intro]: "spares fate m \<Longrightarrow> spares fate (once_Do a m d)"
  unfolding once_Do_def by (intro spares_intro) simp_all

lemma spares_log [spares_intro]: "spares fate (log_line cfg lv m kv)" "spares fate (observe_call cfg info)"
  unfolding log_line_def observe_call_def by (intro spares_intro)+

lemma orders_once_calls [spares_intro]:
  assumes "orders_once api txOf commitOf fate"
  shows "keeps_fate fate (time_Now api)" "keeps_fate fate (client_Connect api i os)" "keeps_fate fate (Gateway_Close api g)"
    "keeps_fate fate (NewProposal api c fn po)"
  using assms by (simp_all add: orders_once_def)

lemma looks_up_calls [spares_intro]: "looks_up api asked fate \<Longrightarrow> keeps_fate fate (Proposal_Evaluate api p cx)"
  by (simp add: looks_up_def)

lemma connects_apart_calls [spares_intro]:
  assumes "connects_apart api fate"
  shows "keeps_fate fate (grpc_NewClient api t os)" "keeps_fate fate (Conn_Close api c)" "keeps_fate fate (call_close api c)"
  using assms by (simp_all add: connects_apart_def)

section \<open>The operations of the package\<close>

lemma spares_release: "orders_once api txOf commitOf fate \<Longrightarrow> spares fate (run_release api r)"
  by (simp add: spares_def run_run_release orders_once_quiet)

lemma spares_gateway: "orders_once api txOf commitOf fate \<Longrightarrow> spares fate (gateway api c)"
  unfolding gateway_def connect_def by (intro spares_intro)

lemma spares_timeout: "orders_once api txOf commitOf fate \<Longrightarrow> spares fate (withDefaultTimeout api ctx d)"
  unfolding withDefaultTimeout_def now_def by (intro spares_intro)

lemma spares_observe: "orders_once api txOf commitOf fate \<Longrightarrow> spares fate (observe api c op fn t st e)"
  unfolding observe_def now_def by (intro spares_intro)

text \<open>Building and closing a client, evaluating and asking for the height spare the ledger.\<close>

lemma spares_Identity_Close: "connects_apart api fate \<Longrightarrow> spares fate (Identity_Close api i)"
  unfolding Identity_Close_def by (intro spares_intro) simp_all

lemma spares_LoadIdentity: "spares fate (LoadIdentity api m c k)"
  unfolding LoadIdentity_def IdentityFromPEM_def NewIdentity_def by (intro spares_intro) simp_all

lemma spares_build:
  assumes "orders_once api txOf commitOf fate" "connects_apart api fate"
  shows "spares fate (build api cfg conn h)"
  unfolding build_def connect_def
  by (intro spares_intro spares_LoadIdentity spares_Identity_Close orders_once_calls [OF assms(1)] assms(2)) simp_all

lemma spares_New:
  assumes "orders_once api txOf commitOf fate" "connects_apart api fate"
  shows "spares fate (New api cfg)"
  unfolding New_def by (intro spares_intro spares_build [OF assms] assms(2))

lemma spares_Close:
  assumes "orders_once api txOf commitOf fate" "connects_apart api fate"
  shows "spares fate (Close api fc)"
  unfolding Close_def close_body_def
  by (intro spares_intro spares_Identity_Close orders_once_calls [OF assms(1)] assms(2)) simp_all

lemma spares_qscc:
  assumes "orders_once api txOf commitOf fate" "looks_up api asked fate"
  shows "spares fate (qscc api c ctx fn args)"
  unfolding qscc_def
  by (intro spares_intro spares_gateway [OF assms(1)] spares_timeout [OF assms(1)] spares_release [OF assms(1)]
      orders_once_calls [OF assms(1)] looks_up_calls [OF assms(2)])

lemma spares_Height:
  assumes "orders_once api txOf commitOf fate" "looks_up api asked fate"
  shows "spares fate (FabricClient_Height api fc ctx)"
  unfolding FabricClient_Height_def Height_def by (intro spares_intro spares_qscc [OF assms])

lemma spares_Evaluate:
  assumes "orders_once api txOf commitOf fate" "looks_up api asked fate"
  shows "spares fate (FabricClient_Evaluate api fc ctx fn args)"
  unfolding FabricClient_Evaluate_def Evaluate_def EvaluateWith_def evaluate_body_def now_def
  by (intro spares_intro spares_gateway [OF assms(1)] spares_timeout [OF assms(1)] spares_release [OF assms(1)]
      spares_observe [OF assms(1)] orders_once_calls [OF assms(1)] looks_up_calls [OF assms(2)])

section \<open>The basic example on the ledger\<close>

lemma spares_basic_reads:
  assumes "orders_once api txOf commitOf fate" "looks_up api asked fate" "connects_apart api fate"
  shows "spares fate (basic_reads api fc ctx a)"
  unfolding basic_reads_def
  by (intro spares_intro spares_Evaluate [OF assms(1,2)] spares_Height [OF assms(1,2)] spares_Close [OF assms(1,3)])

text \<open>What the program prints when it ends, as a statement on the transactions that count before and after.\<close>

definition report_true :: "string set \<Rightarrow> string set \<Rightarrow> stdout list \<Rightarrow> exit \<Rightarrow> bool" where
  "report_true before after out x =
     (case x of
        FatalOutcomeUnknown t st \<Rightarrow> out = [] \<and> t \<notin> before \<and> after \<in> {before, insert t before} \<and>
          (case st of Inr ts \<Rightarrow> tsFound ts \<longrightarrow> (tsValid ts \<longleftrightarrow> t \<in> after) | Inl _ \<Rightarrow> True)
      | Exit \<Rightarrow> (\<exists>t n out'. out = PCommitted t n # out' \<and> t \<notin> before \<and> after = insert t before)
      | FatalReadAsset e \<Rightarrow> (\<exists>t n. out = [PCommitted t n] \<and> t \<notin> before \<and> after = insert t before)
      | _ \<Rightarrow> out = [] \<and> after = before)"

lemma basic_reads_exit:
  assumes "run_state (basic_reads api fc ctx a) w = ((out, x), w')"
  shows "x = Exit \<or> (\<exists>e. x = FatalReadAsset e \<and> out = [])"
  using assms by (auto simp: basic_reads_def split: prod.splits sum.splits)

lemma basic_failed_report:
  assumes op: "gateway_errors_opaque api" and ord: "orders_once api txOf commitOf fate" and look: "looks_up api asked fate"
    and sub: "run_state (SubmitWith api (FabricClient_Contract fc) ctx fn opts) w = (Inl e, w1)"
    and run: "run_state (basic_failed api fc ctx e) w1 = ((out, x), w')"
  shows "report_true (fate (ext w)) (fate (ext w')) out x"
proof -
  note once = SubmitWith_fate [OF op ord sub]
  show ?thesis
  proof (cases "IsOutcomeUnknown (Some e)")
    case True
    then obtain fe cc where fe: "asError (Some e) = Some (fe, cc)" "eOutcomeUnknown fe" "TxIDOf (Some e) = eTxID fe"
      by (auto simp: IsOutcomeUnknown_def TxIDOf_def split: option.splits)
    obtain st v where st: "run_state (Contract_TxStatus api (FabricClient_Contract fc) ctx (eTxID fe)) w1 = (st, v)" by fastforce
    have res: "out = []" "x = FatalOutcomeUnknown (eTxID fe) st" "w' = v"
      using run st fe by (simp_all add: basic_failed_def FabricClient_TxStatus_def)
    note look' = TxStatus_fate [OF ord look st]
    from once True have "eTxID fe \<notin> fate (ext w)" "fate (ext w1) \<in> {fate (ext w), insert (eTxID fe) (fate (ext w))}" by (simp_all add: fe(3))
    with look' show ?thesis by (cases st) (simp_all add: report_true_def res)
  next
    case False
    then have "out = [] \<and> x = FatalCreateAsset e \<and> w' = w1"
      using run by (auto simp: basic_failed_def IsOutcomeUnknown_def split: option.splits)
    with once False show ?thesis by (simp add: report_true_def)
  qed
qed

text \<open>
  C11: what the basic example says at its end is true of the ledger. If the program reports a commit,
  exactly the transaction it names was added, whether or not the reads that follow succeed; if it
  reports an open outcome, at most the transaction it names was added, and the status it prints, if the
  peer has a record, says whether it was; with every other report nothing was added.
\<close>

theorem basic_report_true:
  assumes "gateway_errors_opaque api" and "orders_once api txOf commitOf fate" and "looks_up api asked fate" and "connects_apart api fate"
    and "run_state (basic_main api getenv) w = ((out, x), w')"
  shows "report_true (fate (ext w)) (fate (ext w')) out x"
proof (cases rule: env_config_cases [of getenv])
  case (unset key)
  with assms(5) show ?thesis by (auto simp: basic_main_def report_true_def)
next
  case (set cfg)
  obtain r w1 where r: "run_state (New api cfg) w = (r, w1)" by fastforce
  have w1: "fate (ext w1) = fate (ext w)" by (rule sparesD [OF spares_New [OF assms(2,4)] r])
  show ?thesis
  proof (cases r)
    case (Inl e)
    with assms(5) set(1) r w1 show ?thesis by (auto simp: basic_main_def report_true_def)
  next
    case (Inr fc)
    from basic_main_run [OF set(1) r [unfolded Inr]] obtain ctx a args y where
      y: "y = snd (time_Now api (snd (time_Now api (ext w1))))" and
      rest: "\<And>res w3. run_state (SubmitWith api (FabricClient_Contract fc) ctx ''CreateAsset'' [Args args]) (w1\<lparr>ext := y\<rparr>) = (res, w3) \<Longrightarrow>
         run_state (basic_main api getenv) w = run_state (basic_rest api fc ctx a res) w3" by metis
    let ?w2 = "w1\<lparr>ext := y\<rparr>"
    have w2: "fate (ext ?w2) = fate (ext w)" by (simp add: y w1 orders_once_quiet [OF assms(2)])
    obtain res w3 where sub: "run_state (SubmitWith api (FabricClient_Contract fc) ctx ''CreateAsset'' [Args args]) ?w2 = (res, w3)" by fastforce
    have rest: "run_state (basic_rest api fc ctx a res) w3 = ((out, x), w')" using rest [OF sub] assms(5) by simp
    show ?thesis
    proof (cases res)
      case (Inl e)
      with rest have "run_state (basic_failed api fc ctx e) w3 = ((out, x), w')" by (simp add: basic_rest_def)
      from basic_failed_report [OF assms(1-3) sub [unfolded Inl] this] show ?thesis unfolding w2 .
    next
      case (Inr tr)
      obtain o' y v where reads: "run_state (basic_reads api fc ctx a) w3 = ((o', y), v)" by (metis prod.exhaust)
      have v: "fate (ext v) = fate (ext w3)" by (rule sparesD [OF spares_basic_reads [OF assms(2-4)] reads])
      have eq: "out = PCommitted (trTxID tr) (trBlockNumber tr) # o'" "y = x" "v = w'" using rest Inr reads by (simp_all add: basic_rest_def)
      from SubmitWith_fate [OF assms(1,2) sub, unfolded w2] Inr have "trTxID tr \<notin> fate (ext w)" "fate (ext w') = insert (trTxID tr) (fate (ext w))"
        using v by (simp_all add: eq(3))
      with basic_reads_exit [OF reads] show ?thesis by (auto simp: report_true_def eq)
    qed
  qed
qed

section \<open>A concrete run\<close>

text \<open>
  The Gateway of \<open>Resubmission\<close> that loses the answer to the commit status, before its second
  transaction: that one counts, the program reports an open outcome, and the status it prints says
  that the transaction is valid.
\<close>

definition second_world :: "(nat \<times> nat list) world" where
  "second_world = ledger_world\<lparr>ext := (1, [])\<rparr>"

lemma second_start: "ext second_world = (1, [])" "ledger_fate (ext second_world) = {}"
  by (simp_all add: second_world_def ledger_fate_def)

lemma ledger_connects_apart: "connects_apart (ledger_api l) ledger_fate"
  by (simp add: connects_apart_def keeps_fate_def ledger_api_def calm_api_over_def)

lemma ledger_files:
  "os_ReadFile (ledger_api l) p x = Inr p" "os_Stat (ledger_api l) p x = Inr (p = ''keystore'')" "AppendCertsFromPEM (ledger_api l) b"
  "grpc_NewClient (ledger_api l) t os x = (Inr 0, x)" "CertificateFromPEM (ledger_api l) b = Inr 0" "PrivateKeyFromPEM (ledger_api l) b = Inr 0"
  "NewPrivateKeySign (ledger_api l) k = Inr k" "Signer_Public (ledger_api l) k = Some k" "Certificate_PublicKey (ledger_api l) k = k"
  "PublicKey_Equal (ledger_api l) k = Some (\<lambda>q. q = k)" "NewX509Identity (ledger_api l) m k = Inr k"
  by (simp_all add: ledger_api_def calm_api_over_def)

lemma second_New: "\<exists>fc w1. run_state (New (ledger_api True) example_env_config) second_world = (Inr fc, w1) \<and> ext w1 = (1, []) \<and> \<not> closed w1 (fcAddr fc)"
proof -
  have "TrimSpace ''value'' \<noteq> []" by code_simp
  then show ?thesis
    by (simp add: New_def example_env_valid Let_def transportCredentials_def example_env_files build_def LoadIdentity_def readPEMPath_def
        IdentityFromPEM_def checkKeyMatchesCert_def NewIdentity_def connect_def ledger_files ledger_simps run_log_line_effects second_start)
qed

lemma only_args: "proposalOptions [Args args] = [WithBytesArguments args]"
proof -
  have "foldl (\<lambda>q a. q\<lparr>coArgs := coArgs q @ [a]\<rparr>) q args = q\<lparr>coArgs := coArgs q @ args\<rparr>" for q :: callOptions
    by (induction args arbitrary: q) simp_all
  then show ?thesis by (simp add: proposalOptions_def apply_options_def Args_def Let_def)
qed

lemma default_gateway:
  "\<not> closed w (fcAddr fc) \<Longrightarrow> run_state (gateway api (FabricClient_Contract fc)) w = (Inr (fcGw fc, NoRelease), w)"
  by (simp add: gateway_def FabricClient_Contract_def)

lemma second_open:
  assumes "ext w1 = (1, [])" "\<not> closed w1 (fcAddr fc)"
  shows "\<exists>e w3. run_state (SubmitWith (ledger_api True) (FabricClient_Contract fc) ctx fn [Args args]) w1 = (Inl e, w3) \<and> IsOutcomeUnknown (Some e) \<and>
     TxIDOf (Some e) = ledger_id 4 \<and> ext w3 = (2, [4]) \<and> \<not> closed w3 (fcAddr fc)"
  using assms by (simp add: ledger_run FabricClient_Contract_def only_args classifyErr_opaque gateway_error_opaque classified_outcome)

theorem basic_report_true_witness:
  "\<exists>ts w'. run_state (basic_main (ledger_api True) example_env) second_world = (([], FatalOutcomeUnknown (ledger_id 4) (Inr ts)), w') \<and>
     tsFound ts \<and> tsValid ts \<and> ledger_fate (ext w') = {ledger_id 4}"
proof -
  from second_New obtain fc w1 where new: "run_state (New (ledger_api True) example_env_config) second_world = (Inr fc, w1)"
    and w1: "ext w1 = (1, [])" "\<not> closed w1 (fcAddr fc)" by blast
  from basic_main_run [OF example_env_config new] obtain ctx a args y where
    y: "y = snd (time_Now (ledger_api True) (snd (time_Now (ledger_api True) (ext w1))))" and
    rest: "\<And>res w3. run_state (SubmitWith (ledger_api True) (FabricClient_Contract fc) ctx ''CreateAsset'' [Args args]) (w1\<lparr>ext := y\<rparr>) = (res, w3) \<Longrightarrow>
       run_state (basic_main (ledger_api True) example_env) second_world = run_state (basic_rest (ledger_api True) fc ctx a res) w3" by metis
  have "ext (w1\<lparr>ext := y\<rparr>) = (1, [])" "\<not> closed (w1\<lparr>ext := y\<rparr>) (fcAddr fc)" using w1 by (simp_all add: y ledger_api_fields)
  from second_open [OF this] obtain e w3 where
    sub: "run_state (SubmitWith (ledger_api True) (FabricClient_Contract fc) ctx ''CreateAsset'' [Args args]) (w1\<lparr>ext := y\<rparr>) = (Inl e, w3)"
    and e: "IsOutcomeUnknown (Some e)" "TxIDOf (Some e) = ledger_id 4" and w3: "ext w3 = (2, [4])" "\<not> closed w3 (fcAddr fc)" by blast
  from ledger_found_valid [OF w3(1) default_gateway [OF w3(2)]] obtain ts w4 where
    ts: "run_state (Contract_TxStatus (ledger_api True) (FabricClient_Contract fc) ctx (ledger_id 4)) w3 = (Inr ts, w4)" "tsFound ts" "tsValid ts" by blast
  have "run_state (basic_failed (ledger_api True) fc ctx e) w3 = (([], FatalOutcomeUnknown (ledger_id 4) (Inr ts)), w4)"
    using e ts(1) by (auto simp: basic_failed_def FabricClient_TxStatus_def IsOutcomeUnknown_def TxIDOf_def split: option.splits)
  with rest [OF sub] have run: "run_state (basic_main (ledger_api True) example_env) second_world = (([], FatalOutcomeUnknown (ledger_id 4) (Inr ts)), w4)"
    by (simp add: basic_rest_def)
  from basic_report_true [OF ledger_opaque ledger_orders_once ledger_looks_up ledger_connects_apart run] ts(2,3) second_start(2) run show ?thesis
    by (auto simp: report_true_def)
qed

end
