(* ===== verification/Progress.thy ===== *)
theory Progress
  imports Listeners
begin

text \<open>
  That the listeners of \<open>src/events.go\<close> deliver. The theory \<open>Listeners\<close> shows that what a listener hands
  to its handler is right; here it is shown that it does hand it over. The locale \<open>progressing\<close> is
  the contract of a step function that delivers an item or comes closer to it; it is interpreted
  for the event and the block listener, on a network that fails any finite number of times between
  two deliveries.
\<close>

section \<open>Steps that lead to a delivery\<close>

text \<open>
  A step function that either delivers something or lowers a rank: then it delivers any number of
  items, if it runs long enough. \<open>seen\<close> lists what a trace delivers.
\<close>

locale progressing = stepper step final
  for step :: "'s \<Rightarrow> ('w, 's) op" and final :: "'s \<Rightarrow> bool" +
  fixes live :: "'s \<Rightarrow> 'w world \<Rightarrow> bool" and rank :: "'s \<Rightarrow> 'w world \<Rightarrow> nat" and seen :: "effect list \<Rightarrow> 'a list"
  assumes seen_append: "seen (xs @ ys) = seen xs @ seen ys"
    and live_running: "live s w \<Longrightarrow> \<not> final s"
    and step_progress: "live s w \<Longrightarrow> run_state (step s) w = (t, v) \<Longrightarrow>
      live t v \<and> (\<exists>es. trace v = trace w @ es \<and> (seen es \<noteq> [] \<or> rank t v < rank s w))"
begin

lemma iterate_grows:
  "live s w \<Longrightarrow> run_state (iterate step n s) w = (t, v) \<Longrightarrow> live t v \<and> (\<exists>es. trace v = trace w @ es)"
proof (induction n arbitrary: s w)
  case (Suc n)
  obtain u x where u: "run_state (step s) w = (u, x)" by fastforce
  from step_progress [OF Suc.prems(1) u] have "live u x" "\<exists>es. trace x = trace w @ es" by blast+
  with Suc.IH [of u x] Suc.prems(2) u show ?case by auto
qed simp

lemma one_more:
  "live s w \<Longrightarrow> \<exists>n t v es. run_state (iterate step n s) w = (t, v) \<and> trace v = trace w @ es \<and> seen es \<noteq> []"
proof (induction "rank s w" arbitrary: s w rule: less_induct)
  case less
  obtain t v where run: "run_state (step s) w = (t, v)" by fastforce
  from step_progress [OF less.prems run] obtain es where
    t: "live t v" "trace v = trace w @ es" "seen es \<noteq> [] \<or> rank t v < rank s w" by blast
  show ?case
  proof (cases "seen es = []")
    case True
    with t less.hyps [of t v] obtain n t' v' fs where
      "run_state (iterate step n t) v = (t', v')" "trace v' = trace v @ fs" "seen fs \<noteq> []" by blast
    with run t(2) show ?thesis
      by (intro exI [of _ "Suc n"] exI [of _ t'] exI [of _ v'] exI [of _ "es @ fs"]) (simp add: seen_append)
  next
    case False
    with run t(2) show ?thesis by (intro exI [of _ "Suc 0"] exI [of _ t] exI [of _ v] exI [of _ es]) simp
  qed
qed

lemma any_number:
  "live s w \<Longrightarrow> \<exists>n t v es. run_state (iterate step n s) w = (t, v) \<and> trace v = trace w @ es \<and> m \<le> length (seen es)"
proof (induction m)
  case 0
  show ?case by (intro exI [of _ 0] exI [of _ s] exI [of _ w] exI [of _ "[]"]) simp
next
  case (Suc m)
  then obtain n t v es where n: "run_state (iterate step n s) w = (t, v)" "trace v = trace w @ es" "m \<le> length (seen es)" by blast
  have "live t v" using iterate_grows [OF Suc.prems n(1)] by blast
  from one_more [OF this] obtain k t' v' fs where
    k: "run_state (iterate step k t) v = (t', v')" "trace v' = trace v @ fs" "seen fs \<noteq> []" by blast
  have "run_state (iterate step (n + k) s) w = (t', v')" using iterate_add [of n k s w] n(1) k(1) by simp
  moreover have "Suc m \<le> length (seen (es @ fs))" using n(3) k(3) by (cases "seen fs") (simp_all add: seen_append)
  ultimately show ?case using n(2) k(2) by (intro exI [of _ "n + k"] exI [of _ t'] exI [of _ v'] exI [of _ "es @ fs"]) simp
qed

text \<open>From some number of steps on, always.\<close>

lemma eventually_seen:
  assumes "live s w"
  shows "\<exists>n. \<forall>n'\<ge>n. \<exists>t v. run_state (iterate step n' s) w = (t, v) \<and> \<not> final t \<and> m \<le> length (seen (added w v))"
proof -
  from any_number [OF assms] obtain n t v es where
    n: "run_state (iterate step n s) w = (t, v)" "trace v = trace w @ es" "m \<le> length (seen es)" by blast
  have "\<exists>t' v'. run_state (iterate step n' s) w = (t', v') \<and> \<not> final t' \<and> m \<le> length (seen (added w v'))" if "n \<le> n'" for n'
  proof -
    obtain t' v' where k: "run_state (iterate step (n' - n) t) v = (t', v')" by fastforce
    have run: "run_state (iterate step n' s) w = (t', v')" using iterate_add [of n "n' - n" s w] n(1) k that by simp
    have "live t v" using iterate_grows [OF assms n(1)] by blast
    from iterate_grows [OF this k] obtain fs where "live t' v'" "trace v' = trace v @ fs" by blast
    with run n(2,3) live_running show ?thesis by (auto simp: added_def seen_append)
  qed
  then show ?thesis by blast
qed

end

section \<open>A network that recovers\<close>

text \<open>
  While a listener runs, its context does not end, its timers fire and a Gateway can be had; none
  of these brings back a failure. \<open>lag\<close> is how often the network still fails before it delivers
  the next event.
\<close>

definition keeps_up :: "'w api \<Rightarrow> 'w eapi \<Rightarrow> Ctx \<Rightarrow> ('w \<Rightarrow> nat) \<Rightarrow> bool" where
  "keeps_up api ev ctx lag =
     ((\<forall>x. \<not> fst (ctx_ended ev ctx x) \<and> lag (snd (ctx_ended ev ctx x)) \<le> lag x) \<and>
      (\<forall>d x. fst (timer_fires ev ctx d x) \<and> lag (snd (timer_fires ev ctx d x)) \<le> lag x) \<and>
      (\<forall>i os x. (\<exists>g. fst (client_Connect api i os x) = Inr g) \<and> lag (snd (client_Connect api i os x)) \<le> lag x) \<and>
      (\<forall>g x. lag (snd (Gateway_Close api g x)) \<le> lag x))"

text \<open>
  A subscription that fails does so with an error that reconnecting may cure; each failed or
  dropped subscription uses up one of the failures; handler and checkpoint succeed.
\<close>

definition event_recovery :: "'w api \<Rightarrow> 'w eapi \<Rightarrow> Ctx \<Rightarrow> Checkpointer \<Rightarrow> 'w EventHandler \<Rightarrow> ('w \<Rightarrow> nat) \<Rightarrow> bool" where
  "event_recovery api ev ctx cp handle lag =
     (keeps_up api ev ctx lag \<and>
      (\<forall>gw ch cc os x r x'. Network_ChaincodeEvents ev gw ch (WithCancel ctx) cc os x = (r, x') \<longrightarrow>
         (case r of Inl e \<Rightarrow> reconnectable (Some (classifyErr api e '''' phaseEvaluate True)) \<and> lag x' < lag x | Inr u \<Rightarrow> lag x' \<le> lag x)) \<and>
      (\<forall>u x x'. recv_event ev u x = (None, x') \<longrightarrow> lag x' < lag x) \<and>
      (\<forall>e x. fst (handle ctx e x) = None) \<and> (\<forall>n t x. fst (CheckpointTransaction ev cp n t x) = None))"

definition block_recovery :: "'w api \<Rightarrow> 'w eapi \<Rightarrow> Ctx \<Rightarrow> Checkpointer \<Rightarrow> 'w BlockHandler \<Rightarrow> ('w \<Rightarrow> nat) \<Rightarrow> bool" where
  "block_recovery api ev ctx cp handle lag =
     (keeps_up api ev ctx lag \<and>
      (\<forall>gw ch os x r x'. Network_BlockEvents ev gw ch (WithCancel ctx) os x = (r, x') \<longrightarrow>
         (case r of Inl e \<Rightarrow> reconnectable (Some (classifyErr api e '''' phaseEvaluate True)) \<and>
              errors_As as_HandlerError (Some (classifyErr api e '''' phaseEvaluate True)) = None \<and> lag x' < lag x
          | Inr u \<Rightarrow> lag x' \<le> lag x)) \<and>
      (\<forall>u x x'. recv_block ev u x = (None, x') \<longrightarrow> lag x' < lag x) \<and>
      (\<forall>b x. fst (handle ctx b x) = None) \<and> (\<forall>n x. fst (CheckpointBlock ev cp n x) = None))"

lemma keeps_upD:
  assumes "keeps_up api ev ctx lag"
  shows "\<not> fst (ctx_ended ev ctx x)" "lag (snd (ctx_ended ev ctx x)) \<le> lag x" "fst (timer_fires ev ctx d x)"
    "lag (snd (timer_fires ev ctx d x)) \<le> lag x" "\<exists>g. fst (client_Connect api i os x) = Inr g"
    "lag (snd (client_Connect api i os x)) \<le> lag x" "lag (release_ext api r x) \<le> lag x"
  using assms by (auto simp: keeps_up_def release_ext_def split: release.splits)

lemma event_recoveryD:
  assumes "event_recovery api ev ctx cp handle lag"
  shows "keeps_up api ev ctx lag"
    "Network_ChaincodeEvents ev gw ch (WithCancel ctx) cc os x = (Inl e, x') \<Longrightarrow>
       reconnectable (Some (classifyErr api e '''' phaseEvaluate True)) \<and> lag x' < lag x"
    "Network_ChaincodeEvents ev gw ch (WithCancel ctx) cc os x = (Inr u, x') \<Longrightarrow> lag x' \<le> lag x"
    "recv_event ev u x = (None, x') \<Longrightarrow> lag x' < lag x" "fst (handle ctx g x) = None" "fst (CheckpointTransaction ev cp n t x) = None"
  using assms by (fastforce simp: event_recovery_def)+

lemma block_recoveryD:
  assumes "block_recovery api ev ctx cp handle lag"
  shows "keeps_up api ev ctx lag"
    "Network_BlockEvents ev gw ch (WithCancel ctx) os x = (Inl e, x') \<Longrightarrow>
       reconnectable (Some (classifyErr api e '''' phaseEvaluate True)) \<and>
       errors_As as_HandlerError (Some (classifyErr api e '''' phaseEvaluate True)) = None \<and> lag x' < lag x"
    "Network_BlockEvents ev gw ch (WithCancel ctx) os x = (Inr u, x') \<Longrightarrow> lag x' \<le> lag x"
    "recv_block ev u x = (None, x') \<Longrightarrow> lag x' < lag x" "fst (handle ctx b x) = None" "fst (CheckpointBlock ev cp n x) = None"
  using assms by (fastforce simp: block_recovery_def)+

lemma gateway_up:
  assumes "keeps_up api ev ctx lag" "ctId c = Some i" "\<not> closed w (fcAddr (ctFc c))"
  obtains g r x where "run_state (gateway api c) w = (Inr (g, r), w\<lparr>ext := x, trace := trace w @ opens r\<rparr>)" "lag x \<le> lag (ext w)"
proof (cases "iAddr i = iAddr (fcId (ctFc c))")
  case True
  with assms show thesis by (intro that [of "fcGw (ctFc c)" NoRelease "ext w"]) (simp_all add: gateway_def)
next
  case False
  let ?call = "client_Connect api (iX509 i) (connectOptions (ctCfg c) (fcConn (ctFc c)) (fcTlsHash (ctFc c)) i) (ext w)"
  from keeps_upD(5) [OF assms(1)] obtain g where g: "fst ?call = Inr g" by blast
  with assms False keeps_upD(6) [OF assms(1)] show thesis
    by (intro that [of g "CloseGateway g" "snd ?call"]) (simp_all add: gateway_def connect_def)
qed

section \<open>The event listener\<close>

text \<open>A listener that can go on: its client is open, its stream is neither closed nor stopped, and the error of a stream is worth another connection.\<close>

definition event_live :: "Contract \<Rightarrow> Ctx \<Rightarrow> lpoint \<times> Duration \<Rightarrow> 'w world \<Rightarrow> bool" where
  "event_live c ctx st w =
     (\<not> closed w (fcAddr (ctFc c)) \<and>
      (case fst st of
         Connecting \<Rightarrow> True
       | Streaming s \<Rightarrow> esCtx s = ctx \<and> \<not> stopped w (esAddr s)
       | StreamEnded err \<Rightarrow> err = None \<or> reconnectable err
       | Returned r \<Rightarrow> False))"

definition event_rank :: "('w \<Rightarrow> nat) \<Rightarrow> lpoint \<times> Duration \<Rightarrow> 'w world \<Rightarrow> nat" where
  "event_rank lag st w = 3 * lag (ext w) + (case fst st of StreamEnded e \<Rightarrow> 2 | Connecting \<Rightarrow> 1 | _ \<Rightarrow> 0)"

lemma stream_closed_reconnectable: "reconnectable (Some stream_closed_error)"
  by (simp add: reconnectable_def stream_closed_error_def KindOf_def)

lemma event_connect_progress:
  assumes rec: "event_recovery api ev ctx cp handle lag" and c: "ctId c = Some i" "\<not> closed w (fcAddr (ctFc c))"
    and run: "run_state (event_step api ev c ctx cp handle opts (Connecting, b)) w = (t, v)"
  shows "event_live c ctx t v \<and> (\<exists>es. trace v = trace w @ es \<and> event_rank lag t v < event_rank lag (Connecting, b) w)"
proof -
  note up = event_recoveryD(1) [OF rec]
  let ?q = "event_options c (opts @ [WithCheckpointer (Some cp)])"
  from gateway_up [OF up c] obtain g r x where g: "run_state (gateway api c) w = (Inr (g, r), w\<lparr>ext := x, trace := trace w @ opens r\<rparr>)"
    "lag x \<le> lag (ext w)" .
  obtain u y where u: "Network_ChaincodeEvents ev g (ctChannel c) (WithCancel ctx) (eoChaincode ?q) (stream_options ?q) x = (u, y)" by fastforce
  note step = event_step_def ChaincodeEvents_def Let_def run_simps stop_def g(1) u
  show ?thesis
  proof (cases u)
    case (Inl e)
    from event_recoveryD(2) [OF rec u [unfolded Inl]] keeps_upD(7) [OF up, of r y] g(2)
    have "reconnectable (Some (classifyErr api e '''' phaseEvaluate True))" "lag (release_ext api r y) < lag (ext w)" by auto
    with run Inl c(2) show ?thesis by (auto simp: step event_live_def event_rank_def)
  next
    case (Inr s)
    from event_recoveryD(3) [OF rec u [unfolded Inr]] g(2) have "lag y \<le> lag (ext w)" by simp
    with run Inr c(2) show ?thesis by (auto simp: step event_live_def event_rank_def)
  qed
qed

lemma event_stream_progress:
  assumes rec: "event_recovery api ev ctx cp handle lag" and s: "event_live c ctx (Streaming s, b) w"
    and run: "run_state (event_step api ev c ctx cp handle opts (Streaming s, b)) w = (t, v)"
  shows "event_live c ctx t v \<and> (\<exists>es. trace v = trace w @ es \<and> (handled es \<noteq> [] \<or> event_rank lag t v < event_rank lag (Streaming s, b) w))"
proof -
  note up = event_recoveryD(1) [OF rec]
  obtain e x where e: "recv_event ev (esUpstream s) (ext w) = (e, x)" by fastforce
  have alive: "ctx_ended ev (esCtx s) x = (False, snd (ctx_ended ev ctx x))" "\<not> stopped w (esAddr s)" "\<not> closed w (fcAddr (ctFc c))"
    using s keeps_upD(1) [OF up, of x] by (simp_all add: event_live_def prod_eq_iff)
  let ?y = "snd (ctx_ended ev ctx x)"
  show ?thesis
  proof (cases e)
    case None
    let ?z = "release_ext api (esRelease s) ?y"
    have recv: "run_state (stream_recv api ev s) w = (None, w\<lparr>ext := ?z, trace := trace w @ closes (esRelease s),
        stopped := (stopped w)(esAddr s := True), streamErr := (streamErr w)(esAddr s := Some stream_closed_error)\<rparr>)"
      by (simp add: run_stream_recv e None alive)
    have "t = (StreamEnded (Some stream_closed_error), b)" "ext v = ?z" "trace v = trace w @ closes (esRelease s)" "closed v = closed w"
      using run by (auto simp: event_step_def recv EventStream_Err_def)
    moreover have "lag ?z < lag (ext w)"
      using event_recoveryD(4) [OF rec e [unfolded None]] keeps_upD(2) [OF up, of x] keeps_upD(7) [OF up, of "esRelease s" ?y] by simp
    ultimately show ?thesis using alive(3) by (simp add: event_live_def event_rank_def stream_closed_reconnectable)
  next
    case (Some g)
    have recv: "run_state (stream_recv api ev s) w = (Some (convert g), w\<lparr>ext := ?y\<rparr>)"
      by (simp add: run_stream_recv e Some alive)
    obtain h where h: "handle ctx (convert g) ?y = (None, h)" using event_recoveryD(5) [OF rec] by (metis prod.collapse)
    obtain k where k: "CheckpointTransaction ev cp (evBlockNumber (convert g)) (evTxID (convert g)) h = (None, k)"
      using event_recoveryD(6) [OF rec] by (metis prod.collapse)
    have "fst t = Streaming s" "trace v = trace w @ [EHandle (convert g), ECheckpointTx (evBlockNumber (convert g)) (evTxID (convert g))]"
      "closed v = closed w" "stopped v = stopped w"
      using run by (auto simp: event_step_def recv h k)
    then show ?thesis using alive s by (simp add: event_live_def)
  qed
qed

lemma event_sleep_progress:
  assumes rec: "event_recovery api ev ctx cp handle lag" and s: "event_live c ctx (StreamEnded err, b) w"
    and run: "run_state (event_step api ev c ctx cp handle opts (StreamEnded err, b)) w = (t, v)"
  shows "event_live c ctx t v \<and> (\<exists>es. trace v = trace w @ es \<and> event_rank lag t v < event_rank lag (StreamEnded err, b) w)"
proof -
  note up = keeps_upD [OF event_recoveryD(1) [OF rec]]
  let ?x = "snd (ctx_ended ev ctx (ext w))"
  have "lag (snd (timer_fires ev ctx b ?x)) \<le> lag (ext w)" using up(2) [of "ext w"] up(4) [of b ?x] by simp
  with run s up(1,3) show ?thesis
    by (auto simp: event_step_def Let_def run_simps sleepCtx_def event_live_def event_rank_def)
qed

interpretation event_progress: progressing "event_step api ev c ctx cp handle opts" "\<lambda>st. returned st \<noteq> None"
    "\<lambda>st w. event_recovery api ev ctx cp handle lag \<and> ctId c \<noteq> None \<and> event_live c ctx st w" "event_rank lag" handled
    for api ev c ctx cp handle opts lag
proof unfold_locales
  fix st t :: "lpoint \<times> Duration" and w v :: "'a world"
  assume st: "event_recovery api ev ctx cp handle lag \<and> ctId c \<noteq> None \<and> event_live c ctx st w"
  then show "\<not> returned st \<noteq> None" by (auto simp: event_live_def returned_def split: lpoint.splits)
  assume run: "run_state (event_step api ev c ctx cp handle opts st) w = (t, v)"
  obtain p b where p: "st = (p, b)" by fastforce
  from st have rec: "event_recovery api ev ctx cp handle lag" and live: "event_live c ctx (p, b) w" and "ctId c \<noteq> None" by (simp_all add: p)
  then obtain i where i: "ctId c = Some i" "\<not> closed w (fcAddr (ctFc c))" by (auto simp: event_live_def)
  have "event_live c ctx t v \<and> (\<exists>es. trace v = trace w @ es \<and> (handled es \<noteq> [] \<or> event_rank lag t v < event_rank lag st w))"
  proof (cases p)
    case Connecting
    with event_connect_progress [OF rec i] run show ?thesis unfolding p by blast
  next
    case (Streaming s)
    with event_stream_progress [OF rec] live run show ?thesis unfolding p by blast
  next
    case (StreamEnded err)
    with event_sleep_progress [OF rec] live run show ?thesis unfolding p by blast
  qed (use live in \<open>simp add: event_live_def\<close>)
  with st show "(event_recovery api ev ctx cp handle lag \<and> ctId c \<noteq> None \<and> event_live c ctx t v) \<and>
    (\<exists>es. trace v = trace w @ es \<and> (handled es \<noteq> [] \<or> event_rank lag t v < event_rank lag st w))" by blast
qed simp

text \<open>
  C6: every event is delivered. If the network recovers from each failure, the context does not end
  and neither handler nor checkpoint fails, then for every number of events there is a number of
  steps from which on the listener, which is still running, has called its handler with at least so many
  events: those of the ledger from the recorded position on, in order, each exactly once, and the
  position is after the last of them.
\<close>

theorem listener_delivers:
  assumes "event_feed api ev cp handle ledger pos cur" and "event_recovery api ev ctx cp handle lag"
    and "pos (ext w) = Some k" and "ctId c \<noteq> None" and "\<not> closed w (fcAddr (ctFc c))"
  shows "\<exists>n. \<forall>n'\<ge>n. \<exists>w' j. run_state (ListenChaincodeEvents api ev n' c ctx (Some cp) (Some handle) opts) w = (None, w') \<and> m \<le> j \<and>
    handled (added w w') = map (\<lambda>i. convert (ledger i)) [k..<k + j] \<and> pos (ext w') = Some (k + j)"
proof -
  let ?st = "(Connecting, eoMinBackoff (event_options c opts))"
  have "event_live c ctx ?st w" using assms(5) by (simp add: event_live_def)
  with assms(2,4) have "event_recovery api ev ctx cp handle lag \<and> ctId c \<noteq> None \<and> event_live c ctx ?st w" by blast
  from event_progress.eventually_seen [OF this, of opts m] obtain n where
    n: "\<And>n'. n \<le> n' \<Longrightarrow> \<exists>t v. run_state (iterate (event_step api ev c ctx cp handle opts) n' ?st) w = (t, v) \<and> \<not> returned t \<noteq> None \<and>
      m \<le> length (handled (added w v))" by blast
  have "\<exists>w' j. run_state (ListenChaincodeEvents api ev n' c ctx (Some cp) (Some handle) opts) w = (None, w') \<and> m \<le> j \<and>
    handled (added w w') = map (\<lambda>i. convert (ledger i)) [k..<k + j] \<and> pos (ext w') = Some (k + j)" if n': "n \<le> n'" for n'
  proof -
    from n [OF n'] obtain t w' where "run_state (iterate (event_step api ev c ctx cp handle opts) n' ?st) w = (t, w')" "returned t = None"
      and len: "m \<le> length (handled (added w w'))" by blast
    then have run: "run_state (ListenChaincodeEvents api ev n' c ctx (Some cp) (Some handle) opts) w = (None, w')"
      by (simp add: ListenChaincodeEvents_def)
    from listener_positions [OF assms(1,3) run] obtain k' where
      k': "k \<le> k'" "handled (added w w') = map (\<lambda>i. convert (ledger i)) [k..<k']" "pos (ext w') = Some k'" by blast
    have "k + (k' - k) = k'" "m \<le> k' - k" using k'(1) len unfolding k'(2) by simp_all
    with run k' show ?thesis by (intro exI [of _ w'] exI [of _ "k' - k"]) simp
  qed
  then show ?thesis by blast
qed

section \<open>The block listener\<close>

definition block_live :: "Contract \<Rightarrow> bpoint \<times> Duration \<Rightarrow> 'w world \<Rightarrow> bool" where
  "block_live c st w =
     (\<not> closed w (fcAddr (ctFc c)) \<and>
      (case fst st of
         BEnded err \<Rightarrow> errors_As as_HandlerError err = None \<and> (err = None \<or> reconnectable err)
       | BReturned r \<Rightarrow> False
       | _ \<Rightarrow> True))"

definition block_rank :: "('w \<Rightarrow> nat) \<Rightarrow> bpoint \<times> Duration \<Rightarrow> 'w world \<Rightarrow> nat" where
  "block_rank lag st w = 3 * lag (ext w) + (case fst st of BEnded e \<Rightarrow> 2 | BConnecting \<Rightarrow> 1 | _ \<Rightarrow> 0)"

lemma block_connect_progress:
  assumes rec: "block_recovery api ev ctx cp handle lag" and c: "ctId c = Some i" "\<not> closed w (fcAddr (ctFc c))"
    and run: "run_state (block_step api ev c ctx cp handle opts (BConnecting, b)) w = (t, v)"
  shows "block_live c t v \<and> (\<exists>es. trace v = trace w @ es \<and> block_rank lag t v < block_rank lag (BConnecting, b) w)"
proof -
  note up = block_recoveryD(1) [OF rec]
  let ?os = "(case eoStartBlock (event_options c opts) of Some n \<Rightarrow> [WithStartBlock n] | None \<Rightarrow> []) @ [WithCheckpoint cp]"
  from gateway_up [OF up c] obtain g r x where g: "run_state (gateway api c) w = (Inr (g, r), w\<lparr>ext := x, trace := trace w @ opens r\<rparr>)"
    "lag x \<le> lag (ext w)" .
  obtain u y where u: "Network_BlockEvents ev g (ctChannel c) (WithCancel ctx) ?os x = (u, y)" by fastforce
  note step = block_step_def block_open_def session_end_def Let_def run_simps stop_def g(1) u
  show ?thesis
  proof (cases u)
    case (Inl e)
    let ?e = "Some (classifyErr api e '''' phaseEvaluate True)"
    from block_recoveryD(2) [OF rec u [unfolded Inl]] keeps_upD(7) [OF up, of r y] g(2)
    have "reconnectable ?e" "errors_As as_HandlerError ?e = None" "lag (release_ext api r y) < lag (ext w)" by auto
    with run Inl c(2) show ?thesis by (auto simp: step block_live_def block_rank_def)
  next
    case (Inr s)
    from block_recoveryD(3) [OF rec u [unfolded Inr]] g(2) have "lag y \<le> lag (ext w)" by simp
    with run Inr c(2) show ?thesis by (auto simp: step block_live_def block_rank_def)
  qed
qed

lemma block_stream_progress:
  assumes rec: "block_recovery api ev ctx cp handle lag" and s: "\<not> closed w (fcAddr (ctFc c))"
    and run: "run_state (block_step api ev c ctx cp handle opts (BStreaming s, b)) w = (t, v)"
  shows "block_live c t v \<and> (\<exists>es. trace v = trace w @ es \<and> (handled_blocks es \<noteq> [] \<or> block_rank lag t v < block_rank lag (BStreaming s, b) w))"
proof -
  note up = block_recoveryD(1) [OF rec]
  obtain e x where e: "recv_block ev (bsBlocks s) (ext w) = (e, x)" by fastforce
  show ?thesis
  proof (cases e)
    case None
    let ?z = "release_ext api (bsRelease s) x"
    have "t = (BEnded None, b)" "ext v = ?z" "trace v = trace w @ closes (bsRelease s)" "closed v = closed w"
      using run by (auto simp: block_step_def block_next_def e None session_end_def stop_def run_simps)
    moreover have "lag ?z < lag (ext w)"
      using block_recoveryD(4) [OF rec e [unfolded None]] keeps_upD(7) [OF up, of "bsRelease s" x] by simp
    ultimately show ?thesis using s by (simp add: block_live_def block_rank_def errors_As_def)
  next
    case (Some n)
    obtain h where h: "handle ctx n x = (None, h)" using block_recoveryD(5) [OF rec] by (metis prod.collapse)
    obtain k where k: "CheckpointBlock ev cp (Block_Number ev n) h = (None, k)" using block_recoveryD(6) [OF rec] by (metis prod.collapse)
    have "fst t = BStreaming s" "trace v = trace w @ [EHandleBlock n, ECheckpointBlock (Block_Number ev n)]" "closed v = closed w"
      using run by (auto simp: block_step_def block_next_def e Some h k)
    then show ?thesis using s by (simp add: block_live_def)
  qed
qed

lemma block_sleep_progress:
  assumes rec: "block_recovery api ev ctx cp handle lag" and s: "block_live c (BEnded err, b) w"
    and run: "run_state (block_step api ev c ctx cp handle opts (BEnded err, b)) w = (t, v)"
  shows "block_live c t v \<and> (\<exists>es. trace v = trace w @ es \<and> block_rank lag t v < block_rank lag (BEnded err, b) w)"
proof -
  note up = keeps_upD [OF block_recoveryD(1) [OF rec]]
  let ?x = "snd (ctx_ended ev ctx (ext w))"
  have "lag (snd (timer_fires ev ctx b ?x)) \<le> lag (ext w)" using up(2) [of "ext w"] up(4) [of b ?x] by simp
  with run s up(1,3) show ?thesis
    by (auto simp: block_step_def Let_def run_simps sleepCtx_def block_live_def block_rank_def)
qed

interpretation block_progress: progressing "block_step api ev c ctx cp handle opts" "\<lambda>st. breturned st \<noteq> None"
    "\<lambda>st w. block_recovery api ev ctx cp handle lag \<and> ctId c \<noteq> None \<and> block_live c st w" "block_rank lag" handled_blocks
    for api ev c ctx cp handle opts lag
proof unfold_locales
  fix st t :: "bpoint \<times> Duration" and w v :: "'a world"
  assume st: "block_recovery api ev ctx cp handle lag \<and> ctId c \<noteq> None \<and> block_live c st w"
  then show "\<not> breturned st \<noteq> None" by (auto simp: block_live_def breturned_def split: bpoint.splits)
  assume run: "run_state (block_step api ev c ctx cp handle opts st) w = (t, v)"
  obtain p b where p: "st = (p, b)" by fastforce
  from st have rec: "block_recovery api ev ctx cp handle lag" and live: "block_live c (p, b) w" and "ctId c \<noteq> None" by (simp_all add: p)
  then obtain i where i: "ctId c = Some i" "\<not> closed w (fcAddr (ctFc c))" by (auto simp: block_live_def)
  have "block_live c t v \<and> (\<exists>es. trace v = trace w @ es \<and> (handled_blocks es \<noteq> [] \<or> block_rank lag t v < block_rank lag st w))"
  proof (cases p)
    case BConnecting
    with block_connect_progress [OF rec i] run show ?thesis unfolding p by blast
  next
    case (BStreaming s)
    with block_stream_progress [OF rec i(2)] run show ?thesis unfolding p by blast
  next
    case (BEnded err)
    with block_sleep_progress [OF rec] live run show ?thesis unfolding p by blast
  qed (use live in \<open>simp add: block_live_def\<close>)
  with st show "(block_recovery api ev ctx cp handle lag \<and> ctId c \<noteq> None \<and> block_live c t v) \<and>
    (\<exists>es. trace v = trace w @ es \<and> (handled_blocks es \<noteq> [] \<or> block_rank lag t v < block_rank lag st w))" by blast
qed simp

lemma block_listener_positions:
  assumes "block_feed api ev cp handle ledger pos cur" and "pos (ext w) = Some k0"
    and "run_state (iterate (block_step api ev c ctx cp handle opts) n (BConnecting, eoMinBackoff (event_options c opts))) w = (st, w')"
    and "block_live c st w'"
  shows "\<exists>k\<ge>k0. handled_blocks (added w w') = map ledger [k0..<k] \<and> pos (ext w') = Some k"
proof -
  have "followed_blocks ledger pos cur w k0 (BConnecting, eoMinBackoff (event_options c opts)) w"
    using assms(2) by (auto simp: followed_blocks_def at_block_def)
  with blocks_position.iterate_keeps assms(1,3) have "followed_blocks ledger pos cur w k0 st w'" by (metis fst_conv snd_conv)
  with assms(4) show ?thesis
    by (cases "fst st") (auto simp: followed_blocks_def at_block_def block_live_def)
qed

text \<open>
  C19: every block is delivered, under the same conditions: for every number of blocks there is a
  number of steps from which on the handler has got at least so many, in ledger order from the
  recorded position on and each exactly once.
\<close>

theorem block_listener_delivers:
  assumes "block_feed api ev cp handle ledger pos cur" and "block_recovery api ev ctx cp handle lag"
    and "pos (ext w) = Some k" and "ctId c \<noteq> None" and "\<not> closed w (fcAddr (ctFc c))"
  shows "\<exists>n. \<forall>n'\<ge>n. \<exists>w' j. run_state (ListenBlocks api ev n' c ctx (Some cp) (Some handle) opts) w = (None, w') \<and> m \<le> j \<and>
    handled_blocks (added w w') = map ledger [k..<k + j] \<and> pos (ext w') = Some (k + j)"
proof -
  let ?st = "(BConnecting, eoMinBackoff (event_options c opts))"
  have "block_live c ?st w" using assms(5) by (simp add: block_live_def)
  with assms(2,4) have live: "block_recovery api ev ctx cp handle lag \<and> ctId c \<noteq> None \<and> block_live c ?st w" by blast
  from block_progress.eventually_seen [OF this, of opts m] obtain n where
    n: "\<And>n'. n \<le> n' \<Longrightarrow> \<exists>t v. run_state (iterate (block_step api ev c ctx cp handle opts) n' ?st) w = (t, v) \<and> \<not> breturned t \<noteq> None \<and>
      m \<le> length (handled_blocks (added w v))" by blast
  have "\<exists>w' j. run_state (ListenBlocks api ev n' c ctx (Some cp) (Some handle) opts) w = (None, w') \<and> m \<le> j \<and>
    handled_blocks (added w w') = map ledger [k..<k + j] \<and> pos (ext w') = Some (k + j)" if n': "n \<le> n'" for n'
  proof -
    from n [OF n'] obtain t w' where it: "run_state (iterate (block_step api ev c ctx cp handle opts) n' ?st) w = (t, w')" "breturned t = None"
      and len: "m \<le> length (handled_blocks (added w w'))" by blast
    then have run: "run_state (ListenBlocks api ev n' c ctx (Some cp) (Some handle) opts) w = (None, w')"
      by (simp add: ListenBlocks_def)
    have "block_live c t w'" using block_progress.iterate_grows [OF live it(1)] by blast
    from block_listener_positions [OF assms(1,3) it(1) this] obtain k' where
      k': "k \<le> k'" "handled_blocks (added w w') = map ledger [k..<k']" "pos (ext w') = Some k'" by blast
    have "k + (k' - k) = k'" "m \<le> k' - k" using k'(1) len unfolding k'(2) by simp_all
    with run k' show ?thesis by (intro exI [of _ w'] exI [of _ "k' - k"]) simp
  qed
  then show ?thesis by blast
qed

section \<open>A concrete network\<close>

text \<open>
  The example ledger without an end: a context that does not end, and streams that drop once at
  each of the events listed.
\<close>

definition endless_recv :: "(nat \<Rightarrow> 'a) \<Rightarrow> demo \<Rightarrow> 'a option \<times> demo" where
  "endless_recv item x =
     (if dCur x \<in> set (dDrops x) then (None, x\<lparr>dDrops := remove1 (dCur x) (dDrops x)\<rparr>)
      else (Some (item (dCur x)), x\<lparr>dCur := Suc (dCur x)\<rparr>))"

definition endless_eapi :: "demo eapi" where
  "endless_eapi = demo_block_eapi\<lparr>ctx_ended := (\<lambda>cx x. (False, x)), recv_event := (\<lambda>u. endless_recv demo_ledger),
     recv_block := (\<lambda>u. endless_recv (\<lambda>k. k))\<rparr>"

lemmas endless_defs = demo_api_def calm_api_over_def endless_eapi_def endless_recv_def demo_block_eapi_def demo_eapi_def
  demo_open_def demo_ledger_def

lemma endless_keeps_up: "keeps_up demo_api endless_eapi Background (\<lambda>x. length (dDrops x))"
  by (simp add: keeps_up_def endless_defs)

lemma endless_drop: "k \<in> set ds \<Longrightarrow> length (remove1 k ds) < length ds"
  using length_pos_if_in_set [of k ds] by (simp add: length_remove1)

lemma endless_event_recovery:
  "event_recovery demo_api endless_eapi Background (memoryCheckpointer 0) (\<lambda>cx e x. (None, x)) (\<lambda>x. length (dDrops x))"
  unfolding event_recovery_def
  by (intro conjI endless_keeps_up) (auto simp: endless_defs intro!: endless_drop split: if_splits)

lemma endless_block_recovery:
  "block_recovery demo_api endless_eapi Background (UserCheckpointer 0) (\<lambda>cx b x. (None, x)) (\<lambda>x. length (dDrops x))"
  unfolding block_recovery_def
  by (intro conjI endless_keeps_up) (auto simp: endless_defs intro!: endless_drop split: if_splits)

lemma endless_event_feed: "event_feed demo_api endless_eapi (memoryCheckpointer 0) (\<lambda>cx e x. (None, x)) demo_ledger dPos (\<lambda>u. dCur)"
  by (auto simp: event_feed_def keeps_def endless_defs split: option.splits if_splits)

lemma endless_block_feed: "block_feed demo_api endless_eapi (UserCheckpointer 0) (\<lambda>cx b x. (None, x)) (\<lambda>k. k) dPos (\<lambda>u. dCur)"
  by (auto simp: block_feed_def keeps_def endless_defs split: option.splits if_splits)

lemma endless_start: "dPos (ext (demo_world (Some 0) ds)) = Some 0" "\<not> closed (demo_world (Some 0) ds) a"
  by (simp_all add: demo_world_def)

lemma example_identity: "ctId example_contract \<noteq> None"
  by (simp add: example_contract_def FabricClient_Contract_def)

theorem listener_delivers_witness:
  "\<exists>n. \<forall>n'\<ge>n. \<exists>w' j. run_state (ListenChaincodeEvents demo_api endless_eapi n' example_contract Background
      (Some (memoryCheckpointer 0)) (Some (\<lambda>cx e x. (None, x))) []) (demo_world (Some 0) [2, 2, 5]) = (None, w') \<and> 7 \<le> j \<and>
    handled (added (demo_world (Some 0) [2, 2, 5]) w') = map (\<lambda>i. convert (demo_ledger i)) [0..<0 + j] \<and> dPos (ext w') = Some (0 + j)"
  by (rule listener_delivers [OF endless_event_feed endless_event_recovery endless_start(1) example_identity endless_start(2)])

theorem block_listener_delivers_witness:
  "\<exists>n. \<forall>n'\<ge>n. \<exists>w' j. run_state (ListenBlocks demo_api endless_eapi n' example_contract Background
      (Some (UserCheckpointer 0)) (Some (\<lambda>cx b x. (None, x))) []) (demo_world (Some 0) [2, 2, 5]) = (None, w') \<and> 7 \<le> j \<and>
    handled_blocks (added (demo_world (Some 0) [2, 2, 5]) w') = map (\<lambda>k. k) [0..<0 + j] \<and> dPos (ext w') = Some (0 + j)"
  by (rule block_listener_delivers [OF endless_block_feed endless_block_recovery endless_start(1) example_identity endless_start(2)])

end
