(* ===== verification/Restarts.thy ===== *)
theory Restarts
  imports Listeners
begin

text \<open>
  Crashes and restarts of a process that runs a listener of \<open>src/events.go\<close>. A listener records its
  position after the handler returns, so a process that is killed in between delivers that event
  again when it is started anew; the documentation of \<open>ListenChaincodeEvents\<close> says so. The locale
  \<open>restartable\<close> turns what one life of a process promises into what holds over any number of
  lives; it is interpreted for the event and the block listener.
\<close>

section \<open>One life of a listening process\<close>

text \<open>
  The step of a listener that reads a stream, in two parts: the event or block is received and
  handled, and then recorded. A process may die between them.
\<close>

definition event_deliver :: "'w api \<Rightarrow> 'w eapi \<Rightarrow> Ctx \<Rightarrow> 'w EventHandler \<Rightarrow> EventStream \<Rightarrow> ('w, (ChaincodeEvent \<times> err option) option) op" where
  "event_deliver api ev ctx handle s =
     do { r \<leftarrow> stream_recv api ev s;
          case r of
            None \<Rightarrow> State_Monad.return None
          | Some e \<Rightarrow> do { emit (EHandle e); herr \<leftarrow> outside (handle ctx e); State_Monad.return (Some (e, herr)) } }"

definition event_record :: "'w eapi \<Rightarrow> Contract \<Rightarrow> Checkpointer \<Rightarrow> EventOption list \<Rightarrow> EventStream \<Rightarrow> Duration \<Rightarrow>
    (ChaincodeEvent \<times> err option) option \<Rightarrow> ('w, lpoint \<times> Duration) op" where
  "event_record ev c cp opts s backoff r =
     (case r of
        None \<Rightarrow> do { e \<leftarrow> EventStream_Err s; State_Monad.return (StreamEnded e, backoff) }
      | Some (e, herr) \<Rightarrow>
          if herr \<noteq> None
          then do { EventStream_Close s; State_Monad.return (Returned herr, backoff) }
          else do { emit (ECheckpointTx (evBlockNumber e) (evTxID e));
                    cerr \<leftarrow> outside (CheckpointTransaction ev cp (evBlockNumber e) (evTxID e));
                    if cerr \<noteq> None
                    then do { EventStream_Close s; State_Monad.return (Returned cerr, backoff) }
                    else State_Monad.return (Streaming s, eoMinBackoff (event_options c opts)) })"

definition block_deliver :: "'w eapi \<Rightarrow> Ctx \<Rightarrow> 'w BlockHandler \<Rightarrow> BlockSession \<Rightarrow> ('w, (nat \<times> err option) option) op" where
  "block_deliver ev ctx handle s =
     do { r \<leftarrow> outside (recv_block ev (bsBlocks s));
          case r of
            None \<Rightarrow> State_Monad.return None
          | Some b \<Rightarrow> do { emit (EHandleBlock b); herr \<leftarrow> outside (handle ctx b); State_Monad.return (Some (b, herr)) } }"

definition block_record :: "'w api \<Rightarrow> 'w eapi \<Rightarrow> Checkpointer \<Rightarrow> BlockSession \<Rightarrow> (nat \<times> err option) option \<Rightarrow> ('w, err option option) op" where
  "block_record api ev cp s r =
     (case r of
        None \<Rightarrow> do { session_end api (bsAddr s) (bsRelease s); State_Monad.return (Some None) }
      | Some (b, Some e) \<Rightarrow> do { session_end api (bsAddr s) (bsRelease s); State_Monad.return (Some (Some (HandlerError e))) }
      | Some (b, None) \<Rightarrow>
          do { emit (ECheckpointBlock (Block_Number ev b));
               cerr \<leftarrow> outside (CheckpointBlock ev cp (Block_Number ev b));
               case cerr of
                 Some e \<Rightarrow> do { session_end api (bsAddr s) (bsRelease s); State_Monad.return (Some (Some (HandlerError e))) }
               | None \<Rightarrow> State_Monad.return None })"

text \<open>The two parts make up the step.\<close>

lemma event_step_parts:
  "run_state (event_step api ev c ctx cp handle opts (Streaming s, b)) w =
     run_state (do { r \<leftarrow> event_deliver api ev ctx handle s; event_record ev c cp opts s b r }) w"
  by (auto simp: event_step_def event_deliver_def event_record_def Let_def split: prod.split option.split)

lemma block_next_parts:
  "run_state (block_next api ev ctx cp handle s) w =
     run_state (do { r \<leftarrow> block_deliver ev ctx handle s; block_record api ev cp s r }) w"
  by (auto simp: block_next_def block_deliver_def block_record_def split: prod.split option.split)

text \<open>
  One life of a process that listens, from its start in \<open>v\<close> to the world \<open>v'\<close> it leaves behind: it
  ends after some number of steps, by returning or by being killed, or is killed between the
  handler and the checkpoint. For what was handled and recorded, every other moment is one of
  these.
\<close>

inductive event_life :: "'w api \<Rightarrow> 'w eapi \<Rightarrow> Contract \<Rightarrow> Ctx \<Rightarrow> Checkpointer \<Rightarrow> 'w EventHandler \<Rightarrow> EventOption list \<Rightarrow>
    'w world \<Rightarrow> 'w world \<Rightarrow> bool" for api ev c ctx cp handle opts where
  between_events: "run_state (iterate (event_step api ev c ctx cp handle opts) n (Connecting, eoMinBackoff (event_options c opts))) v = (st, v') \<Longrightarrow>
    event_life api ev c ctx cp handle opts v v'"
| before_checkpoint: "run_state (iterate (event_step api ev c ctx cp handle opts) n (Connecting, eoMinBackoff (event_options c opts))) v =
      ((Streaming s, b), u) \<Longrightarrow>
    run_state (event_deliver api ev ctx handle s) u = (r, v') \<Longrightarrow> event_life api ev c ctx cp handle opts v v'"

inductive block_life :: "'w api \<Rightarrow> 'w eapi \<Rightarrow> Contract \<Rightarrow> Ctx \<Rightarrow> Checkpointer \<Rightarrow> 'w BlockHandler \<Rightarrow> EventOption list \<Rightarrow>
    'w world \<Rightarrow> 'w world \<Rightarrow> bool" for api ev c ctx cp handle opts where
  between_blocks: "run_state (iterate (block_step api ev c ctx cp handle opts) n (BConnecting, eoMinBackoff (event_options c opts))) v = (st, v') \<Longrightarrow>
    block_life api ev c ctx cp handle opts v v'"
| before_checkpoint: "run_state (iterate (block_step api ev c ctx cp handle opts) n (BConnecting, eoMinBackoff (event_options c opts))) v =
      ((BStreaming s, b), u) \<Longrightarrow>
    run_state (block_deliver ev ctx handle s) u = (r, v') \<Longrightarrow> block_life api ev c ctx cp handle opts v v'"

section \<open>Any number of lives\<close>

text \<open>
  A process that is started again and again: each life begins in some world with the position the
  last one left. The list holds what each life handled.
\<close>

inductive restarts :: "('w world \<Rightarrow> 'w world \<Rightarrow> bool) \<Rightarrow> ('w \<Rightarrow> nat option) \<Rightarrow> (effect list \<Rightarrow> 'a list) \<Rightarrow> nat option \<Rightarrow> 'a list list \<Rightarrow> bool"
  for life pos seen where
  never: "restarts life pos seen p []"
| again: "pos (ext v) = p \<Longrightarrow> life v v' \<Longrightarrow> restarts life pos seen (pos (ext v')) hs \<Longrightarrow>
    restarts life pos seen p (seen (added v v') # hs)"

text \<open>
  The ranges of the ledger that the lives handled: each begins where the last one ended, or with
  its last event once more.
\<close>

fun resumes :: "nat \<Rightarrow> (nat \<times> nat) list \<Rightarrow> bool" where
  "resumes k [] = True"
| "resumes k ((a, b) # rs) = (a = k \<and> a \<le> b \<and> (resumes b rs \<or> a < b \<and> resumes (b - 1) rs))"

definition covered :: "(nat \<times> nat) list \<Rightarrow> nat set" where
  "covered rs = (\<Union>(a, b) \<in> set rs. {a..<b})"

lemma resumes_no_gap: "resumes k rs \<Longrightarrow> \<exists>m\<ge>k. covered rs = {k..<m} \<and> sum_list (map (\<lambda>(a, b). b - a) rs) \<le> m - k + (length rs - 1)"
proof (induction k rs rule: resumes.induct)
  case (2 k a b rs)
  from "2.prems" consider "resumes b rs" | "a < b" "resumes (b - 1) rs" by auto
  then show ?case
  proof cases
    case 1
    from "2.IH"(1) [OF this] obtain m where "b \<le> m" "covered rs = {b..<m}" "sum_list (map (\<lambda>(a, b). b - a) rs) \<le> m - b + (length rs - 1)" by blast
    with "2.prems" show ?thesis by (intro exI [of _ m]) (auto simp: covered_def)
  next
    case two: 2
    from "2.IH"(2) [OF two(2)] obtain m where m: "b - 1 \<le> m" "covered rs = {b - 1..<m}" "sum_list (map (\<lambda>(a, b). b - a) rs) \<le> m - (b - 1) + (length rs - 1)" by blast
    show ?thesis
    proof (cases rs)
      case Nil
      with "2.prems" show ?thesis by (intro exI [of _ b]) (auto simp: covered_def)
    next
      case (Cons r rs')
      with m two "2.prems" show ?thesis by (intro exI [of _ "max m b"]) (auto simp: covered_def)
    qed
  qed
qed (auto simp: covered_def)

locale restartable =
  fixes life :: "'w world \<Rightarrow> 'w world \<Rightarrow> bool" and pos :: "'w \<Rightarrow> nat option" and seen :: "effect list \<Rightarrow> 'a list" and item :: "nat \<Rightarrow> 'a"
  assumes life_follows: "life v v' \<Longrightarrow> pos (ext v) = Some k \<Longrightarrow>
    \<exists>m\<ge>k. seen (added v v') = map item [k..<m] \<and> (pos (ext v') = Some m \<or> k < m \<and> pos (ext v') = Some (m - 1))"
begin

lemma lives_resume:
  "restarts life pos seen p hs \<Longrightarrow> p = Some k \<Longrightarrow> \<exists>rs. resumes k rs \<and> hs = map (\<lambda>(a, b). map item [a..<b]) rs"
proof (induction arbitrary: k rule: restarts.induct)
  case (never p)
  then show ?case by (intro exI [of _ "[]"]) simp
next
  case (again v p v' hs)
  then obtain m where m: "k \<le> m" "seen (added v v') = map item [k..<m]" "pos (ext v') = Some m \<or> k < m \<and> pos (ext v') = Some (m - 1)"
    using life_follows [of v v' k] by auto
  from m(3) obtain j rs where j: "j = m \<or> k < m \<and> j = m - 1" "resumes j rs" "hs = map (\<lambda>(a, b). map item [a..<b]) rs"
    using again.IH by blast
  with m show ?case by (intro exI [of _ "(k, m) # rs"]) auto
qed

text \<open>Nothing is skipped, and each restart repeats at most one.\<close>

lemma lives_complete:
  assumes "restarts life pos seen (Some k) hs"
  shows "\<exists>m\<ge>k. set (concat hs) = item ` {k..<m} \<and> length (concat hs) \<le> m - k + (length hs - 1)"
proof -
  from lives_resume [OF assms] obtain rs where rs: "resumes k rs" "hs = map (\<lambda>(a, b). map item [a..<b]) rs" by auto
  from resumes_no_gap [OF rs(1)] obtain m where m: "m \<ge> k" "covered rs = {k..<m}" "sum_list (map (\<lambda>(a, b). b - a) rs) \<le> m - k + (length rs - 1)" by blast
  have "set (concat hs) = item ` covered rs" by (auto simp: rs(2) covered_def)
  moreover have "length (concat hs) = sum_list (map (\<lambda>(a, b). b - a) rs)" by (simp add: rs(2) length_concat comp_def case_prod_beta')
  ultimately show ?thesis using m rs(2) by auto
qed

end

section \<open>The two listeners\<close>

lemma event_deliver_pos:
  assumes feed: "event_feed api ev cp handle ledger pos cur" and run: "run_state (event_deliver api ev ctx handle s) w = (r, w')"
  shows "pos (ext w') = pos (ext w) \<and> (\<exists>es. trace w' = trace w @ es \<and>
    handled es = (if r = None then [] else [convert (ledger (cur (esUpstream s) (ext w)))]))"
proof -
  obtain q w1 where q: "run_state (stream_recv api ev s) w = (q, w1)" by fastforce
  from stream_recv_pos [OF feed q] event_feed_keeps(6) [OF feed] run q show ?thesis
    by (cases q) (auto simp: event_deliver_def)
qed

lemma event_life_follows:
  assumes feed: "event_feed api ev cp handle ledger pos cur" and life: "event_life api ev c ctx cp handle opts v v'"
    and k: "pos (ext v) = Some k"
  shows "\<exists>m\<ge>k. handled (added v v') = map (\<lambda>i. convert (ledger i)) [k..<m] \<and>
    (pos (ext v') = Some m \<or> k < m \<and> pos (ext v') = Some (m - 1))"
proof -
  have inv: "followed ledger pos cur v k st u"
    if "run_state (iterate (event_step api ev c ctx cp handle opts) n (Connecting, eoMinBackoff (event_options c opts))) v = (st, u)" for n st u
  proof -
    have "followed ledger pos cur v k (Connecting, eoMinBackoff (event_options c opts)) v"
      using k by (auto simp: followed_def at_position_def)
    with events_position.iterate_keeps feed that show ?thesis by (metis fst_conv snd_conv)
  qed
  from life show ?thesis
  proof cases
    case (between_events n st)
    from inv [OF this] show ?thesis
      by (cases "fst st") (auto simp: followed_def at_position_def split: option.splits)
  next
    case (before_checkpoint n s b u r)
    from inv [OF before_checkpoint(1)] obtain m es where m: "k \<le> m" "trace u = trace v @ es" "handled es = map (\<lambda>i. convert (ledger i)) [k..<m]"
      "pos (ext u) = Some m" "cur (esUpstream s) (ext u) = m" by (auto simp: followed_def at_position_def)
    with event_deliver_pos [OF feed before_checkpoint(2)] show ?thesis
      by (cases r) (auto intro: exI [of _ m] exI [of _ "Suc m"])
  qed
qed

interpretation event_lives: restartable "\<lambda>v v'. event_feed api ev cp handle ledger pos cur \<and> event_life api ev c ctx cp handle opts v v'"
    pos handled "\<lambda>i. convert (ledger i)" for api ev cp handle ledger pos cur c ctx opts
  by unfold_locales (use event_life_follows in blast)

lemma block_deliver_pos:
  assumes feed: "block_feed api ev cp handle ledger pos cur" and run: "run_state (block_deliver ev ctx handle s) w = (r, w')"
  shows "pos (ext w') = pos (ext w) \<and> (\<exists>es. trace w' = trace w @ es \<and>
    handled_blocks es = (if r = None then [] else [ledger (cur (bsBlocks s) (ext w))]))"
proof -
  obtain q x where q: "recv_block ev (bsBlocks s) (ext w) = (q, x)" by fastforce
  from block_feedD(3) [OF feed q] block_feedD(4) [OF feed, of "bsBlocks s" "ext w"] block_feed_keeps(3) [OF feed] run q show ?thesis
    by (cases q) (auto simp: block_deliver_def)
qed

lemma block_life_follows:
  assumes feed: "block_feed api ev cp handle ledger pos cur" and life: "block_life api ev c ctx cp handle opts v v'"
    and k: "pos (ext v) = Some k"
  shows "\<exists>m\<ge>k. handled_blocks (added v v') = map ledger [k..<m] \<and>
    (pos (ext v') = Some m \<or> k < m \<and> pos (ext v') = Some (m - 1))"
proof -
  have inv: "followed_blocks ledger pos cur v k st u"
    if "run_state (iterate (block_step api ev c ctx cp handle opts) n (BConnecting, eoMinBackoff (event_options c opts))) v = (st, u)" for n st u
  proof -
    have "followed_blocks ledger pos cur v k (BConnecting, eoMinBackoff (event_options c opts)) v"
      using k by (auto simp: followed_blocks_def at_block_def)
    with blocks_position.iterate_keeps feed that show ?thesis by (metis fst_conv snd_conv)
  qed
  from life show ?thesis
  proof cases
    case (between_blocks n st)
    from inv [OF this] show ?thesis
      by (cases "fst st") (auto simp: followed_blocks_def at_block_def)
  next
    case (before_checkpoint n s b u r)
    from inv [OF before_checkpoint(1)] obtain m es where m: "k \<le> m" "trace u = trace v @ es" "handled_blocks es = map ledger [k..<m]"
      "pos (ext u) = Some m" "cur (bsBlocks s) (ext u) = m" by (auto simp: followed_blocks_def at_block_def)
    with block_deliver_pos [OF feed before_checkpoint(2)] show ?thesis
      by (cases r) (auto intro: exI [of _ m] exI [of _ "Suc m"])
  qed
qed

interpretation block_lives: restartable "\<lambda>v v'. block_feed api ev cp handle ledger pos cur \<and> block_life api ev c ctx cp handle opts v v'"
    pos handled_blocks ledger for api ev cp handle ledger pos cur c ctx opts
  by unfold_locales (use block_life_follows in blast)

text \<open>
  C7: at least once, across crashes. A process that listens to chaincode events may be stopped or
  killed at any moment, also between the handler and the checkpoint, and started again any number
  of times. If the checkpointer keeps its position, the handler gets, over all its lives, every
  event of the ledger from the first position on without a gap, in each life in ledger order, and
  each restart repeats at most one event: the last one handled before it.
\<close>

theorem events_survive_restarts:
  assumes "event_feed api ev cp handle ledger pos cur"
    and "restarts (event_life api ev c ctx cp handle opts) pos handled (Some k) hs"
  shows "(\<exists>rs. resumes k rs \<and> hs = map (\<lambda>(a, b). map (\<lambda>i. convert (ledger i)) [a..<b]) rs) \<and>
    (\<exists>m\<ge>k. set (concat hs) = (\<lambda>i. convert (ledger i)) ` {k..<m} \<and> length (concat hs) \<le> m - k + (length hs - 1))"
proof -
  have "restarts (\<lambda>v v'. event_feed api ev cp handle ledger pos cur \<and> event_life api ev c ctx cp handle opts v v') pos handled (Some k) hs"
    using assms by simp
  from event_lives.lives_resume [OF this refl] event_lives.lives_complete [OF this] show ?thesis by blast
qed

text \<open>
  C18: the same of blocks. Over all the lives of a process that listens to blocks, its handler gets
  every block from the first position on without a gap, and each restart repeats at most one.
\<close>

theorem blocks_survive_restarts:
  assumes "block_feed api ev cp handle ledger pos cur"
    and "restarts (block_life api ev c ctx cp handle opts) pos handled_blocks (Some k) hs"
  shows "(\<exists>rs. resumes k rs \<and> hs = map (\<lambda>(a, b). map ledger [a..<b]) rs) \<and>
    (\<exists>m\<ge>k. set (concat hs) = ledger ` {k..<m} \<and> length (concat hs) \<le> m - k + (length hs - 1))"
proof -
  have "restarts (\<lambda>v v'. block_feed api ev cp handle ledger pos cur \<and> block_life api ev c ctx cp handle opts v v') pos handled_blocks (Some k) hs"
    using assms by simp
  from block_lives.lives_resume [OF this refl] block_lives.lives_complete [OF this] show ?thesis by blast
qed

section \<open>A concrete crash\<close>

text \<open>
  The example ledger: the first life connects, handles event 0 and is killed before the checkpoint;
  the second handles event 0 again and goes on with event 1.
\<close>

abbreviation "demo_listener \<equiv> event_step demo_api demo_eapi example_contract Background (memoryCheckpointer 0) (\<lambda>cx e x. (None, x)) []"

abbreviation "demo_process \<equiv> event_life demo_api demo_eapi example_contract Background (memoryCheckpointer 0) (\<lambda>cx e x. (None, x)) []"

lemma example_backoff: "eoMinBackoff (event_options c []) = Second"
  by (simp add: event_options_def Let_def Second_def)

lemma demo_first_life:
  "\<exists>s b u r v'. run_state (iterate demo_listener 1 (Connecting, Second)) (demo_world (Some 0) [2]) = ((Streaming s, b), u) \<and>
     run_state (event_deliver demo_api demo_eapi Background (\<lambda>cx e x. (None, x)) s) u = (r, v') \<and>
     handled (added (demo_world (Some 0) [2]) v') = [convert (demo_ledger 0)] \<and> dPos (ext v') = Some 0"
  by (simp add: demo_run Let_def event_deliver_def added_def)

lemma demo_second_life:
  "\<exists>st v'. run_state (iterate demo_listener 3 (Connecting, Second)) (demo_world (Some 0) [2]) = (st, v') \<and>
     handled (added (demo_world (Some 0) [2]) v') = [convert (demo_ledger 0), convert (demo_ledger 1)]"
  by (simp add: run_iterate_numeral demo_run Let_def added_def del: iterate.simps(2) CheckpointTransaction.simps)

theorem events_survive_restarts_witness:
  "\<exists>v1 v2 m. demo_process (demo_world (Some 0) [2]) v1 \<and> handled (added (demo_world (Some 0) [2]) v1) = [convert (demo_ledger 0)] \<and>
     demo_process (demo_world (Some 0) [2]) v2 \<and> handled (added (demo_world (Some 0) [2]) v2) = [convert (demo_ledger 0), convert (demo_ledger 1)] \<and>
     set (concat [handled (added (demo_world (Some 0) [2]) v1), handled (added (demo_world (Some 0) [2]) v2)])
       = (\<lambda>i. convert (demo_ledger i)) ` {0..<m} \<and> 3 \<le> m + 1"
proof -
  let ?w = "demo_world (Some 0) [2]"
  from demo_first_life obtain s b u r v1 where v1: "run_state (iterate demo_listener 1 (Connecting, Second)) ?w = ((Streaming s, b), u)"
    "run_state (event_deliver demo_api demo_eapi Background (\<lambda>cx e x. (None, x)) s) u = (r, v1)"
    "handled (added ?w v1) = [convert (demo_ledger 0)]" "dPos (ext v1) = Some 0" by blast
  from demo_second_life obtain st v2 where v2: "run_state (iterate demo_listener 3 (Connecting, Second)) ?w = (st, v2)"
    "handled (added ?w v2) = [convert (demo_ledger 0), convert (demo_ledger 1)]" by blast
  have lives: "demo_process ?w v1" "demo_process ?w v2"
    by (rule event_life.before_checkpoint [OF _ v1(2)], unfold example_backoff, rule v1(1))
      (rule event_life.between_events, unfold example_backoff, rule v2(1))
  have pos: "dPos (ext ?w) = Some 0" by (simp add: demo_world_def)
  have "restarts demo_process dPos handled (Some 0) [handled (added ?w v1), handled (added ?w v2)]"
    by (intro restarts.again restarts.never pos lives) (simp add: v1(4) pos)
  from events_survive_restarts [OF demo_feed this, unfolded v1(3) v2(2)] obtain m where
    m: "set (concat [[convert (demo_ledger 0)], [convert (demo_ledger 0), convert (demo_ledger 1)]]) = (\<lambda>i. convert (demo_ledger i)) ` {0..<m}" "length (concat [[convert (demo_ledger 0)], [convert (demo_ledger 0), convert (demo_ledger 1)]]) \<le> m - 0 + (length [[convert (demo_ledger 0)], [convert (demo_ledger 0), convert (demo_ledger 1)]] - 1)"
    by blast
  from m(2) have "3 \<le> m + 1" by simp
  with lives v1(3) v2(2) m(1) show ?thesis
    by (intro exI [of _ v1] exI [of _ v2] exI [of _ m]) (simp only: conj_absorb simp_thms)
qed

abbreviation "demo_block_listener \<equiv> block_step demo_api demo_block_eapi example_contract Background (UserCheckpointer 0) (\<lambda>cx b x. (None, x)) []"

abbreviation "demo_block_process \<equiv> block_life demo_api demo_block_eapi example_contract Background (UserCheckpointer 0) (\<lambda>cx b x. (None, x)) []"

lemma demo_block_simps:
  "Network_BlockEvents demo_block_eapi gw ch cx os x = demo_open x"
  "recv_block demo_block_eapi u x = (case demo_recv x of (b, y) \<Rightarrow> (if b then Some (dCur x) else None, y))"
  "CheckpointBlock demo_block_eapi (UserCheckpointer u) n x = (None, x\<lparr>dPos := map_option Suc (dPos x)\<rparr>)"
  by (simp_all add: demo_block_eapi_def demo_eapi_def)

lemmas demo_block_run = demo_block_simps demo_open_def demo_recv_def demo_world_def block_step_def block_open_def block_next_def
  gateway_def run_simps

lemma demo_first_block_life:
  "\<exists>s b u r v'. run_state (iterate demo_block_listener 1 (BConnecting, Second)) (demo_world (Some 0) [2]) = ((BStreaming s, b), u) \<and>
     run_state (block_deliver demo_block_eapi Background (\<lambda>cx b x. (None, x)) s) u = (r, v') \<and>
     handled_blocks (added (demo_world (Some 0) [2]) v') = [0] \<and> dPos (ext v') = Some 0"
  by (simp add: demo_block_run Let_def block_deliver_def added_def)

lemma demo_second_block_life:
  "\<exists>st v'. run_state (iterate demo_block_listener 3 (BConnecting, Second)) (demo_world (Some 0) [2]) = (st, v') \<and>
     handled_blocks (added (demo_world (Some 0) [2]) v') = [0, 1]"
  by (simp add: run_iterate_numeral demo_block_run Let_def added_def del: iterate.simps(2) CheckpointBlock.simps)

theorem blocks_survive_restarts_witness:
  "\<exists>v1 v2 m. demo_block_process (demo_world (Some 0) [2]) v1 \<and> handled_blocks (added (demo_world (Some 0) [2]) v1) = [0] \<and>
     demo_block_process (demo_world (Some 0) [2]) v2 \<and> handled_blocks (added (demo_world (Some 0) [2]) v2) = [0, 1] \<and>
     set (concat [handled_blocks (added (demo_world (Some 0) [2]) v1), handled_blocks (added (demo_world (Some 0) [2]) v2)])
       = (\<lambda>k. k) ` {0..<m} \<and> 3 \<le> m + 1"
proof -
  let ?w = "demo_world (Some 0) [2]"
  from demo_first_block_life obtain s b u r v1 where v1: "run_state (iterate demo_block_listener 1 (BConnecting, Second)) ?w = ((BStreaming s, b), u)"
    "run_state (block_deliver demo_block_eapi Background (\<lambda>cx b x. (None, x)) s) u = (r, v1)"
    "handled_blocks (added ?w v1) = [0]" "dPos (ext v1) = Some 0" by blast
  from demo_second_block_life obtain st v2 where v2: "run_state (iterate demo_block_listener 3 (BConnecting, Second)) ?w = (st, v2)"
    "handled_blocks (added ?w v2) = [0, 1]" by blast
  have lives: "demo_block_process ?w v1" "demo_block_process ?w v2"
    by (rule block_life.before_checkpoint [OF _ v1(2)], unfold example_backoff, rule v1(1))
      (rule block_life.between_blocks, unfold example_backoff, rule v2(1))
  have pos: "dPos (ext ?w) = Some 0" by (simp add: demo_world_def)
  have "restarts demo_block_process dPos handled_blocks (Some 0) [handled_blocks (added ?w v1), handled_blocks (added ?w v2)]"
    by (intro restarts.again restarts.never pos lives) (simp add: v1(4) pos)
  from blocks_survive_restarts [OF demo_block_feed this, unfolded v1(3) v2(2)] obtain m where
    m: "set (concat [[0], [0, 1 :: nat]]) = (\<lambda>k. k) ` {0..<m}" "length (concat [[0], [0, 1 :: nat]]) \<le> m - 0 + (length [[0], [0, 1 :: nat]] - 1)"
    by blast
  from m(2) have "3 \<le> m + 1" by simp
  with lives v1(3) v2(2) m(1) show ?thesis
    by (intro exI [of _ v1] exI [of _ v2] exI [of _ m]) (simp only: conj_absorb simp_thms)
qed

end
