(* ===== verification/Once_Cell.thy ===== *)
theory Once_Cell
  imports Contract_Calls
begin

text \<open>
  What goroutines that share an object rely on. Ownership: at most one goroutine is at a program
  point that holds a mutex. \<open>sync.Once\<close> as an abstract machine \<open>once_move\<close>, and the locale
  \<open>once_users\<close>, which draws what follows for a component whose steps are moves of it: the body runs
  at most once, and as a whole before any call returns.
\<close>

section \<open>Ownership\<close>

text \<open>
  Goroutines are numbered by their place in a list of program points. A resource is owned by the
  one goroutine whose program point says so.
\<close>

definition owned_by :: "('p \<Rightarrow> bool) \<Rightarrow> 'p list \<Rightarrow> nat option \<Rightarrow> bool" where
  "owned_by P pcs o' = (\<forall>g. o' = Some g \<longleftrightarrow> g < length pcs \<and> P (pcs ! g))"

lemma owned_by_keep: "owned_by P pcs o' \<Longrightarrow> g < length pcs \<Longrightarrow> P pc = P (pcs ! g) \<Longrightarrow> owned_by P (pcs[g := pc]) o'"
  by (auto simp: owned_by_def nth_list_update)

lemma owned_by_take: "owned_by P pcs None \<Longrightarrow> g < length pcs \<Longrightarrow> P pc \<Longrightarrow> owned_by P (pcs[g := pc]) (Some g)"
  by (auto simp: owned_by_def nth_list_update)

lemma owned_by_drop:
  assumes "owned_by P pcs o'" "g < length pcs" "P (pcs ! g)" "\<not> P pc"
  shows "owned_by P (pcs[g := pc]) None"
proof -
  from assms have "o' = Some g" by (simp add: owned_by_def)
  with assms show ?thesis by (auto simp: owned_by_def nth_list_update)
qed

lemma owned_by_unique: "owned_by P pcs o' \<Longrightarrow> g < length pcs \<Longrightarrow> h < length pcs \<Longrightarrow> P (pcs ! g) \<Longrightarrow> P (pcs ! h) \<Longrightarrow> g = h"
  unfolding owned_by_def by (metis option.inject)

lemma owned_byD: "owned_by P pcs (Some g) \<Longrightarrow> g < length pcs \<and> P (pcs ! g)"
  unfolding owned_by_def by blast

lemma owned_by_owner: "owned_by P pcs o' \<Longrightarrow> g < length pcs \<Longrightarrow> P (pcs ! g) \<Longrightarrow> o' = Some g"
  unfolding owned_by_def by blast

lemma places_update:
  "g < length pcs \<Longrightarrow> {h. h < length (pcs[g := pc]) \<and> P (pcs[g := pc] ! h)} =
     (if P pc then insert g {h. h < length pcs \<and> P (pcs ! h)} else {h. h < length pcs \<and> P (pcs ! h)} - {g})"
  by (auto simp: nth_list_update)

lemma list_all_goto: "list_all P pcs \<Longrightarrow> P pc \<Longrightarrow> list_all P (pcs[g := pc])"
  by (auto simp: list_all_iff dest: set_update_subset_insert [THEN subsetD])

lemma list_all_at: "list_all P pcs \<Longrightarrow> g < length pcs \<Longrightarrow> pcs ! g = pc \<Longrightarrow> P pc"
  by (auto simp: list_all_length)

section \<open>A sync.Once between goroutines\<close>

text \<open>
  \<open>sync.Once.Do\<close>: the goroutine that finds the cell fresh runs the body; every other one waits
  until the body has returned. The cell is done only when the body is.
\<close>

datatype once_cell = OnceFresh | OnceBusy nat | OnceDone

fun once_owner :: "once_cell \<Rightarrow> nat option" where
  "once_owner (OnceBusy g) = Some g"
| "once_owner _ = None"

text \<open>
  What the users of a cell can see of it: the cell, what is left of a body that is running, what
  bodies have done so far, and the goroutines whose last \<open>Do\<close> has returned.
\<close>

record once_view =
  ovCell :: once_cell
  ovTodo :: "effect list"
  ovDid :: "effect list"
  ovPast :: "nat set"

inductive once_move :: "effect list \<Rightarrow> once_view \<Rightarrow> once_view \<Rightarrow> bool" for body where
  enter: "ovCell v = OnceFresh \<Longrightarrow> once_move body v (v\<lparr>ovCell := OnceBusy g, ovTodo := body\<rparr>)"
| act: "ovCell v = OnceBusy g \<Longrightarrow> ovTodo v = e # es \<Longrightarrow> once_move body v (v\<lparr>ovTodo := es, ovDid := ovDid v @ [e]\<rparr>)"
| leave: "ovCell v = OnceBusy g \<Longrightarrow> ovTodo v = [] \<Longrightarrow> once_move body v (v\<lparr>ovCell := OnceDone, ovPast := insert g (ovPast v)\<rparr>)"
| skip: "ovCell v = OnceDone \<Longrightarrow> once_move body v (v\<lparr>ovPast := insert g (ovPast v)\<rparr>)"
| again: "once_move body v (v\<lparr>ovPast := ovPast v - {g}\<rparr>)"
| other: "once_move body v v"

definition once_fresh :: "once_view \<Rightarrow> bool" where
  "once_fresh v = (ovCell v = OnceFresh \<and> ovTodo v = [] \<and> ovDid v = [] \<and> ovPast v = {})"

definition once_ok :: "effect list \<Rightarrow> once_view \<Rightarrow> bool" where
  "once_ok body v =
     (case ovCell v of
        OnceFresh \<Rightarrow> ovDid v = [] \<and> ovPast v = {}
      | OnceBusy g \<Rightarrow> ovDid v @ ovTodo v = body \<and> ovPast v = {}
      | OnceDone \<Rightarrow> ovDid v = body)"

lemma once_move_ok: "once_move body v v' \<Longrightarrow> once_ok body v \<Longrightarrow> once_ok body v'"
  by (induction rule: once_move.induct) (auto simp: once_ok_def split: once_cell.splits)

text \<open>
  A component that shares a cell: it keeps an invariant, and its steps, seen through a view, are
  moves of the cell. Then in every reachable state the body has run at most once, and as a whole
  before any \<open>Do\<close> returns.
\<close>

locale once_users =
  fixes step :: "'s \<Rightarrow> 's \<Rightarrow> bool" and initial inv :: "'s \<Rightarrow> bool" and view :: "'s \<Rightarrow> once_view" and body :: "effect list"
  assumes inv_initial: "initial s \<Longrightarrow> inv s"
    and inv_step: "inv s \<Longrightarrow> step s t \<Longrightarrow> inv t"
    and view_initial: "initial s \<Longrightarrow> once_fresh (view s)"
    and view_step: "inv s \<Longrightarrow> step s t \<Longrightarrow> once_move body (view s) (view t)"
begin

lemma keeps:
  assumes "initial s" "step\<^sup>*\<^sup>* s t"
  shows "inv t \<and> once_ok body (view t)"
  using assms(2)
proof (induction rule: rtranclp_induct)
  case base
  from view_initial [OF assms(1)] inv_initial [OF assms(1)] show ?case by (simp add: once_fresh_def once_ok_def)
next
  case (step t u)
  then show ?case by (blast intro: inv_step once_move_ok view_step)
qed

lemma runs_once:
  assumes "initial s" "step\<^sup>*\<^sup>* s t"
  shows "prefix (ovDid (view t)) body"
  using keeps [OF assms] by (auto simp: once_ok_def prefix_def split: once_cell.splits)

lemma returned_after_body:
  assumes "initial s" "step\<^sup>*\<^sup>* s t" "g \<in> ovPast (view t)"
  shows "ovDid (view t) = body \<and> ovCell (view t) = OnceDone"
  using keeps [OF assms(1,2)] assms(3) by (auto simp: once_ok_def split: once_cell.splits)

end

end
