(* ===== verification/Shared_Pending.thy ===== *)
theory Shared_Pending
  imports Once_Cell
begin

text \<open>
  A pending transaction (\<open>src/contract.go\<close>, \<open>PendingTx\<close>) used by several goroutines: its mutex, its
  \<open>sync.Once\<close>, and a step relation in which \<open>Wait\<close> and \<open>Release\<close> interleave at every access to them
  and while a status call is under way. Shown: mutual exclusion, a single release, progress, and
  that the sequential definitions are runs of a single goroutine.
\<close>

section \<open>A pending transaction shared by goroutines\<close>

text \<open>
  Where a goroutine is in \<open>Wait\<close> or \<open>Release\<close>. Who called \<open>once.Do\<close> is kept with the call: a \<open>Wait\<close>
  that learnt the commit status, or \<open>Release\<close>. A reply of the Gateway client is an error or the
  status. \<open>Wait\<close> holds the mutex from \<open>Asking\<close> to \<open>Finishing\<close>.
\<close>

datatype once_caller = ByWait CommitStatus | ByRelease

datatype pending_pc =
  Resting
| Locking "Ctx option"
| Asking "Ctx option"
| Asked Ctx
| AtOnce once_caller
| InOnce once_caller "effect list"
| Finishing "err + CommitStatus"
| WaitReturned "err + CommitStatus"
| ReleaseReturned

fun at_rest :: "pending_pc \<Rightarrow> bool" where
  "at_rest Resting = True"
| "at_rest (WaitReturned r) = True"
| "at_rest ReleaseReturned = True"
| "at_rest _ = False"

fun locked :: "pending_pc \<Rightarrow> bool" where
  "locked (Asking ctx) = True"
| "locked (Asked c) = True"
| "locked (AtOnce k) = (k \<noteq> ByRelease)"
| "locked (InOnce k es) = (k \<noteq> ByRelease)"
| "locked (Finishing r) = True"
| "locked _ = False"

fun releasing :: "pending_pc \<Rightarrow> bool" where
  "releasing (InOnce k es) = True"
| "releasing _ = False"

text \<open>Whether the goroutine's last call is past \<open>once.Do\<close>.\<close>

fun past_once :: "pending_pc \<Rightarrow> bool" where
  "past_once (Finishing r) = (\<exists>st. r = Inr st)"
| "past_once (WaitReturned r) = (\<exists>st. r = Inr st)"
| "past_once ReleaseReturned = True"
| "past_once _ = False"

text \<open>
  The mutex with its holder, the cell of \<open>once\<close>, what was done so far, and the goroutines.
\<close>

record pending_state =
  psMu :: "nat option"
  psCell :: once_cell
  psTrace :: "effect list"
  psPc :: "pending_pc list"

abbreviation pc_is :: "pending_state \<Rightarrow> nat \<Rightarrow> pending_pc \<Rightarrow> bool" where
  "pc_is s g pc \<equiv> g < length (psPc s) \<and> psPc s ! g = pc"

abbreviation goto :: "nat \<Rightarrow> pending_pc \<Rightarrow> pending_state \<Rightarrow> pending_state" where
  "goto g pc s \<equiv> s\<lparr>psPc := (psPc s)[g := pc]\<rparr>"

text \<open>The goroutine returns from \<open>once.Do\<close> into its caller.\<close>

fun after_once :: "once_caller \<Rightarrow> pending_pc" where
  "after_once (ByWait st) = Finishing (Inr st)"
| "after_once ByRelease = ReleaseReturned"

text \<open>What \<open>Wait\<close> returns for a reply, and what it logs and observes before it unlocks.\<close>

definition wait_result :: "'w api \<Rightarrow> PendingTx \<Rightarrow> err + CommitStatus \<Rightarrow> err + TxResult" where
  "wait_result api p r =
     (case r of
        Inl e \<Rightarrow> Inl (classifyErr api e (pTxID p) phaseCommitStatus True)
      | Inr st \<Rightarrow>
          if \<not> csSuccessful st then Inl (commitFailure (apiLib api) (pTxID p) (csCode st) None)
          else Inr \<lparr>trTxID = pTxID p, trBlockNumber = csBlockNumber st, trPayload = pPayload p\<rparr>)"

definition wait_hooks :: "'w api \<Rightarrow> PendingTx \<Rightarrow> err + CommitStatus \<Rightarrow> int \<Rightarrow> effect list" where
  "wait_hooks api p r d =
     (case r of Inl e \<Rightarrow> [] | Inr st \<Rightarrow> committed_log p st)
     @ observe_effects api (pContract p) OpCommit (pFn p) (pTxID p) d (err_of (wait_result api p r))"

text \<open>A goroutine of the application calls one of the two methods.\<close>

inductive pending_call :: "pending_state \<Rightarrow> pending_state \<Rightarrow> bool" where
  call_wait: "pc_is s g pc \<Longrightarrow> at_rest pc \<Longrightarrow> pending_call s (goto g (Locking ctx) s)"
| call_release: "pc_is s g pc \<Longrightarrow> at_rest pc \<Longrightarrow> pending_call s (goto g (AtOnce ByRelease) s)"

text \<open>
  A goroutine does the next thing in its call. The Gateway client may answer a status call with
  whatever it returns on some outside state; the time between the two is open to the others.
\<close>

inductive pending_work :: "'w api \<Rightarrow> PendingTx \<Rightarrow> pending_state \<Rightarrow> pending_state \<Rightarrow> bool" for api p where
  lock: "pc_is s g (Locking ctx) \<Longrightarrow> psMu s = None \<Longrightarrow>
    pending_work api p s (goto g (Asking ctx) (s\<lparr>psMu := Some g\<rparr>))"
| ask: "pc_is s g (Asking ctx) \<Longrightarrow> c = phase_ctx api ctx (CommitStatusTimeout (ctCfg (pContract p))) y \<Longrightarrow>
    pending_work api p s (goto g (Asked c) (s\<lparr>psTrace := psTrace s @ [ECommitStatus (pCommit p) c]\<rparr>))"
| unknown: "pc_is s g (Asked c) \<Longrightarrow> fst (Commit_Status api (pCommit p) c x) = Inl e \<Longrightarrow>
    pending_work api p s (goto g (Finishing (Inl e)) s)"
| known: "pc_is s g (Asked c) \<Longrightarrow> fst (Commit_Status api (pCommit p) c x) = Inr st \<Longrightarrow>
    pending_work api p s (goto g (AtOnce (ByWait st)) s)"
| once_enter: "pc_is s g (AtOnce k) \<Longrightarrow> psCell s = OnceFresh \<Longrightarrow>
    pending_work api p s (goto g (InOnce k (closes (pRelease p))) (s\<lparr>psCell := OnceBusy g\<rparr>))"
| once_act: "pc_is s g (InOnce k (e # es)) \<Longrightarrow>
    pending_work api p s (goto g (InOnce k es) (s\<lparr>psTrace := psTrace s @ [e]\<rparr>))"
| once_leave: "pc_is s g (InOnce k []) \<Longrightarrow>
    pending_work api p s (goto g (after_once k) (s\<lparr>psCell := OnceDone\<rparr>))"
| once_skip: "pc_is s g (AtOnce k) \<Longrightarrow> psCell s = OnceDone \<Longrightarrow>
    pending_work api p s (goto g (after_once k) s)"
| unlock: "pc_is s g (Finishing r) \<Longrightarrow>
    pending_work api p s (goto g (WaitReturned r) (s\<lparr>psMu := None, psTrace := psTrace s @ wait_hooks api p r d\<rparr>))"

definition pending_move :: "'w api \<Rightarrow> PendingTx \<Rightarrow> pending_state \<Rightarrow> pending_state \<Rightarrow> bool" where
  "pending_move api p s t = (pending_call s t \<or> pending_work api p s t)"

text \<open>The transaction as \<open>SubmitAsync\<close> returns it, to be used by \<open>n\<close> goroutines.\<close>

definition pending_init :: "nat \<Rightarrow> pending_state" where
  "pending_init n = \<lparr>psMu = None, psCell = OnceFresh, psTrace = [], psPc = replicate n Resting\<rparr>"

definition pending_initial :: "pending_state \<Rightarrow> bool" where
  "pending_initial s = (\<exists>n. s = pending_init n)"

text \<open>The invariant: who holds the mutex and who runs the body of \<open>once\<close> can be read off the program points.\<close>

definition pending_inv :: "pending_state \<Rightarrow> bool" where
  "pending_inv s = (owned_by locked (psPc s) (psMu s) \<and> owned_by releasing (psPc s) (once_owner (psCell s)))"

definition pending_todo :: "pending_state \<Rightarrow> effect list" where
  "pending_todo s =
     (case psCell s of
        OnceBusy g \<Rightarrow> (if g < length (psPc s) then case psPc s ! g of InOnce k es \<Rightarrow> gateways es | _ \<Rightarrow> [] else [])
      | _ \<Rightarrow> [])"

definition pending_view :: "pending_state \<Rightarrow> once_view" where
  "pending_view s =
     \<lparr>ovCell = psCell s, ovTodo = pending_todo s, ovDid = gateways (psTrace s),
      ovPast = {g. g < length (psPc s) \<and> past_once (psPc s ! g)}\<rparr>"

lemma at_rest_facts [simp]: "at_rest pc \<Longrightarrow> \<not> locked pc" "at_rest pc \<Longrightarrow> \<not> releasing pc"
  by (cases pc; simp)+

lemma after_once_facts [simp]:
  "locked (after_once k) \<longleftrightarrow> k \<noteq> ByRelease" "\<not> releasing (after_once k)" "past_once (after_once k)"
  by (cases k; simp)+

lemma pending_inv_initial: "pending_initial s \<Longrightarrow> pending_inv s"
  by (auto simp: pending_initial_def pending_init_def pending_inv_def owned_by_def)

lemma pending_inv_call:
  assumes "pending_call s t" and "pending_inv s"
  shows "pending_inv t"
  using assms by (induction rule: pending_call.induct) (auto simp: pending_inv_def intro!: owned_by_keep)

lemma pending_inv_work:
  assumes "pending_work api p s t" and "pending_inv s"
  shows "pending_inv t"
  using assms
proof (induction rule: pending_work.induct)
  case (once_leave s g k)
  then have "owned_by releasing ((psPc s)[g := after_once k]) None"
    unfolding pending_inv_def by (intro owned_by_drop) auto
  with once_leave show ?case by (auto simp: pending_inv_def intro!: owned_by_keep)
next
  case (unlock s g r d)
  then have "owned_by locked ((psPc s)[g := WaitReturned r]) None"
    unfolding pending_inv_def by (intro owned_by_drop) auto
  with unlock show ?case by (auto simp: pending_inv_def intro!: owned_by_keep)
qed (auto simp: pending_inv_def intro!: owned_by_keep owned_by_take)

lemma gateways_log_effects: "gateways (log_effects cfg lv msg kv) = []"
  by (simp add: log_effects_def gateways_def split: option.splits)

lemma gateways_wait_hooks [simp]: "gateways (wait_hooks api p r d) = []"
proof -
  have "gateways (observe_effects api c op fn t d err) = []" for c op fn t err
    unfolding observe_effects_def by (simp add: gateways_log_effects split: option.split) (simp add: gateways_def)
  then show ?thesis by (simp add: wait_hooks_def committed_log_def gateways_log_effects split: sum.splits)
qed

lemma pending_todo_other:
  assumes "pending_inv s" "g < length (psPc s)" "\<not> releasing (psPc s ! g)"
    and "psPc t = (psPc s)[g := pc]" "psCell t = psCell s"
  shows "pending_todo t = pending_todo s"
proof (cases "psCell s")
  case (OnceBusy h)
  with assms(1) have "h < length (psPc s)" "releasing (psPc s ! h)" by (auto simp: pending_inv_def dest: owned_byD)
  with assms(3) have "h \<noteq> g" by blast
  with OnceBusy assms(4,5) show ?thesis by (simp add: pending_todo_def)
qed (use assms(5) in \<open>simp_all add: pending_todo_def\<close>)

text \<open>A step that keeps the cell and the Gateways seen is a move of the once view.\<close>

lemma pending_view_quiet:
  assumes "pending_inv s" "g < length (psPc s)" "\<not> releasing (psPc s ! g)"
    and "psPc t = (psPc s)[g := pc]" "psCell t = psCell s" "gateways (psTrace t) = gateways (psTrace s)"
    and "past_once pc \<Longrightarrow> psCell s = OnceDone \<or> past_once (psPc s ! g)"
  shows "once_move b (pending_view s) (pending_view t)"
proof -
  let ?past = "ovPast (pending_view s)"
  have past: "ovPast (pending_view t) = (if past_once pc then insert g ?past else ?past - {g})"
    unfolding pending_view_def assms(4) by (simp only: once_view.simps places_update [OF assms(2)])
  have v: "pending_view t = (pending_view s)\<lparr>ovPast := if past_once pc then insert g ?past else ?past - {g}\<rparr>"
    unfolding past [symmetric]
    by (simp add: pending_view_def assms(5,6) pending_todo_other [OF assms(1-5)])
  show ?thesis
  proof (cases "past_once pc")
    case False
    then show ?thesis unfolding v by (simp add: once_move.again)
  next
    case True
    with assms(7) consider "psCell s = OnceDone" | "past_once (psPc s ! g)" by blast
    then show ?thesis
    proof cases
      case 1
      then have "ovCell (pending_view s) = OnceDone" by (simp add: pending_view_def)
      with True show ?thesis unfolding v by (simp add: once_move.skip)
    next
      case 2
      with assms(2) have "insert g ?past = ?past" by (auto simp: pending_view_def)
      with True have "pending_view t = pending_view s" unfolding v by simp
      then show ?thesis by (simp add: once_move.other)
    qed
  qed
qed

lemma pending_view_call: "pending_call s t \<Longrightarrow> pending_inv s \<Longrightarrow> once_move b (pending_view s) (pending_view t)"
proof (induction rule: pending_call.induct)
  case (call_wait s g pc ctx)
  then show ?case by (intro pending_view_quiet [where g = g and pc = "Locking ctx"]) auto
next
  case (call_release s g pc)
  then show ?case by (intro pending_view_quiet [where g = g and pc = "AtOnce ByRelease"]) auto
qed

lemma pending_owner: "pending_inv s \<Longrightarrow> pc_is s g (InOnce k es) \<Longrightarrow> psCell s = OnceBusy g"
  by (cases "psCell s") (auto simp: pending_inv_def dest: owned_by_owner)

lemma pending_view_act:
  assumes inv: "pending_inv s" and pc: "pc_is s g (InOnce k (e # es))"
  shows "once_move z (pending_view s) (pending_view (goto g (InOnce k es) (s\<lparr>psTrace := psTrace s @ [e]\<rparr>)))"
    (is "once_move z ?s ?t")
proof (cases "is_gateway e")
  have cell: "psCell s = OnceBusy g" using inv pc by (rule pending_owner)
  have past: "ovPast ?t = ovPast ?s" using pc by (auto simp: pending_view_def nth_list_update)
  {
    case True
    have "?t = ?s\<lparr>ovTodo := gateways es, ovDid := ovDid ?s @ [e]\<rparr>"
      using pc past True by (simp add: pending_view_def pending_todo_def cell)
    moreover have "ovCell ?s = OnceBusy g" "ovTodo ?s = e # gateways es"
      using pc True by (simp_all add: pending_view_def pending_todo_def cell)
    ultimately show ?thesis by (simp add: once_move.act)
  next
    case False
    with pc past have "?t = ?s" by (simp add: pending_view_def pending_todo_def cell)
    then show ?thesis by (simp add: once_move.other)
  }
qed

lemma pending_view_leave:
  assumes inv: "pending_inv s" and pc: "pc_is s g (InOnce k [])"
  shows "once_move z (pending_view s) (pending_view (goto g (after_once k) (s\<lparr>psCell := OnceDone\<rparr>)))"
    (is "once_move z ?s ?t")
proof -
  have cell: "psCell s = OnceBusy g" using inv pc by (rule pending_owner)
  have "ovPast ?t = insert g (ovPast ?s)" using pc by (auto simp: pending_view_def nth_list_update)
  then have "?t = ?s\<lparr>ovCell := OnceDone, ovPast := insert g (ovPast ?s)\<rparr>"
    using pc by (simp add: pending_view_def pending_todo_def cell)
  moreover have "ovCell ?s = OnceBusy g" "ovTodo ?s = []"
    using pc by (simp_all add: pending_view_def pending_todo_def cell)
  ultimately show ?thesis by (simp add: once_move.leave)
qed

lemma pending_view_work: "pending_work api p s t \<Longrightarrow> pending_inv s \<Longrightarrow> once_move (closes (pRelease p)) (pending_view s) (pending_view t)"
proof (induction rule: pending_work.induct)
  case (lock s g ctx)
  then show ?case by (intro pending_view_quiet [where g = g and pc = "Asking ctx"]) auto
next
  case (ask s g ctx c y)
  then show ?case by (intro pending_view_quiet [where g = g and pc = "Asked c"]) auto
next
  case (unknown s g c x e)
  then show ?case by (intro pending_view_quiet [where g = g and pc = "Finishing (Inl e)"]) auto
next
  case (known s g c x st)
  then show ?case by (intro pending_view_quiet [where g = g and pc = "AtOnce (ByWait st)"]) auto
next
  case (once_enter s g k)
  let ?t = "goto g (InOnce k (closes (pRelease p))) (s\<lparr>psCell := OnceBusy g\<rparr>)"
  have "ovPast (pending_view ?t) = ovPast (pending_view s) - {g}" and "g \<notin> ovPast (pending_view s)"
    using once_enter by (simp_all add: pending_view_def places_update [where P = past_once, simplified])
  then have "pending_view ?t = (pending_view s)\<lparr>ovCell := OnceBusy g, ovTodo := closes (pRelease p)\<rparr>"
    using once_enter by (simp add: pending_view_def pending_todo_def)
  moreover have "ovCell (pending_view s) = OnceFresh" using once_enter by (simp add: pending_view_def)
  ultimately show ?case by (simp add: once_move.enter)
next
  case (once_act s g k e es)
  then show ?case by (blast intro: pending_view_act)
next
  case (once_leave s g k)
  then show ?case by (blast intro: pending_view_leave)
next
  case (once_skip s g k)
  then show ?case by (intro pending_view_quiet [where g = g and pc = "after_once k"]) auto
next
  case (unlock s g r d)
  then show ?case by (intro pending_view_quiet [where g = g and pc = "WaitReturned r"]) auto
qed

interpretation pending_once: once_users "pending_move api p" pending_initial pending_inv pending_view "closes (pRelease p)" for api p
proof
  fix s t :: pending_state
  show "pending_initial s \<Longrightarrow> pending_inv s" by (rule pending_inv_initial)
  show "pending_inv s \<Longrightarrow> pending_move api p s t \<Longrightarrow> pending_inv t"
    by (auto simp: pending_move_def intro: pending_inv_call pending_inv_work)
  show "pending_initial s \<Longrightarrow> once_fresh (pending_view s)"
    by (auto simp: pending_initial_def pending_init_def pending_view_def pending_todo_def once_fresh_def)
  show "pending_inv s \<Longrightarrow> pending_move api p s t \<Longrightarrow> once_move (closes (pRelease p)) (pending_view s) (pending_view t)"
    by (auto simp: pending_move_def intro: pending_view_call pending_view_work)
qed

section \<open>Progress\<close>

fun pending_rank :: "pending_pc \<Rightarrow> nat" where
  "pending_rank (Locking ctx) = 10"
| "pending_rank (Asking ctx) = 9"
| "pending_rank (Asked c) = 8"
| "pending_rank (AtOnce k) = 7"
| "pending_rank (InOnce k es) = 5 + length es"
| "pending_rank (Finishing r) = 1"
| "pending_rank _ = 0"

definition pending_measure :: "pending_state \<Rightarrow> nat" where
  "pending_measure s = sum_list (map pending_rank (psPc s))"

lemma rank_goto:
  "g < length pcs \<Longrightarrow> pending_rank pc < pending_rank (pcs ! g) \<Longrightarrow>
     sum_list (map pending_rank (pcs[g := pc])) < sum_list (map pending_rank pcs)"
proof (induction pcs arbitrary: g)
  case (Cons q pcs)
  then show ?case by (cases g) auto
qed simp

lemma rank_bound_goto:
  "list_all (\<lambda>q. pending_rank q \<le> 10) pcs \<Longrightarrow> pending_rank pc \<le> 10 \<Longrightarrow> list_all (\<lambda>q. pending_rank q \<le> 10) (pcs[g := pc])"
  by (auto simp: list_all_iff dest: set_update_subset_insert [THEN subsetD])

lemma rank_closes: "pending_rank (InOnce k (closes r)) \<le> 6"
  by (cases r) auto

lemma rank_after_once: "pending_rank (after_once k) \<le> 1"
  by (cases k) auto

lemma pending_work_decreases: "pending_work api p s t \<Longrightarrow> pending_measure t < pending_measure s"
proof (induction rule: pending_work.induct)
  case (once_enter s g k)
  then show ?case using rank_closes [of k "pRelease p"] by (auto simp: pending_measure_def intro!: rank_goto)
next
  case (once_leave s g k)
  then show ?case using rank_after_once [of k] by (auto simp: pending_measure_def intro!: rank_goto)
next
  case (once_skip s g k)
  then show ?case using rank_after_once [of k] by (auto simp: pending_measure_def intro!: rank_goto)
qed (auto simp: pending_measure_def intro!: rank_goto)

lemma pending_rank_work:
  "pending_work api p s t \<Longrightarrow> list_all (\<lambda>q. pending_rank q \<le> 10) (psPc s) \<Longrightarrow> list_all (\<lambda>q. pending_rank q \<le> 10) (psPc t)"
proof (induction rule: pending_work.induct)
  case (once_enter s g k)
  then show ?case using rank_closes [of k "pRelease p"] by (auto intro!: rank_bound_goto)
next
  case (once_act s g k e es)
  then have "pending_rank (InOnce k (e # es)) \<le> 10" unfolding list_all_length by metis
  with once_act show ?case by (auto intro!: rank_bound_goto)
next
  case (once_leave s g k)
  then show ?case using rank_after_once [of k] by (auto intro!: rank_bound_goto)
next
  case (once_skip s g k)
  then show ?case using rank_after_once [of k] by (auto intro!: rank_bound_goto)
qed (auto intro!: rank_bound_goto)

lemma pending_rank_call:
  "pending_call s t \<Longrightarrow> list_all (\<lambda>q. pending_rank q \<le> 10) (psPc s) \<Longrightarrow> list_all (\<lambda>q. pending_rank q \<le> 10) (psPc t)"
  by (induction rule: pending_call.induct) (auto intro!: rank_bound_goto)

lemma pending_measure_bound:
  assumes "(pending_move api p)\<^sup>*\<^sup>* (pending_init n) s"
  shows "pending_measure s \<le> 10 * n"
proof -
  have "list_all (\<lambda>q. pending_rank q \<le> 10) (psPc s) \<and> length (psPc s) = n"
    using assms
  proof (induction rule: rtranclp_induct)
    case (step s t)
    then have "length (psPc t) = length (psPc s)"
      by (auto simp: pending_move_def elim: pending_call.cases pending_work.cases)
    with step show ?case by (auto simp: pending_move_def intro: pending_rank_call pending_rank_work)
  qed (simp add: pending_init_def list_all_iff)
  moreover have "list_all (\<lambda>q. pending_rank q \<le> 10) pcs \<Longrightarrow> sum_list (map pending_rank pcs) \<le> 10 * length pcs" for pcs
    by (induction pcs) auto
  ultimately show ?thesis by (auto simp: pending_measure_def)
qed

lemma pending_releasing_works:
  assumes "g < length (psPc s)" "releasing (psPc s ! g)"
  shows "\<exists>t. pending_work api p s t"
proof -
  from assms(2) obtain k es where "psPc s ! g = InOnce k es" by (cases "psPc s ! g") auto
  with assms(1) show ?thesis
    by (cases es) (blast intro: pending_work.once_act pending_work.once_leave)+
qed

lemma pending_once_works:
  assumes "pending_inv s" "pc_is s g (AtOnce k)"
  shows "\<exists>t. pending_work api p s t"
proof (cases "psCell s")
  case (OnceBusy h)
  with assms(1) have "h < length (psPc s)" "releasing (psPc s ! h)" by (auto simp: pending_inv_def dest: owned_byD)
  then show ?thesis by (rule pending_releasing_works)
qed (use assms(2) in \<open>blast intro: pending_work.once_enter pending_work.once_skip\<close>)+

lemma pending_locked_works:
  assumes "pending_inv s" "g < length (psPc s)" "locked (psPc s ! g)"
  shows "\<exists>t. pending_work api p s t"
proof (cases "psPc s ! g")
  case (Asking ctx)
  with assms(2) show ?thesis by (blast intro: pending_work.ask)
next
  case (Asked c)
  obtain r where "fst (Commit_Status api (pCommit p) c undefined) = r" by blast
  with Asked assms(2) show ?thesis by (cases r) (blast intro: pending_work.unknown pending_work.known)+
next
  case (AtOnce k)
  with assms show ?thesis by (blast intro: pending_once_works)
next
  case (InOnce k es)
  with assms(2) show ?thesis by (intro pending_releasing_works [of g]) auto
next
  case (Finishing r)
  with assms(2) show ?thesis by (blast intro: pending_work.unlock)
qed (use assms(3) in auto)

lemma pending_no_deadlock:
  assumes "pending_inv s" "g < length (psPc s)" "\<not> at_rest (psPc s ! g)"
  shows "\<exists>t. pending_work api p s t"
proof (cases "locked (psPc s ! g)")
  case True
  with assms show ?thesis by (blast intro: pending_locked_works)
next
  case False
  with assms(3) consider (lock) ctx where "psPc s ! g = Locking ctx" | (once) k where "psPc s ! g = AtOnce k"
    | (rel) "releasing (psPc s ! g)"
    by (cases "psPc s ! g") auto
  then show ?thesis
  proof cases
    case lock
    show ?thesis
    proof (cases "psMu s")
      case None
      with lock assms(2) show ?thesis by (blast intro: pending_work.lock)
    next
      case (Some h)
      with assms(1) have "h < length (psPc s)" "locked (psPc s ! h)" by (auto simp: pending_inv_def dest: owned_byD)
      with assms(1) show ?thesis by (blast intro: pending_locked_works)
    qed
  qed (use assms in \<open>blast intro: pending_once_works pending_releasing_works\<close>)+
qed

lemma pending_work_bounded: "(pending_work api p ^^ m) s t \<Longrightarrow> m + pending_measure t \<le> pending_measure s"
proof (induction m arbitrary: t)
  case (Suc m)
  then obtain u where "(pending_work api p ^^ m) s u" "pending_work api p u t" by auto
  with Suc.IH [of u] pending_work_decreases [of api p u t] show ?case by simp
qed simp

section \<open>Properties of a shared pending transaction\<close>

text \<open>
  C9: sharing a pending transaction. However many goroutines call \<open>Wait\<close> and \<open>Release\<close> on it at the
  same time, at most one at a time asks for the commit status, the Gateway is closed at most once,
  and whoever returns from \<open>Release\<close>, or from a \<open>Wait\<close> that learnt the status, finds it closed.
\<close>

theorem pending_shared_safe:
  assumes "(pending_move api p)\<^sup>*\<^sup>* (pending_init n) s"
  shows "(\<forall>g h. g < length (psPc s) \<and> h < length (psPc s) \<and> locked (psPc s ! g) \<and> locked (psPc s ! h) \<longrightarrow> g = h) \<and>
    prefix (gateways (psTrace s)) (closes (pRelease p)) \<and>
    (\<forall>g. g < length (psPc s) \<and> past_once (psPc s ! g) \<longrightarrow> gateways (psTrace s) = closes (pRelease p))"
proof -
  have init: "pending_initial (pending_init n)" by (auto simp: pending_initial_def)
  have "owned_by locked (psPc s) (psMu s)"
    using pending_once.keeps [OF init assms] by (simp add: pending_inv_def)
  moreover have "prefix (gateways (psTrace s)) (closes (pRelease p))"
    using pending_once.runs_once [OF init assms] by (simp add: pending_view_def)
  moreover have "gateways (psTrace s) = closes (pRelease p)" if "g < length (psPc s)" "past_once (psPc s ! g)" for g
    using pending_once.returned_after_body [OF init assms, of g] that by (simp add: pending_view_def)
  ultimately show ?thesis by (blast dest: owned_by_unique)
qed

text \<open>
  C16: no call on a shared pending transaction is stuck. In every reachable state in which some
  goroutine is inside \<open>Wait\<close> or \<open>Release\<close>, one of them can go on; without new calls they take at
  most ten steps per goroutine, so that after finitely many steps every call has returned.
\<close>

theorem pending_shared_returns:
  assumes "(pending_move api p)\<^sup>*\<^sup>* (pending_init n) s"
  shows "((\<exists>t. pending_work api p s t) \<longleftrightarrow> \<not> list_all at_rest (psPc s)) \<and>
    (\<forall>m t. (pending_work api p ^^ m) s t \<longrightarrow> m \<le> 10 * n) \<and>
    (\<exists>t. (pending_work api p)\<^sup>*\<^sup>* s t \<and> list_all at_rest (psPc t))"
proof -
  have init: "pending_initial (pending_init n)" by (auto simp: pending_initial_def)
  have live: "(\<exists>u. pending_work api p t u) \<longleftrightarrow> \<not> list_all at_rest (psPc t)"
    if "(pending_move api p)\<^sup>*\<^sup>* (pending_init n) t" for t
  proof
    have "pending_inv t" using pending_once.keeps [OF init that] ..
    then show "\<not> list_all at_rest (psPc t) \<Longrightarrow> \<exists>u. pending_work api p t u"
      by (auto simp: list_all_length intro: pending_no_deadlock)
    show "\<exists>u. pending_work api p t u \<Longrightarrow> \<not> list_all at_rest (psPc t)"
      by (auto elim!: pending_work.cases simp: list_all_length)
  qed
  moreover have "m \<le> 10 * n" if "(pending_work api p ^^ m) s t" for m t
    using pending_work_bounded [OF that] pending_measure_bound [OF assms] by simp
  moreover have "\<exists>t. (pending_work api p)\<^sup>*\<^sup>* s t \<and> list_all at_rest (psPc t)"
    using assms
  proof (induction "pending_measure s" arbitrary: s rule: less_induct)
    case less
    show ?case
    proof (cases "list_all at_rest (psPc s)")
      case False
      with live [OF less.prems] obtain u where u: "pending_work api p s u" by blast
      with less.prems have "(pending_move api p)\<^sup>*\<^sup>* (pending_init n) u"
        by (auto simp: pending_move_def intro: rtranclp.rtrancl_into_rtrancl)
      from less.hyps [OF pending_work_decreases [OF u] this] u show ?thesis
        by (blast intro: converse_rtranclp_into_rtranclp)
    qed blast
  qed
  ultimately show ?thesis using assms by blast
qed

section \<open>The sequential definitions are runs of one goroutine\<close>

text \<open>A world in which no call on the pending transaction is under way, and the same moment seen by goroutines.\<close>

definition agrees :: "PendingTx \<Rightarrow> 'w world \<Rightarrow> pending_state \<Rightarrow> bool" where
  "agrees p w s =
     (psMu s = None \<and> psCell s = (if once w (pAddr p) then OnceDone else OnceFresh) \<and> psTrace s = trace w)"

lemma once_run:
  assumes "pc_is s g (AtOnce k)" "psCell s \<in> {OnceFresh, OnceDone}"
  shows "(pending_work api p)\<^sup>*\<^sup>* s (goto g (after_once k) (s\<lparr>psCell := OnceDone,
     psTrace := psTrace s @ (if psCell s = OnceDone then [] else closes (pRelease p))\<rparr>))"
proof (cases "psCell s = OnceDone")
  case True
  have eq: "goto g (after_once k) (s\<lparr>psCell := OnceDone,
      psTrace := psTrace s @ (if psCell s = OnceDone then [] else closes (pRelease p))\<rparr>) = goto g (after_once k) s"
    using True by (cases s) simp
  show ?thesis unfolding eq using pending_work.once_skip [OF assms(1) True, of api p] by (rule r_into_rtranclp)
next
  case False
  with assms(2) have cell: "psCell s = OnceFresh" by simp
  let ?s1 = "goto g (InOnce k (closes (pRelease p))) (s\<lparr>psCell := OnceBusy g\<rparr>)"
  let ?s2 = "goto g (InOnce k []) (s\<lparr>psCell := OnceBusy g, psTrace := psTrace s @ closes (pRelease p)\<rparr>)"
  have "pending_work api p s ?s1" by (rule pending_work.once_enter [OF assms(1) cell])
  moreover have "(pending_work api p)\<^sup>*\<^sup>* ?s1 ?s2"
  proof (cases "pRelease p")
    case (CloseGateway h)
    from pending_work.once_act [of g ?s1 k "EGatewayClose h" "[]" api p] assms(1) show ?thesis
      by (simp add: CloseGateway r_into_rtranclp)
  qed (use assms(1) in simp)
  moreover have "pending_work api p ?s2 (goto g (after_once k) (s\<lparr>psCell := OnceDone, psTrace := psTrace s @ closes (pRelease p)\<rparr>))"
    using pending_work.once_leave [of g ?s2 k api p] assms(1) by (cases s) simp
  ultimately have "(pending_work api p)\<^sup>*\<^sup>* s (goto g (after_once k) (s\<lparr>psCell := OnceDone, psTrace := psTrace s @ closes (pRelease p)\<rparr>))"
    by (meson r_into_rtranclp rtranclp_trans)
  with cell show ?thesis by simp
qed

lemma pending_work_moves: "(pending_work api p)\<^sup>*\<^sup>* s t \<Longrightarrow> (pending_move api p)\<^sup>*\<^sup>* s t"
  by (erule rtranclp_mono [THEN predicate2D, rotated]) (auto simp: pending_move_def)

text \<open>A goroutine that has asked for the commit status, in context \<open>c\<close>.\<close>

abbreviation asked_state :: "PendingTx \<Rightarrow> nat \<Rightarrow> pending_state \<Rightarrow> Ctx \<Rightarrow> pending_state" where
  "asked_state p g s c \<equiv> goto g (Asked c) (s\<lparr>psMu := Some g, psTrace := psTrace s @ [ECommitStatus (pCommit p) c]\<rparr>)"

lemma asked_run:
  assumes "pc_is s g pc" "at_rest pc" "psMu s = None"
  shows "(pending_move api p)\<^sup>*\<^sup>* s (asked_state p g s (phase_ctx api ctx (CommitStatusTimeout (ctCfg (pContract p))) y))"
proof -
  let ?s3 = "asked_state p g s (phase_ctx api ctx (CommitStatusTimeout (ctCfg (pContract p))) y)"
  let ?s1 = "goto g (Locking ctx) s"
  let ?s2 = "goto g (Asking ctx) (s\<lparr>psMu := Some g\<rparr>)"
  have "pending_move api p s ?s1" using assms(1,2) by (auto simp: pending_move_def intro: pending_call.call_wait)
  moreover have "pending_work api p ?s1 ?s2" using pending_work.lock [of g ?s1 ctx api p] assms by simp
  moreover have "pending_work api p ?s2 ?s3" using pending_work.ask [of g ?s2 ctx _ api p y] assms by simp
  ultimately show ?thesis
    by (meson pending_work_moves r_into_rtranclp rtranclp_trans)
qed

lemma Wait_run:
  assumes "agrees p w s" and "pc_is s g pc" and "at_rest pc" and "run_state (Wait api p ctx) w = (res, w')"
  shows "\<exists>t r. (pending_move api p)\<^sup>*\<^sup>* s t \<and> agrees p w' t \<and> psPc t = (psPc s)[g := WaitReturned r] \<and> wait_result api p r = res"
proof (cases rule: Wait_cases [of api p ctx w])
  case (unknown e e' x y d)
  let ?s3 = "asked_state p g s (phase_ctx api ctx (CommitStatusTimeout (ctCfg (pContract p))) y)"
  let ?s4 = "goto g (Finishing (Inl e)) ?s3"
  let ?t = "goto g (WaitReturned (Inl e)) (?s4\<lparr>psMu := None, psTrace := psTrace ?s4 @ wait_hooks api p (Inl e) d\<rparr>)"
  have "pending_work api p ?s3 ?s4" by (rule pending_work.unknown [OF _ unknown(3)]) (use assms(2) in simp)
  moreover have "pending_work api p ?s4 ?t" by (rule pending_work.unlock) (use assms(2) in simp)
  moreover have "(pending_move api p)\<^sup>*\<^sup>* s ?s3" using assms(1-3) by (intro asked_run) (simp_all add: agrees_def)
  ultimately have "(pending_move api p)\<^sup>*\<^sup>* s ?t" by (meson pending_work_moves r_into_rtranclp rtranclp_trans)
  moreover from assms(4) have "res = Inl e'" "trace w' = psTrace ?t" "once w' = once w"
    using assms(1) by (auto simp: unknown(1,2) agrees_def wait_hooks_def wait_result_def err_of_def)
  ultimately show ?thesis using assms(1)
    by (intro exI [of _ ?t] exI [of _ "Inl e"]) (simp add: agrees_def wait_result_def unknown(2))
next
  case (known st x y d)
  let ?s3 = "asked_state p g s (phase_ctx api ctx (CommitStatusTimeout (ctCfg (pContract p))) y)"
  let ?s4 = "goto g (AtOnce (ByWait st)) ?s3"
  let ?s5 = "goto g (Finishing (Inr st)) (?s4\<lparr>psCell := OnceDone,
      psTrace := psTrace ?s4 @ (if psCell s = OnceDone then [] else closes (pRelease p))\<rparr>)"
  let ?t = "goto g (WaitReturned (Inr st)) (?s5\<lparr>psMu := None, psTrace := psTrace ?s5 @ wait_hooks api p (Inr st) d\<rparr>)"
  have "pending_work api p ?s3 ?s4" by (rule pending_work.known [OF _ known(2)]) (use assms(2) in simp)
  moreover have "(pending_work api p)\<^sup>*\<^sup>* ?s4 ?s5"
    using once_run [of g ?s4 "ByWait st" api p] assms(1,2) by (simp add: agrees_def)
  moreover have "pending_work api p ?s5 ?t" by (rule pending_work.unlock) (use assms(2) in simp)
  moreover have "(pending_move api p)\<^sup>*\<^sup>* s ?s3" using assms(1-3) by (intro asked_run) (simp_all add: agrees_def)
  ultimately have "(pending_move api p)\<^sup>*\<^sup>* s ?t" by (meson pending_work_moves r_into_rtranclp rtranclp_trans)
  moreover have res: "wait_result api p (Inr st) = commit_outcome api p st" by (simp add: wait_result_def commit_outcome_def)
  moreover from assms(4) have "res = commit_outcome api p st" "trace w' = psTrace ?t" "once w' (pAddr p)"
    using assms(1) res by (auto simp: known(1) agrees_def wait_hooks_def)
  ultimately show ?thesis
    by (intro exI [of _ ?t] exI [of _ "Inr st"]) (simp add: agrees_def)
qed

lemma Release_run:
  assumes "agrees p w s" and "pc_is s g pc" and "at_rest pc" and "run_state (Release api p) w = (u, w')"
  shows "\<exists>t. (pending_move api p)\<^sup>*\<^sup>* s t \<and> agrees p w' t \<and> psPc t = (psPc s)[g := ReleaseReturned]"
proof -
  let ?r = "goto g (AtOnce ByRelease) s"
  let ?t = "goto g ReleaseReturned (?r\<lparr>psCell := OnceDone,
      psTrace := psTrace ?r @ (if psCell s = OnceDone then [] else closes (pRelease p))\<rparr>)"
  have "pending_move api p s ?r" using assms(2,3) by (auto simp: pending_move_def intro: pending_call.call_release)
  moreover have "(pending_work api p)\<^sup>*\<^sup>* ?r ?t"
    using once_run [of g ?r ByRelease api p] assms(1,2) by (simp add: agrees_def)
  ultimately have "(pending_move api p)\<^sup>*\<^sup>* s ?t" by (blast intro: converse_rtranclp_into_rtranclp pending_work_moves)
  moreover have "agrees p w' ?t" using assms(1,4) by (auto simp: run_Release agrees_def split: if_splits)
  ultimately show ?thesis by (intro exI [of _ ?t]) simp
qed

text \<open>
  C21: the methods of a pending transaction as they run alone are runs of the concurrent model.
  From a moment at which no call is under way, a goroutine that calls \<open>Wait\<close> or \<open>Release\<close> and is
  not interrupted does exactly what the sequential definition does, in the same order, and
  returns what it returns.
\<close>

theorem pending_sequential_run:
  assumes "agrees p w s" and "pc_is s g pc" and "at_rest pc"
  shows "(case run_state (Wait api p ctx) w of (res, w') \<Rightarrow>
       \<exists>t r. (pending_move api p)\<^sup>*\<^sup>* s t \<and> agrees p w' t \<and> psPc t = (psPc s)[g := WaitReturned r] \<and> wait_result api p r = res) \<and>
    (case run_state (Release api p) w of (_, w') \<Rightarrow>
       \<exists>t. (pending_move api p)\<^sup>*\<^sup>* s t \<and> agrees p w' t \<and> psPc t = (psPc s)[g := ReleaseReturned])"
proof
  obtain res w' where run: "run_state (Wait api p ctx) w = (res, w')" by fastforce
  from Wait_run [OF assms run] show "case run_state (Wait api p ctx) w of (res, w') \<Rightarrow>
       \<exists>t r. (pending_move api p)\<^sup>*\<^sup>* s t \<and> agrees p w' t \<and> psPc t = (psPc s)[g := WaitReturned r] \<and> wait_result api p r = res"
    by (simp add: run)
  obtain u w'' where run: "run_state (Release api p) w = (u, w'')" by (cases "run_state (Release api p) w")
  from Release_run [OF assms run] show "case run_state (Release api p) w of (_, w') \<Rightarrow>
       \<exists>t. (pending_move api p)\<^sup>*\<^sup>* s t \<and> agrees p w' t \<and> psPc t = (psPc s)[g := ReleaseReturned]"
    by (simp add: run)
qed

text \<open>
  Three goroutines share a pending transaction: one has released it, one is asking for the status,
  and one waits for the mutex.
\<close>

lemma example_shared:
  "\<exists>s c. (pending_move calm_api example_pending)\<^sup>*\<^sup>* (pending_init 3) s \<and> psPc s = [Asked c, Locking None, ReleaseReturned]"
proof -
  have "agrees example_pending calm_world (pending_init 3)"
    by (simp add: agrees_def pending_init_def calm_world_def)
  from Release_run [OF this, of 2 Resting calm_api] obtain t where t: "(pending_move calm_api example_pending)\<^sup>*\<^sup>* (pending_init 3) t"
      "psMu t = None" "psPc t = [Resting, Resting, ReleaseReturned]"
    by (cases "run_state (Release calm_api example_pending) calm_world") (auto simp: pending_init_def agrees_def numeral_eq_Suc)
  from asked_run [of 0 t Resting calm_api example_pending None 0] t(2,3) obtain c where
    "(pending_move calm_api example_pending)\<^sup>*\<^sup>* t (asked_state example_pending 0 t c)" by auto
  moreover have "pending_move calm_api example_pending (asked_state example_pending 0 t c) (goto 1 (Locking None) (asked_state example_pending 0 t c))"
    unfolding pending_move_def by (rule disjI1, rule pending_call.call_wait [of _ _ Resting]) (simp_all add: t(3))
  ultimately have "(pending_move calm_api example_pending)\<^sup>*\<^sup>* (pending_init 3) (goto 1 (Locking None) (asked_state example_pending 0 t c))"
    using t(1) by (meson r_into_rtranclp rtranclp_trans)
  then show ?thesis by (intro exI [of _ "goto 1 (Locking None) (asked_state example_pending 0 t c)"] exI [of _ c]) (simp add: t(3))
qed

theorem pending_shared_safe_witness:
  "\<exists>s c. (pending_move calm_api example_pending)\<^sup>*\<^sup>* (pending_init 3) s \<and> psPc s = [Asked c, Locking None, ReleaseReturned] \<and>
     gateways (psTrace s) = [EGatewayClose 7]"
proof -
  from example_shared obtain s c where s: "(pending_move calm_api example_pending)\<^sup>*\<^sup>* (pending_init 3) s"
    "psPc s = [Asked c, Locking None, ReleaseReturned]" by blast
  from pending_shared_safe [OF s(1), THEN conjunct2, THEN conjunct2, THEN spec, of 2] s show ?thesis
    by (auto simp: example_pending_def numeral_eq_Suc)
qed

theorem pending_shared_returns_witness:
  "\<exists>s c t. psPc s = [Asked c, Locking None, ReleaseReturned] \<and> (pending_work calm_api example_pending)\<^sup>*\<^sup>* s t \<and> list_all at_rest (psPc t)"
proof -
  from example_shared obtain s c where s: "(pending_move calm_api example_pending)\<^sup>*\<^sup>* (pending_init 3) s"
    "psPc s = [Asked c, Locking None, ReleaseReturned]" by blast
  with pending_shared_returns [OF s(1)] show ?thesis by blast
qed

theorem pending_sequential_run_witness:
  "\<exists>t r. (pending_move lost_peer_api example_pending)\<^sup>*\<^sup>* (pending_init 1) t \<and> psPc t = [WaitReturned r] \<and>
     wait_result lost_peer_api example_pending r = fst (run_state (Wait lost_peer_api example_pending None) calm_world)"
proof -
  have "agrees example_pending calm_world (pending_init 1)"
    by (simp add: agrees_def pending_init_def calm_world_def)
  from pending_sequential_run [OF this, of 0 Resting lost_peer_api None] show ?thesis
    by (auto simp: pending_init_def split: prod.splits)
qed

end
