(* ===== verification/Shared_Client.thy ===== *)
theory Shared_Client
  imports Once_Cell
begin

text \<open>
  A client (\<open>src/client.go\<close>) used and closed by several goroutines: the atomic flag \<open>closed\<close>, the
  \<open>sync.Once\<close> of \<open>Close\<close>, and operations that check the flag in \<open>gateway\<close> before they use the Gateway.
  Shown: one release of what the client owns, after the flag is set, and what the check is worth.
\<close>

section \<open>A client shared by goroutines\<close>

text \<open>
  Goroutines that call operations on handles of one client, signing with the client's identity,
  while others close it. An operation reads the flag \<open>closed\<close> in \<open>gateway\<close> and then uses the Gateway;
  \<open>Close\<close> runs the body of \<open>closeOnce\<close>: set the flag, then release what the client owns, in order.
\<close>

datatype client_pc =
  Apart
| Checking "effect list"
| Using "effect list"
| Refused
| OpReturned
| AtClose
| StoringClosed
| RunningClose "effect list"
| CloseReturned

record client_state =
  csClosed :: bool
  csCell :: once_cell
  csTrace :: "effect list"
  csPc :: "client_pc list"

fun client_at_rest :: "client_pc \<Rightarrow> bool" where
  "client_at_rest Apart = True"
| "client_at_rest Refused = True"
| "client_at_rest OpReturned = True"
| "client_at_rest CloseReturned = True"
| "client_at_rest _ = False"

fun in_close :: "client_pc \<Rightarrow> bool" where
  "in_close StoringClosed = True"
| "in_close (RunningClose es) = True"
| "in_close _ = False"

text \<open>What the body of \<open>closeOnce\<close> releases; \<open>k\<close> is the signer of the client's identity, if it has one.\<close>

definition close_effects :: "FabricClient \<Rightarrow> nat option \<Rightarrow> effect list" where
  "close_effects fc k =
     [EGatewayClose (fcGw fc)]
     @ (case fcOwnedConn fc of None \<Rightarrow> [] | Some c \<Rightarrow> [EConnClose c])
     @ (if fcOwnsID fc then (case k of None \<Rightarrow> [] | Some f \<Rightarrow> [ESignerClose f]) else [])"

fun is_release :: "effect \<Rightarrow> bool" where
  "is_release (EGatewayClose g) = True"
| "is_release (EConnClose c) = True"
| "is_release (ESignerClose k) = True"
| "is_release _ = False"

abbreviation client_goto :: "nat \<Rightarrow> client_pc \<Rightarrow> client_state \<Rightarrow> client_state" where
  "client_goto g pc s \<equiv> s\<lparr>csPc := (csPc s)[g := pc]\<rparr>"

abbreviation client_pc_is :: "client_state \<Rightarrow> nat \<Rightarrow> client_pc \<Rightarrow> bool" where
  "client_pc_is s g pc \<equiv> g < length (csPc s) \<and> csPc s ! g = pc"

text \<open>An operation is given by the calls it makes about a transaction once it has its Gateway.\<close>

inductive client_move :: "FabricClient \<Rightarrow> nat option \<Rightarrow> client_state \<Rightarrow> client_state \<Rightarrow> bool" for fc k where
  call_op: "client_pc_is s g pc \<Longrightarrow> client_at_rest pc \<Longrightarrow> list_all is_rpc es \<Longrightarrow>
    client_move fc k s (client_goto g (Checking es) s)"
| call_close: "client_pc_is s g pc \<Longrightarrow> client_at_rest pc \<Longrightarrow> client_move fc k s (client_goto g AtClose s)"
| refuse: "client_pc_is s g (Checking es) \<Longrightarrow> csClosed s \<Longrightarrow> client_move fc k s (client_goto g Refused s)"
| accept: "client_pc_is s g (Checking es) \<Longrightarrow> \<not> csClosed s \<Longrightarrow> client_move fc k s (client_goto g (Using es) s)"
| use: "client_pc_is s g (Using (e # es)) \<Longrightarrow>
    client_move fc k s (client_goto g (Using es) (s\<lparr>csTrace := csTrace s @ [e]\<rparr>))"
| return: "client_pc_is s g (Using es) \<Longrightarrow> client_move fc k s (client_goto g OpReturned s)"
| close_enter: "client_pc_is s g AtClose \<Longrightarrow> csCell s = OnceFresh \<Longrightarrow>
    client_move fc k s (client_goto g StoringClosed (s\<lparr>csCell := OnceBusy g\<rparr>))"
| close_store: "client_pc_is s g StoringClosed \<Longrightarrow>
    client_move fc k s (client_goto g (RunningClose (close_effects fc k)) (s\<lparr>csClosed := True\<rparr>))"
| close_act: "client_pc_is s g (RunningClose (e # es)) \<Longrightarrow>
    client_move fc k s (client_goto g (RunningClose es) (s\<lparr>csTrace := csTrace s @ [e]\<rparr>))"
| close_leave: "client_pc_is s g (RunningClose []) \<Longrightarrow>
    client_move fc k s (client_goto g CloseReturned (s\<lparr>csCell := OnceDone\<rparr>))"
| close_skip: "client_pc_is s g AtClose \<Longrightarrow> csCell s = OnceDone \<Longrightarrow>
    client_move fc k s (client_goto g CloseReturned s)"

definition client_init :: "nat \<Rightarrow> client_state" where
  "client_init n = \<lparr>csClosed = False, csCell = OnceFresh, csTrace = [], csPc = replicate n Apart\<rparr>"

definition client_initial :: "client_state \<Rightarrow> bool" where
  "client_initial s = (\<exists>n. s = client_init n)"

text \<open>
  The invariant: who runs the body of \<open>closeOnce\<close>, that nothing is released before the flag is set,
  and that operations make no call but those about transactions.
\<close>

fun client_pc_ok :: "bool \<Rightarrow> client_pc \<Rightarrow> bool" where
  "client_pc_ok cl (Checking es) = list_all is_rpc es"
| "client_pc_ok cl (Using es) = list_all is_rpc es"
| "client_pc_ok cl (RunningClose es) = (cl \<and> list_all is_release es)"
| "client_pc_ok cl _ = True"

definition client_inv :: "client_state \<Rightarrow> bool" where
  "client_inv s =
     (owned_by in_close (csPc s) (once_owner (csCell s)) \<and> list_all (client_pc_ok (csClosed s)) (csPc s) \<and>
      (csCell s = OnceDone \<longrightarrow> csClosed s))"

definition client_todo :: "FabricClient \<Rightarrow> nat option \<Rightarrow> client_state \<Rightarrow> effect list" where
  "client_todo fc k s =
     (case csCell s of
        OnceBusy g \<Rightarrow> (case csPc s ! g of StoringClosed \<Rightarrow> close_effects fc k | RunningClose es \<Rightarrow> es | _ \<Rightarrow> [])
      | _ \<Rightarrow> [])"

definition client_view :: "FabricClient \<Rightarrow> nat option \<Rightarrow> client_state \<Rightarrow> once_view" where
  "client_view fc k s =
     \<lparr>ovCell = csCell s, ovTodo = client_todo fc k s, ovDid = filter is_release (csTrace s),
      ovPast = {g. g < length (csPc s) \<and> csPc s ! g = CloseReturned}\<rparr>"

lemma client_pc_ok_mono: "client_pc_ok cl pc \<Longrightarrow> client_pc_ok True pc"
  by (cases pc) auto

lemma close_effects_release: "list_all is_release (close_effects fc k)"
  by (simp add: close_effects_def split: option.split)

lemma rpc_no_release: "is_rpc e \<Longrightarrow> \<not> is_release e"
  by (cases e) auto

lemma at_rest_not_closing [simp]: "client_at_rest pc \<Longrightarrow> \<not> in_close pc"
  by (cases pc) auto

lemma client_inv_move:
  assumes "client_move fc k s t" and "client_inv s"
  shows "client_inv t"
  using assms
proof (induction rule: client_move.induct)
  case (use s g e es)
  then have "list_all is_rpc (e # es)" by (auto simp: client_inv_def dest: list_all_at)
  with use show ?case by (auto simp: client_inv_def intro!: owned_by_keep list_all_goto)
next
  case (accept s g es)
  then have "list_all is_rpc es" by (auto simp: client_inv_def dest: list_all_at)
  with accept show ?case by (auto simp: client_inv_def intro!: owned_by_keep list_all_goto)
next
  case (close_store s g)
  then have "list_all (client_pc_ok True) (csPc s)"
    by (auto simp: client_inv_def elim: list.pred_mono_strong client_pc_ok_mono)
  with close_store show ?case
    by (auto simp: client_inv_def close_effects_release intro!: owned_by_keep list_all_goto)
next
  case (close_act s g e es)
  then have "client_pc_ok (csClosed s) (RunningClose (e # es))" by (auto simp: client_inv_def dest: list_all_at)
  with close_act show ?case by (auto simp: client_inv_def intro!: owned_by_keep list_all_goto)
next
  case (close_leave s g)
  then have "client_pc_ok (csClosed s) (RunningClose [])" by (auto simp: client_inv_def dest: list_all_at)
  moreover from close_leave have "owned_by in_close ((csPc s)[g := CloseReturned]) None"
    unfolding client_inv_def by (intro owned_by_drop) auto
  ultimately show ?case using close_leave by (auto simp: client_inv_def intro!: list_all_goto)
qed (auto simp: client_inv_def intro!: owned_by_keep owned_by_take list_all_goto)

lemma client_owner:
  "client_inv s \<Longrightarrow> client_pc_is s g pc \<Longrightarrow> in_close pc \<Longrightarrow> csCell s = OnceBusy g"
  by (cases "csCell s") (auto simp: client_inv_def dest: owned_by_owner)

text \<open>A step that keeps the cell and releases nothing is a move of the once view.\<close>

lemma client_view_quiet:
  assumes "client_inv s" "g < length (csPc s)" "\<not> in_close (csPc s ! g)"
    and "csPc t = (csPc s)[g := pc]" "csCell t = csCell s" "filter is_release (csTrace t) = filter is_release (csTrace s)"
    and "pc = CloseReturned \<Longrightarrow> csCell s = OnceDone"
  shows "once_move b (client_view fc k s) (client_view fc k t)"
proof -
  let ?past = "ovPast (client_view fc k s)"
  have past: "ovPast (client_view fc k t) = (if pc = CloseReturned then insert g ?past else ?past - {g})"
    unfolding client_view_def assms(4) by (simp only: once_view.simps places_update [OF assms(2), of pc "\<lambda>q. q = CloseReturned"])
  have todo: "client_todo fc k t = client_todo fc k s"
  proof (cases "csCell s")
    case (OnceBusy h)
    with assms(1) have "h < length (csPc s)" "in_close (csPc s ! h)" by (auto simp: client_inv_def dest: owned_byD)
    with assms(3) have "h \<noteq> g" by blast
    with OnceBusy assms(4,5) show ?thesis by (simp add: client_todo_def)
  qed (use assms(5) in \<open>simp_all add: client_todo_def\<close>)
  have v: "client_view fc k t = (client_view fc k s)\<lparr>ovPast := if pc = CloseReturned then insert g ?past else ?past - {g}\<rparr>"
    unfolding past [symmetric] by (simp add: client_view_def assms(5,6) todo)
  show ?thesis
  proof (cases "pc = CloseReturned")
    case True
    with assms(7) have "ovCell (client_view fc k s) = OnceDone" by (simp add: client_view_def)
    with True show ?thesis unfolding v by (simp add: once_move.skip)
  qed (simp add: v once_move.again)
qed

lemma client_view_goto:
  "client_inv s \<Longrightarrow> client_pc_is s g q \<Longrightarrow> \<not> in_close q \<Longrightarrow> (pc = CloseReturned \<Longrightarrow> csCell s = OnceDone) \<Longrightarrow>
     once_move b (client_view fc k s) (client_view fc k (client_goto g pc s))"
  by (rule client_view_quiet [where g = g and pc = pc]) auto

lemma client_view_act:
  assumes inv: "client_inv s" and pc: "client_pc_is s g (RunningClose (e # es))"
  shows "once_move z (client_view fc k s) (client_view fc k (client_goto g (RunningClose es) (s\<lparr>csTrace := csTrace s @ [e]\<rparr>)))"
    (is "once_move z ?s ?t")
proof -
  have cell: "csCell s = OnceBusy g" using inv pc by (auto intro: client_owner)
  have "client_pc_ok (csClosed s) (RunningClose (e # es))" using inv pc by (auto simp: client_inv_def dest: list_all_at)
  then have "is_release e" by simp
  moreover have "ovPast ?t = ovPast ?s" using pc by (auto simp: client_view_def nth_list_update)
  ultimately have "?t = ?s\<lparr>ovTodo := es, ovDid := ovDid ?s @ [e]\<rparr>"
    using pc by (simp add: client_view_def client_todo_def cell)
  moreover have "ovCell ?s = OnceBusy g" "ovTodo ?s = e # es"
    using pc by (simp_all add: client_view_def client_todo_def cell)
  ultimately show ?thesis by (simp add: once_move.act)
qed

lemma client_view_leave:
  assumes inv: "client_inv s" and pc: "client_pc_is s g (RunningClose [])"
  shows "once_move z (client_view fc k s) (client_view fc k (client_goto g CloseReturned (s\<lparr>csCell := OnceDone\<rparr>)))"
    (is "once_move z ?s ?t")
proof -
  have cell: "csCell s = OnceBusy g" using inv pc by (auto intro: client_owner)
  have "ovPast ?t = insert g (ovPast ?s)" using pc by (auto simp: client_view_def nth_list_update)
  then have "?t = ?s\<lparr>ovCell := OnceDone, ovPast := insert g (ovPast ?s)\<rparr>"
    using pc by (simp add: client_view_def client_todo_def cell)
  moreover have "ovCell ?s = OnceBusy g" "ovTodo ?s = []"
    using pc by (simp_all add: client_view_def client_todo_def cell)
  ultimately show ?thesis by (simp add: once_move.leave)
qed

lemma client_view_move:
  "client_move fc k s t \<Longrightarrow> client_inv s \<Longrightarrow> once_move (close_effects fc k) (client_view fc k s) (client_view fc k t)"
proof (induction rule: client_move.induct)
  case (use s g e es)
  then have "client_pc_ok (csClosed s) (Using (e # es))" by (auto simp: client_inv_def dest: list_all_at)
  then have "\<not> is_release e" by (simp add: rpc_no_release)
  with use show ?case by (intro client_view_quiet [where g = g and pc = "Using es"]) auto
next
  case (close_enter s g)
  let ?t = "client_goto g StoringClosed (s\<lparr>csCell := OnceBusy g\<rparr>)"
  have "ovPast (client_view fc k ?t) = ovPast (client_view fc k s)"
    using close_enter by (auto simp: client_view_def nth_list_update)
  then have "client_view fc k ?t = (client_view fc k s)\<lparr>ovCell := OnceBusy g, ovTodo := close_effects fc k\<rparr>"
    using close_enter by (simp add: client_view_def client_todo_def)
  moreover have "ovCell (client_view fc k s) = OnceFresh" using close_enter by (simp add: client_view_def)
  ultimately show ?case by (simp add: once_move.enter)
next
  case (close_store s g)
  let ?t = "client_goto g (RunningClose (close_effects fc k)) (s\<lparr>csClosed := True\<rparr>)"
  have "csCell s = OnceBusy g" using close_store by (auto intro: client_owner)
  moreover have "ovPast (client_view fc k ?t) = ovPast (client_view fc k s)"
    using close_store by (auto simp: client_view_def nth_list_update)
  ultimately have "client_view fc k ?t = client_view fc k s"
    using close_store by (simp add: client_view_def client_todo_def)
  then show ?case by (simp add: once_move.other)
next
  case (close_act s g e es)
  then show ?case by (blast intro: client_view_act)
next
  case (close_leave s g)
  then show ?case by (blast intro: client_view_leave)
qed (erule client_view_goto [rotated]; auto dest: at_rest_not_closing)+

interpretation client_once: once_users "client_move fc k" client_initial client_inv "client_view fc k" "close_effects fc k" for fc k
proof
  fix s t :: client_state
  show "client_initial s \<Longrightarrow> client_inv s"
    by (auto simp: client_initial_def client_init_def client_inv_def owned_by_def list_all_iff)
  show "client_inv s \<Longrightarrow> client_move fc k s t \<Longrightarrow> client_inv t" by (rule client_inv_move)
  show "client_initial s \<Longrightarrow> once_fresh (client_view fc k s)"
    by (auto simp: client_initial_def client_init_def client_view_def client_todo_def once_fresh_def)
  show "client_inv s \<Longrightarrow> client_move fc k s t \<Longrightarrow> once_move (close_effects fc k) (client_view fc k s) (client_view fc k t)"
    by (rule client_view_move)
qed

lemma closed_stays:
  assumes "(client_move fc k)\<^sup>*\<^sup>* s t" "csClosed s"
  shows "csClosed t \<and> (\<forall>g es. client_pc_is t g (Using es) \<longrightarrow> (\<exists>es'. client_pc_is s g (Using es')))"
  using assms(1)
proof (induction rule: rtranclp_induct)
  case (step t u)
  from step.hyps(2) step.IH show ?case
    by (induction rule: client_move.induct) (auto simp: nth_list_update split: if_splits)
qed (use assms(2) in auto)

lemma released_closed:
  assumes "client_inv s" "once_ok (close_effects fc k) (client_view fc k s)" "filter is_release (csTrace s) \<noteq> []"
  shows "csClosed s"
proof (cases "csCell s")
  case OnceFresh
  with assms(2,3) show ?thesis by (simp add: once_ok_def client_view_def)
next
  case (OnceBusy g)
  with assms(1) have g: "g < length (csPc s)" "in_close (csPc s ! g)" by (auto simp: client_inv_def dest: owned_byD)
  show ?thesis
  proof (cases "csPc s ! g")
    case StoringClosed
    with OnceBusy assms(2) have "filter is_release (csTrace s) = []"
      by (simp add: once_ok_def client_view_def client_todo_def)
    with assms(3) show ?thesis by blast
  next
    case (RunningClose es)
    with g assms(1) have "client_pc_ok (csClosed s) (RunningClose es)" by (auto simp: client_inv_def dest: list_all_at)
    then show ?thesis by simp
  qed (use g in auto)
next
  case OnceDone
  with assms(1) show ?thesis by (simp add: client_inv_def)
qed


text \<open>
  The check and the use of a Gateway are two steps: an operation that passed the check may make its
  calls on a Gateway and connection that \<open>Close\<close> has released in between. The closed client of the
  example has two goroutines, one closing and one using it.
\<close>

lemma client_run:
  assumes "client_pc_is s g pc" "client_at_rest pc" "csCell s = OnceFresh"
  shows "(client_move fc k)\<^sup>*\<^sup>* s (client_goto g CloseReturned (s\<lparr>csClosed := True, csCell := OnceDone, csTrace := csTrace s @ close_effects fc k\<rparr>))"
proof -
  have acts: "(client_move fc k)\<^sup>*\<^sup>* u (client_goto g (RunningClose []) (u\<lparr>csTrace := csTrace u @ es\<rparr>))"
    if "client_pc_is u g (RunningClose es)" for u es
    using that
  proof (induction es arbitrary: u)
    case Nil
    then have "(csPc u)[g := RunningClose []] = csPc u" by (metis list_update_id)
    then show ?case by (cases u) simp
  next
    case (Cons e es)
    let ?u = "client_goto g (RunningClose es) (u\<lparr>csTrace := csTrace u @ [e]\<rparr>)"
    have "client_move fc k u ?u" by (rule client_move.close_act) (rule Cons.prems)
    moreover have "(client_move fc k)\<^sup>*\<^sup>* ?u (client_goto g (RunningClose []) (u\<lparr>csTrace := csTrace u @ e # es\<rparr>))"
      using Cons.IH [of ?u] Cons.prems by (cases u) simp
    ultimately show ?case by (rule converse_rtranclp_into_rtranclp)
  qed
  let ?s1 = "client_goto g AtClose s"
  let ?s2 = "client_goto g StoringClosed (s\<lparr>csCell := OnceBusy g\<rparr>)"
  let ?s3 = "client_goto g (RunningClose (close_effects fc k)) (s\<lparr>csCell := OnceBusy g, csClosed := True\<rparr>)"
  let ?s4 = "client_goto g (RunningClose []) (s\<lparr>csCell := OnceBusy g, csClosed := True, csTrace := csTrace s @ close_effects fc k\<rparr>)"
  let ?s5 = "client_goto g CloseReturned (s\<lparr>csClosed := True, csCell := OnceDone, csTrace := csTrace s @ close_effects fc k\<rparr>)"
  have "client_move fc k s ?s1" using assms by (auto intro: client_move.call_close)
  moreover have "client_move fc k ?s1 ?s2" using client_move.close_enter [of g ?s1 fc k] assms by simp
  moreover have "client_move fc k ?s2 ?s3" using client_move.close_store [of g ?s2 fc k] assms by (cases s) simp
  moreover have "(client_move fc k)\<^sup>*\<^sup>* ?s3 ?s4" using acts [of ?s3 "close_effects fc k"] assms by (cases s) simp
  moreover have "client_move fc k ?s4 ?s5" using client_move.close_leave [of g ?s4 fc k] assms by (cases s) simp
  ultimately show ?thesis by (meson r_into_rtranclp rtranclp_trans)
qed

lemma client_race:
  "\<exists>s. (client_move example_client None)\<^sup>*\<^sup>* (client_init 2) s \<and> csPc s = [Using [], CloseReturned] \<and>
     csTrace s = [EGatewayClose 6, EConnClose 5, EProposal (target example_contract 6) ''Get'' []]"
proof -
  let ?e = "EProposal (target example_contract 6) ''Get'' []"
  let ?s1 = "client_goto 0 (Checking [?e]) (client_init 2)"
  let ?s2 = "client_goto 0 (Using [?e]) (client_init 2)"
  have eff: "close_effects example_client None = [EGatewayClose 6, EConnClose 5]"
    by (simp add: close_effects_def example_client_def)
  let ?s3 = "\<lparr>csClosed = True, csCell = OnceDone, csTrace = [EGatewayClose 6, EConnClose 5], csPc = [Using [?e], CloseReturned]\<rparr>"
  let ?s4 = "\<lparr>csClosed = True, csCell = OnceDone, csTrace = [EGatewayClose 6, EConnClose 5, ?e], csPc = [Using [], CloseReturned]\<rparr>"
  have "client_move example_client None (client_init 2) ?s1"
    by (rule client_move.call_op [of _ _ Apart]) (simp_all add: client_init_def)
  moreover have "client_move example_client None ?s1 ?s2"
    using client_move.accept [of 0 ?s1 "[?e]"] by (simp add: client_init_def)
  moreover have "(client_move example_client None)\<^sup>*\<^sup>* ?s2 ?s3"
    using client_run [of 1 ?s2 Apart example_client None] by (simp add: client_init_def eff numeral_2_eq_2)
  moreover have "client_move example_client None ?s3 ?s4"
    using client_move.use [of 0 ?s3 ?e "[]" example_client None] by simp
  ultimately have "(client_move example_client None)\<^sup>*\<^sup>* (client_init 2) ?s4" by (meson r_into_rtranclp rtranclp_trans)
  then show ?thesis by (intro exI [of _ ?s4]) simp
qed


text \<open>What \<open>Close\<close> releases when it runs alone is the body of the cell.\<close>

lemma Close_trace:
  "built fc w \<Longrightarrow> trace (snd (run_state (Close api fc) w)) = trace w @ close_effects fc (idClose w (iAddr (fcId fc)))"
  by (simp add: run_Close run_close_body built_def close_effects_def)

end
