(* ===== verification/Shared_Identity.thy ===== *)
theory Shared_Identity
  imports Once_Cell
begin

text \<open>
  An identity (\<open>src/identity.go\<close>) closed by several goroutines. \<open>Identity.Close\<close> reads the field \<open>close\<close>
  twice, clears it and calls what it read, without a lock. Shown: what holds in every interleaving
  of these steps, what holds if calls do not overlap, and two runs of overlapping calls that close
  the signer twice or call nil.
\<close>

section \<open>Closing an identity from several goroutines\<close>

text \<open>
  The points of \<open>Identity.Close\<close>: the test of the field \<open>close\<close>, its second reading into a variable,
  clearing it, and the call of the variable. A call of a nil function panics.
\<close>

datatype id_pc = IdApart | IdTesting | IdLoading | IdClearing "nat option" | IdCalling "nat option" | IdReturned | IdPanicked

text \<open>The last field is not in the program: it tells whether two calls were ever under way at once.\<close>

record id_state =
  idField :: "nat option"
  idTrace :: "effect list"
  idPc :: "id_pc list"
  idOverlap :: bool

fun id_inside :: "id_pc \<Rightarrow> bool" where
  "id_inside IdTesting = True"
| "id_inside IdLoading = True"
| "id_inside (IdClearing c) = True"
| "id_inside (IdCalling c) = True"
| "id_inside _ = False"

abbreviation id_goto :: "nat \<Rightarrow> id_pc \<Rightarrow> id_state \<Rightarrow> id_state" where
  "id_goto g pc s \<equiv> s\<lparr>idPc := (idPc s)[g := pc]\<rparr>"

abbreviation id_pc_is :: "id_state \<Rightarrow> nat \<Rightarrow> id_pc \<Rightarrow> bool" where
  "id_pc_is s g pc \<equiv> g < length (idPc s) \<and> idPc s ! g = pc"

inductive identity_move :: "id_state \<Rightarrow> id_state \<Rightarrow> bool" where
  call: "id_pc_is s g pc \<Longrightarrow> pc \<in> {IdApart, IdReturned} \<Longrightarrow>
    identity_move s (id_goto g IdTesting (s\<lparr>idOverlap := idOverlap s \<or> list_ex id_inside (idPc s)\<rparr>))"
| test_nil: "id_pc_is s g IdTesting \<Longrightarrow> idField s = None \<Longrightarrow> identity_move s (id_goto g IdReturned s)"
| test_set: "id_pc_is s g IdTesting \<Longrightarrow> idField s \<noteq> None \<Longrightarrow> identity_move s (id_goto g IdLoading s)"
| load: "id_pc_is s g IdLoading \<Longrightarrow> identity_move s (id_goto g (IdClearing (idField s)) s)"
| clear: "id_pc_is s g (IdClearing c) \<Longrightarrow> identity_move s (id_goto g (IdCalling c) (s\<lparr>idField := None\<rparr>))"
| run: "id_pc_is s g (IdCalling (Some c)) \<Longrightarrow>
    identity_move s (id_goto g IdReturned (s\<lparr>idTrace := idTrace s @ [ESignerClose c]\<rparr>))"
| panic: "id_pc_is s g (IdCalling None) \<Longrightarrow> identity_move s (id_goto g IdPanicked s)"

definition id_init :: "nat \<Rightarrow> nat \<Rightarrow> id_state" where
  "id_init k n = \<lparr>idField = Some k, idTrace = [], idPc = replicate n IdApart, idOverlap = False\<rparr>"

text \<open>What holds in every interleaving: only the identity's own signer is closed, and not before the field is cleared.\<close>

fun id_pc_ok :: "nat \<Rightarrow> bool \<Rightarrow> id_pc \<Rightarrow> bool" where
  "id_pc_ok k held (IdClearing c) = (c \<in> {None, Some k} \<and> (held \<longrightarrow> c = Some k))"
| "id_pc_ok k held (IdCalling c) = (c \<in> {None, Some k} \<and> \<not> held)"
| "id_pc_ok k held IdReturned = (\<not> held)"
| "id_pc_ok k held IdPanicked = (\<not> held)"
| "id_pc_ok k held _ = True"

definition id_inv :: "nat \<Rightarrow> id_state \<Rightarrow> bool" where
  "id_inv k s =
     (idField s \<in> {None, Some k} \<and> set (idTrace s) \<subseteq> {ESignerClose k} \<and> (idField s \<noteq> None \<longrightarrow> idTrace s = []) \<and>
      list_all (id_pc_ok k (idField s \<noteq> None)) (idPc s))"

text \<open>What holds while calls do not overlap: the goroutine inside, if any, has the state for itself.\<close>

fun id_alone :: "nat \<Rightarrow> id_state \<Rightarrow> id_pc \<Rightarrow> bool" where
  "id_alone k s IdLoading = (idField s = Some k \<and> idTrace s = [])"
| "id_alone k s (IdClearing c) = (c = Some k \<and> idField s = Some k \<and> idTrace s = [])"
| "id_alone k s (IdCalling c) = (c = Some k \<and> idField s = None \<and> idTrace s = [])"
| "id_alone k s _ = (if idField s = None then idTrace s = [ESignerClose k] else idField s = Some k \<and> idTrace s = [])"

definition id_exclusive :: "nat \<Rightarrow> id_state \<Rightarrow> bool" where
  "id_exclusive k s =
     (IdPanicked \<notin> set (idPc s) \<and> (IdReturned \<in> set (idPc s) \<longrightarrow> idTrace s = [ESignerClose k]) \<and>
      (\<exists>o'. owned_by id_inside (idPc s) o' \<and> id_alone k s (case o' of None \<Rightarrow> IdApart | Some g \<Rightarrow> idPc s ! g)))"

lemma id_inv_init: "id_inv k (id_init k n)"
  by (simp add: id_inv_def id_init_def list_all_iff)

lemma id_pc_ok_clear: "id_pc_ok k b pc \<Longrightarrow> id_pc_ok k False pc"
  by (cases pc) auto

lemma id_inv_move: "identity_move s t \<Longrightarrow> id_inv k s \<Longrightarrow> id_inv k t"
proof (induction rule: identity_move.induct)
  case (clear s g c)
  then have "list_all (id_pc_ok k False) (idPc s)" "id_pc_ok k (idField s \<noteq> None) (IdClearing c)"
    by (auto simp: id_inv_def dest: list_all_at elim: list.pred_mono_strong id_pc_ok_clear)
  with clear show ?case by (auto simp: id_inv_def intro!: list_all_goto)
next
  case (run s g c)
  then have "id_pc_ok k (idField s \<noteq> None) (IdCalling (Some c))" by (auto simp: id_inv_def dest: list_all_at)
  with run show ?case by (auto simp: id_inv_def intro!: list_all_goto)
next
  case (panic s g)
  then have "id_pc_ok k (idField s \<noteq> None) (IdCalling None)" by (auto simp: id_inv_def dest: list_all_at)
  with panic show ?case by (auto simp: id_inv_def intro!: list_all_goto)
next
  case (call s g pc)
  then show ?case by (auto simp: id_inv_def intro!: list_all_goto)
next
  case (load s g)
  then show ?case by (auto simp: id_inv_def intro!: list_all_goto)
qed (auto simp: id_inv_def intro!: list_all_goto)

lemma id_exclusive_init: "id_exclusive k (id_init k n)"
  unfolding id_exclusive_def by (intro conjI exI [of _ None]) (auto simp: id_init_def owned_by_def)

lemma id_alone_cong: "idField t = idField s \<Longrightarrow> idTrace t = idTrace s \<Longrightarrow> id_alone k t pc = id_alone k s pc"
  by (cases pc) simp_all

text \<open>A step of the goroutine inside, or of one that enters when nobody is.\<close>

lemma id_exclusive_goto:
  assumes "owned_by id_inside (idPc s) o'" "g < length (idPc s)" "IdPanicked \<notin> set (idPc s)" "pc \<noteq> IdPanicked"
    and "o' = None \<or> o' = Some g" and "idPc t = (idPc s)[g := pc]" and "id_alone k t pc"
    and "pc = IdReturned \<or> IdReturned \<in> set (idPc s) \<Longrightarrow> idTrace t = [ESignerClose k]"
  shows "id_exclusive k t"
proof -
  have "owned_by id_inside (idPc t) (if id_inside pc then Some g else None)"
    using assms(5)
  proof
    assume "o' = None"
    with assms(1,2) have "\<not> id_inside (idPc s ! g)" by (simp add: owned_by_def)
    with assms(1,2,6) \<open>o' = None\<close> show ?thesis by (simp add: owned_by_take owned_by_keep)
  next
    assume "o' = Some g"
    with assms(1) have "id_inside (idPc s ! g)" by (blast dest: owned_byD)
    with assms(1,2,6) \<open>o' = Some g\<close> show ?thesis by (auto intro: owned_by_keep owned_by_drop)
  qed
  moreover have "id_alone k t (case if id_inside pc then Some g else None of None \<Rightarrow> IdApart | Some g \<Rightarrow> idPc t ! g)"
    using assms(2,6,7) by (cases pc) simp_all
  moreover have "IdPanicked \<notin> set (idPc t)"
    using assms(3,4,6) set_update_subset_insert by fastforce
  moreover have "IdReturned \<in> set (idPc t) \<longrightarrow> idTrace t = [ESignerClose k]"
    using assms(6,8) set_update_subset_insert by fastforce
  ultimately show ?thesis unfolding id_exclusive_def by blast
qed

lemma id_exclusive_move:
  assumes "identity_move s t" "id_exclusive k s" "\<not> idOverlap t"
  shows "id_exclusive k t"
proof -
  from assms(2) obtain o' where ret: "IdReturned \<in> set (idPc s) \<longrightarrow> idTrace s = [ESignerClose k]" and
    o': "IdPanicked \<notin> set (idPc s)" "owned_by id_inside (idPc s) o'"
    "id_alone k s (case o' of None \<Rightarrow> IdApart | Some g \<Rightarrow> idPc s ! g)" by (auto simp: id_exclusive_def)
  note goto = id_exclusive_goto [OF o'(2) _ o'(1)]
  have here: "o' = Some g \<and> id_alone k s pc" if "id_pc_is s g pc" "id_inside pc" for g pc
    using o'(2,3) that by (auto dest: owned_by_owner)
  from assms(1) show ?thesis
  proof cases
    case (call g pc)
    with assms(3) have "o' = None" using o'(2) by (cases o') (auto simp: list_ex_length dest: owned_byD)
    with call o'(3) ret show ?thesis by (intro goto [of g IdTesting]) auto
  next
    case (test_nil g)
    with here [of g IdTesting] ret show ?thesis by (intro goto [of g IdReturned]) auto
  next
    case (test_set g)
    with here [of g IdTesting] ret show ?thesis by (intro goto [of g IdLoading]) auto
  next
    case (load g)
    with here [of g IdLoading] ret show ?thesis by (intro goto [of g "IdClearing (idField s)"]) auto
  next
    case (clear g c)
    with here [of g "IdClearing c"] ret show ?thesis by (intro goto [of g "IdCalling c"]) auto
  next
    case (run g c)
    with here [of g "IdCalling (Some c)"] ret show ?thesis by (intro goto [of g IdReturned]) auto
  next
    case (panic g)
    with here [of g "IdCalling None"] show ?thesis by auto
  qed
qed

lemma identity_reachable:
  assumes "identity_move\<^sup>*\<^sup>* (id_init k n) s"
  shows "id_inv k s \<and> (\<not> idOverlap s \<longrightarrow> id_exclusive k s)"
  using assms
proof (induction rule: rtranclp_induct)
  case base
  show ?case by (simp add: id_inv_init id_exclusive_init)
next
  case (step s t)
  have "idOverlap s \<longrightarrow> idOverlap t" using step(2) by cases auto
  with step show ?case by (blast intro: id_inv_move id_exclusive_move)
qed

text \<open>
  C37: closing an identity from several goroutines. In every interleaving of calls of
  \<open>Identity.Close\<close>, nothing but the identity's own signer is closed, and only after the field is
  cleared; whoever returned finds it cleared. As long as no two calls are under way at once, no
  call panics, the signer is closed at most once, and it is closed when a call has returned.
\<close>

theorem identity_close_shared:
  assumes "identity_move\<^sup>*\<^sup>* (id_init k n) s"
  shows "set (idTrace s) \<subseteq> {ESignerClose k} \<and> (idField s \<noteq> None \<longrightarrow> idTrace s = []) \<and>
    (IdReturned \<in> set (idPc s) \<longrightarrow> idField s = None) \<and>
    (\<not> idOverlap s \<longrightarrow> IdPanicked \<notin> set (idPc s) \<and> length (idTrace s) \<le> 1 \<and>
       (IdReturned \<in> set (idPc s) \<longrightarrow> idTrace s = [ESignerClose k]))"
proof -
  from identity_reachable [OF assms] have inv: "id_inv k s" and ex: "\<not> idOverlap s \<Longrightarrow> id_exclusive k s" by blast+
  have "id_alone k s pc \<Longrightarrow> length (idTrace s) \<le> 1" for pc by (cases pc) (auto split: if_splits)
  with ex have "\<not> idOverlap s \<longrightarrow> IdPanicked \<notin> set (idPc s) \<and> length (idTrace s) \<le> 1 \<and>
      (IdReturned \<in> set (idPc s) \<longrightarrow> idTrace s = [ESignerClose k])"
    by (auto simp: id_exclusive_def)
  moreover from inv have "IdReturned \<in> set (idPc s) \<longrightarrow> idField s = None" by (auto simp: id_inv_def list_all_iff)
  ultimately show ?thesis using inv by (auto simp: id_inv_def)
qed

text \<open>
  Calls that overlap: both read the field before either clears it, and the signer is closed twice; or
  the second tests it before and reads it after the first has cleared it, and calls nil.
\<close>

abbreviation "id_at f tr a b ov \<equiv> \<lparr>idField = f, idTrace = tr, idPc = [a, b], idOverlap = ov\<rparr>"

lemma identity_first:
  "identity_move (id_at f tr IdApart b ov) (id_at f tr IdTesting b (ov \<or> id_inside b))"
  "identity_move (id_at (Some k) tr IdTesting b ov) (id_at (Some k) tr IdLoading b ov)"
  "identity_move (id_at f tr IdLoading b ov) (id_at f tr (IdClearing f) b ov)"
  "identity_move (id_at f tr (IdClearing c) b ov) (id_at None tr (IdCalling c) b ov)"
  "identity_move (id_at f tr (IdCalling (Some k)) b ov) (id_at f (tr @ [ESignerClose k]) IdReturned b ov)"
  using identity_move.call [of 0 "id_at f tr IdApart b ov"] identity_move.test_set [of 0 "id_at (Some k) tr IdTesting b ov"]
    identity_move.load [of 0 "id_at f tr IdLoading b ov"] identity_move.clear [of 0 "id_at f tr (IdClearing c) b ov"]
    identity_move.run [of 0 "id_at f tr (IdCalling (Some k)) b ov"] by simp_all

lemma identity_second:
  "identity_move (id_at f tr a IdApart ov) (id_at f tr a IdTesting (ov \<or> id_inside a))"
  "identity_move (id_at (Some k) tr a IdTesting ov) (id_at (Some k) tr a IdLoading ov)"
  "identity_move (id_at f tr a IdLoading ov) (id_at f tr a (IdClearing f) ov)"
  "identity_move (id_at f tr a (IdClearing c) ov) (id_at None tr a (IdCalling c) ov)"
  "identity_move (id_at f tr a (IdCalling (Some k)) ov) (id_at f (tr @ [ESignerClose k]) a IdReturned ov)"
  "identity_move (id_at f tr a (IdCalling None) ov) (id_at f tr a IdPanicked ov)"
  using identity_move.call [of 1 "id_at f tr a IdApart ov"] identity_move.test_set [of 1 "id_at (Some k) tr a IdTesting ov"]
    identity_move.load [of 1 "id_at f tr a IdLoading ov"] identity_move.clear [of 1 "id_at f tr a (IdClearing c) ov"]
    identity_move.run [of 1 "id_at f tr a (IdCalling (Some k)) ov"] identity_move.panic [of 1 "id_at f tr a (IdCalling None) ov"] by simp_all

lemma id_init_2: "id_init k 2 = id_at (Some k) [] IdApart IdApart False"
  by (simp add: id_init_def numeral_2_eq_2)

lemmas identity_step = converse_rtranclp_into_rtranclp [where r = identity_move]

lemma identity_closed_twice: "\<exists>s. identity_move\<^sup>*\<^sup>* (id_init k 2) s \<and> idTrace s = [ESignerClose k, ESignerClose k]"
  unfolding id_init_2
  by (intro exI conjI)
    ((rule identity_step [OF identity_first(1)], rule identity_step [OF identity_second(1)],
      rule identity_step [OF identity_first(2)], rule identity_step [OF identity_second(2)],
      rule identity_step [OF identity_first(3)], rule identity_step [OF identity_second(3)],
      rule identity_step [OF identity_first(4)], rule identity_step [OF identity_second(4)],
      rule identity_step [OF identity_first(5)], rule identity_step [OF identity_second(5)], rule rtranclp.rtrancl_refl), simp)

lemma identity_calls_nil: "\<exists>s. identity_move\<^sup>*\<^sup>* (id_init k 2) s \<and> IdPanicked \<in> set (idPc s)"
  unfolding id_init_2
  by (intro exI conjI)
    ((rule identity_step [OF identity_first(1)], rule identity_step [OF identity_second(1)],
      rule identity_step [OF identity_first(2)], rule identity_step [OF identity_second(2)],
      rule identity_step [OF identity_first(3)], rule identity_step [OF identity_first(4)],
      rule identity_step [OF identity_second(3)], rule identity_step [OF identity_second(4)],
      rule identity_step [OF identity_second(6)], rule rtranclp.rtrancl_refl), simp)

theorem identity_close_shared_witness:
  "\<exists>s. identity_move\<^sup>*\<^sup>* (id_init 7 2) s \<and> set (idTrace s) \<subseteq> {ESignerClose 7} \<and> IdReturned \<in> set (idPc s) \<and> idField s = None"
proof -
  have "\<exists>s. identity_move\<^sup>*\<^sup>* (id_init 7 2) s \<and> IdReturned \<in> set (idPc s)"
    unfolding id_init_2
    by (intro exI conjI)
      ((rule identity_step [OF identity_first(1)], rule identity_step [OF identity_first(2)],
        rule identity_step [OF identity_first(3)], rule identity_step [OF identity_first(4)],
        rule identity_step [OF identity_first(5)], rule rtranclp.rtrancl_refl), simp)
  then obtain s where "identity_move\<^sup>*\<^sup>* (id_init 7 2) s" "IdReturned \<in> set (idPc s)" by blast
  with identity_close_shared [OF this(1)] show ?thesis by blast
qed

text \<open>Run alone, \<open>Identity_Close\<close> does what the steps of one goroutine do.\<close>

lemma Identity_Close_alone:
  assumes "idClose w (iAddr i) = Some k"
  shows "trace (snd (run_state (Identity_Close api (Some i)) w)) = trace w @ [ESignerClose k] \<and>
    idClose (snd (run_state (Identity_Close api (Some i)) w)) (iAddr i) = None \<and>
    identity_move\<^sup>*\<^sup>* (id_init k 1) \<lparr>idField = None, idTrace = [ESignerClose k], idPc = [IdReturned], idOverlap = False\<rparr>"
proof -
  let ?s = "\<lambda>f tr pc. \<lparr>idField = f, idTrace = tr, idPc = [pc], idOverlap = False\<rparr>"
  have "identity_move (?s (Some k) [] IdApart) (?s (Some k) [] IdTesting)" using identity_move.call [of 0 "?s (Some k) [] IdApart"] by simp
  moreover have "identity_move (?s (Some k) [] IdTesting) (?s (Some k) [] IdLoading)" using identity_move.test_set [of 0 "?s (Some k) [] IdTesting"] by simp
  moreover have "identity_move (?s (Some k) [] IdLoading) (?s (Some k) [] (IdClearing (Some k)))" using identity_move.load [of 0 "?s (Some k) [] IdLoading"] by simp
  moreover have "identity_move (?s (Some k) [] (IdClearing (Some k))) (?s None [] (IdCalling (Some k)))"
    using identity_move.clear [of 0 "?s (Some k) [] (IdClearing (Some k))"] by simp
  moreover have "identity_move (?s None [] (IdCalling (Some k))) (?s None [ESignerClose k] IdReturned)"
    using identity_move.run [of 0 "?s None [] (IdCalling (Some k))"] by simp
  moreover have "id_init k 1 = ?s (Some k) [] IdApart" by (simp add: id_init_def)
  ultimately have "identity_move\<^sup>*\<^sup>* (id_init k 1) (?s None [ESignerClose k] IdReturned)"
    by (metis converse_rtranclp_into_rtranclp rtranclp.rtrancl_refl)
  with assms show ?thesis by (simp add: Identity_Close_def)
qed

end
