(* ===== verification/Spec2Isabelle.thy ===== *)
theory Spec2Isabelle
  imports Basic_Ledger Progress Restarts Shared_Pending Shared_Client Shared_Identity
begin

text \<open>
  A model of \<open>fabricsdk\<close>, a Go client library for Hyperledger Fabric (\<open>src/\<close>), and what it guarantees.

  \<^bold>\<open>The program.\<close> An application builds a client (\<open>client.go\<close>) from a configuration (\<open>config.go\<close>) and an
  identity (\<open>identity.go\<close>, \<open>identity_hsm.go\<close>), takes handles on contracts from it (\<open>contract.go\<close>),
  and evaluates or submits transactions, looks transactions up, or follows events and blocks
  (\<open>events.go\<close>). Everything goes through the Fabric Gateway client over one gRPC connection. Each
  failure becomes an \<open>*Error\<close> with a kind (\<open>errors.go\<close>), whose most important promise is to say when
  a transaction may have been ordered although the call failed; chaincode can report typed errors
  through the package \<open>ccerr\<close>. Hooks report what happens (\<open>observe.go\<close>).

  \<^bold>\<open>Theories.\<close>
  \<^item> \<open>Go_Prelude\<close>: Go's string functions, integers and paths as the sources use them, on byte
    strings, and lemmas on them.
  \<^item> \<open>Ccerr\<close> (\<open>ccerr/ccerr.go\<close>): error codes, rendering and parsing. Parsing inverts rendering.
  \<^item> \<open>Errors\<close> (\<open>errors.go\<close>): error values as a datatype with what they wrap, the predicates of the
    package, and \<open>classify\<close> with its helpers. Shown: when the outcome is open, that retrying is
    safe, how chaincode errors are attributed and understood, that the search for them agrees
    with a single pass by strength of evidence, and that wrapping hides nothing.
    The locale \<open>phase_classifier\<close> is the contract the callers of \<open>classify\<close> rely on.
  \<^item> \<open>Observe\<close> (\<open>observe.go\<close>): loggers, observers and their records.
  \<^item> \<open>World\<close>: contexts, the functions outside the repository as a record \<open>api\<close> over a state \<open>'w\<close> of
    the outside world, and the world the operations run on: that state, a trace of effects, and
    the fields of the package's objects that change. The locale \<open>once_only\<close> is the contract of an
    operation that takes effect once.
  \<^item> \<open>Config\<close> (\<open>config.go\<close>): defaults, validation, the gRPC target and the TLS server name.
  \<^item> \<open>Identity\<close> (\<open>identity.go\<close>, \<open>identity_hsm.go\<close>): loading and closing identities.
  \<^item> \<open>Client\<close> (\<open>client.go\<close>): building and closing a client, call options, default timeouts. Shown:
    no leak on any path, TLS on every connection \<open>New\<close> makes, closing releases once what the
    client owns.
  \<^item> \<open>Contract\<close> (\<open>contract.go\<close> and the client's delegating methods): handles and their operations,
    each a state transformer with its deferred calls written out. \<open>Contract_Calls\<close> holds how they
    run and what they promise: the relation \<open>submission\<close> is the protocol of a submitted
    transaction, which \<open>Submit\<close> refines; errors, Gateways, waiting, observers, logs, \<open>TxStatus\<close>.
  \<^item> \<open>Resubmission\<close>: what the errors are good for, seen from the ledger. Under what Fabric documents
    about ordering (\<open>orders_once\<close>) and about looking a transaction up (\<open>looks_up\<close>), following
    \<open>IsRetryable\<close> commits a request at most once, \<open>TxStatus\<close> settles an open outcome, and an ID
    that was stored when \<open>SubmitAsync\<close> returned is enough to settle its transaction later.
  \<^item> \<open>Events\<close> (\<open>events.go\<close>, lines 1 to 200): checkpointers, options, streams. The forwarding
    goroutine is a step relation \<open>stream_step\<close> that interleaves with the receiver, the caller's
    context and \<open>Close\<close>; its invariant gives order, no loss and a single release; the function
    \<open>stream_recv\<close> that the listeners use is simulated by it.
  \<^item> \<open>Listeners\<close> (\<open>events.go\<close>, lines 202 to 350): the two listeners as step functions, under the
    locales \<open>stepper\<close> and \<open>stepper_invariant\<close>, interpreted for both. Shown: no event or block is
    skipped or handled twice across reconnects, why a listener returns, the bounds of the
    backoff with 64-bit wrap-around, and that it stops with its context.
  \<^item> \<open>Progress\<close>: that the listeners do deliver. The locale \<open>progressing\<close>, which extends \<open>stepper\<close>, is
    the contract of a step that delivers or lowers a rank; interpreted for both listeners, it gives
    that on a network that always recovers any number of events and blocks is handled.
  \<^item> \<open>Restarts\<close>: processes that run a listener, are killed at any moment, also between the handler
    and the checkpoint, and are started again. The locale \<open>restartable\<close>, interpreted for both
    listeners, takes what one life promises to any number of lives: no gap, and at most one event
    repeated by each restart.
  \<^item> \<open>Once_Cell\<close>, \<open>Shared_Pending\<close>, \<open>Shared_Client\<close> (\<open>PendingTx\<close> in \<open>contract.go\<close>, \<open>Close\<close> and the
    closed flag in \<open>client.go\<close>): objects shared by any number of goroutines, as step relations.
    \<open>once_move\<close> is \<open>sync.Once\<close> as an abstract machine; the locale \<open>once_users\<close> is interpreted for both
    objects. Shown: mutual exclusion of \<open>Wait\<close>, a single release that is complete before any caller
    returns, no deadlock and a bound on the steps, and that the sequential definitions of
    \<open>Contract\<close> are runs of one goroutine. What the check of the closed flag does not exclude is
    the lemma \<open>client_race\<close>.
  \<^item> \<open>Shared_Identity\<close> (\<open>Identity.Close\<close> in \<open>identity.go\<close>): the unlocked close as a step relation.
    Shown: what every interleaving keeps, that calls which do not overlap close the signer once,
    and the runs in which overlapping calls close it twice or call nil.
  \<^item> \<open>Examples\<close> (\<open>examples/basic/main.go\<close>, \<open>examples/events/main.go\<close>): the two programs as compositions
    of the components. Shown: \<open>basic\<close> never submits twice and resolves an open outcome by asking
    about the transaction it sent; a restart of \<open>events\<close> resumes where it stopped. \<open>Basic_Ledger\<close>
    composes this with \<open>Resubmission\<close>: what \<open>basic\<close> prints at its end is true of the ledger.

  \<^bold>\<open>Conventions.\<close> A method that may fail returns a sum, \<open>Inl\<close> the error; a nil error is \<open>None\<close>. A
  structure is a record; one that is compared by pointer or changes has an address. Times and
  durations are integers of nanoseconds, with the 64-bit wrap written out where the sources
  double a backoff. Byte strings and Go strings are lists of bytes. A trace lists the effects in
  order: connections, Gateways, signers, the calls about a transaction, log lines, observer
  records, streams, handler calls and checkpoints. What a theorem needs of the code outside the
  repository is a named hypothesis (\<open>gateway_errors_opaque\<close>, \<open>orders_once\<close>, \<open>looks_up\<close>,
  \<open>connects_apart\<close>, \<open>event_feed\<close>, \<open>block_feed\<close>, \<open>program_feed\<close>, \<open>ended_for_good\<close>, \<open>event_recovery\<close>,
  \<open>block_recovery\<close>), and the example worlds show that each can hold.

  \<^bold>\<open>Fuel.\<close> The listeners' loops may run forever. \<open>iterate\<close> runs a given number of steps; a result
  once returned is the same for every larger number (\<open>listener_result_stable\<close>), and three steps
  are enough after the context ended (\<open>listeners_stop_with_context\<close>), and while it has not, some
  number of steps is enough for any number of deliveries (\<open>listener_delivers\<close>). Every other
  loop is a recursion that ends structurally or by a measure.

  \<^bold>\<open>Not modelled.\<close> What the code outside does: gRPC, the Gateway client, TLS, cryptography, files,
  signals; the tests. Four objects are modelled under concurrency: a pending transaction, a client
  that is closed while it is used, the forwarding goroutine of a stream, and an identity that is
  closed; their steps interleave one at a time, so the weaker guarantees that Go gives for a data
  race are not explored. Everywhere else methods run one at a time, and \<open>sync.Once\<close> and the atomic
  closed flag are modelled by their effect. The contexts given to the event operations are not
  nil, since \<open>context.WithCancel\<close> panics on nil. The text of a log or output line is kept as its values, not formatted.
\<close>

section \<open>Properties that span components\<close>

lemma ccKind_conflict: "c \<in> set known \<Longrightarrow> ccKind c \<in> {KindConflict, KindUnavailable, KindTimeout, KindEndorsement, KindSubmit} \<longleftrightarrow> c = Conflict"
  by (erule known_cases) (simp_all add: ccKind_def Conflict_def InvalidArgument_def NotFound_def AlreadyExists_def Unauthorized_def FailedPrecondition_def)

lemma ccKind_Conflict: "ccKind Conflict = KindConflict"
  by code_simp

text \<open>
  C13: a chaincode's error reaches the caller of \<open>Submit\<close> as what it is. If the endorsing peer
  rejects a proposal with an error the chaincode made with \<open>ccerr\<close>, then \<open>Submit\<close> returns an error
  of the kind of that code, attributed to chaincode, with the transaction's ID and no open
  outcome; nothing was sent to the orderer, and a retry is offered exactly for a conflict.
\<close>

theorem chaincode_error_reaches_caller:
  assumes "usable (ctCfg c)" and "opaque er" and "reports_ccerr (apiLib api) er ce"
    and "\<And>p cx x. fst (Proposal_Endorse api p cx x) = Inl er"
    and "run_state (SubmitWith api c ctx fn opts) w = (Inl e, w')" and "EEndorse p c1 \<in> set (added w w')"
  shows "KindOf (Some e) = ccKind (ccCode ce) \<and> IsChaincode (Some e) \<and> TxIDOf (Some e) = Proposal_TransactionID api p \<and>
    \<not> IsOutcomeUnknown (Some e) \<and> (\<forall>tx c2. ESubmit tx c2 \<notin> set (added w w')) \<and>
    (IsRetryable (Some e) \<longleftrightarrow> ccCode ce = Conflict)"
proof -
  have sub: "submission api c ctx fn (proposalOptions opts) (rpcs (added w w')) (Inl e)"
    using SubmitWith_submission [OF assms(1), of api ctx fn opts w] by (simp add: assms(5))
  have mem: "EEndorse p c1 \<in> set (rpcs (added w w'))" using assms(6) by (simp add: set_rpcs)
  have sent: "ESubmit tx c2 \<in> set (added w w') \<longleftrightarrow> ESubmit tx c2 \<in> set (rpcs (added w w'))" for tx c2
    by (simp add: set_rpcs)
  have cls: "classified (apiLib api) er phaseEndorse s = newError (ccKind (ccCode ce)) SourceChaincode (TrimSpace (ccMessage ce))" for s
    using assms(3) by (rule classified_ccerr) (simp add: less_phase_def)
  have known: "ccCode ce \<in> set known" using assms(3) by (simp add: reports_ccerr_def)
  from sub mem assms(4) show ?thesis
    by (elim submission_error)
      (auto simp: sent classifyErr_opaque [OF assms(2)] cls Retryable_def ccKind_conflict [OF known, simplified] ccKind_Conflict split: if_splits)
qed

definition rejecting_api :: "nat api" where
  "rejecting_api = calm_api\<lparr>Proposal_Endorse := (\<lambda>p cx x.
     (Inl (gateway_error codes_Aborted ''failed to endorse'' [''connection refused'', ''CONFLICT: version 3 != 4'']), x))\<rparr>"

lemma rejecting_api_simps [simp]:
  "fst (Proposal_Endorse rejecting_api p cx x) = Inl (gateway_error codes_Aborted ''failed to endorse'' [''connection refused'', ''CONFLICT: version 3 != 4''])"
  "apiLib rejecting_api = documented_lib" "NewProposal rejecting_api r fn os x = (Inr x, Suc x)" "time_Now rejecting_api x = (int x, Suc x)"
  "Proposal_TransactionID rejecting_api p = ''tx''"
  by (simp_all add: rejecting_api_def)

theorem chaincode_error_reaches_caller_witness:
  "\<exists>e w'. run_state (SubmitWith rejecting_api example_contract None ''Set'' []) calm_world = (Inl e, w') \<and>
     KindOf (Some e) = KindConflict \<and> IsRetryable (Some e) \<and> TxIDOf (Some e) = ''tx''"
proof -
  let ?run = "run_state (SubmitWith rejecting_api example_contract None ''Set'' []) calm_world"
  have "\<exists>e w'. ?run = (Inl e, w') \<and> (\<exists>p c1. EEndorse p c1 \<in> set (trace w')) \<and> trace calm_world = []"
    by (simp add: submit_defs run_simps) (auto simp: calm_world_def)
  then obtain e w' p c1 where run: "?run = (Inl e, w')" and mem: "EEndorse p c1 \<in> set (added calm_world w')"
    by (auto simp: added_def)
  from chaincode_error_reaches_caller [OF example_contract_usable(1) gateway_error_opaque _ _ run mem] example_reports_ccerr
  have "KindOf (Some e) = KindConflict \<and> IsRetryable (Some e) \<and> TxIDOf (Some e) = ''tx''"
    by (simp add: ccKind_Conflict)
  with run show ?thesis by blast
qed

end
